theory Spec2Isabelle
  imports Main "HOL-Library.Sublist"
begin

section \<open>Texts and JSON values\<close>

text \<open>
  A JavaScript string is a sequence of UTF-16 code units and \<open>length\<close> counts them.
  The model keeps a text as the list of its code units, so that the thresholds of the
  source (50, 500 and 3000 characters) count what the source counts. The literals of the
  source that are not ASCII are written out as code units.
\<close>

type_synonym ustring = "nat list"

definition ascii :: "string \<Rightarrow> ustring" where
  "ascii s = map of_char s"

text \<open>\<open>String.prototype.includes\<close>: the argument occurs as a contiguous run.\<close>

fun includes_str :: "ustring \<Rightarrow> ustring \<Rightarrow> bool" where
  "includes_str [] sub = (sub = [])"
| "includes_str (c # cs) sub = (prefix sub (c # cs) \<or> includes_str cs sub)"

text \<open>
  \<open>xs.slice(-n)\<close> for a positive \<open>n\<close>, on a string or an array: the last \<open>n\<close>
  elements, all of \<open>xs\<close> when it is shorter.
\<close>

definition slice_last :: "nat \<Rightarrow> 'a list \<Rightarrow> 'a list" where
  "slice_last n xs = drop (length xs - n) xs"

text \<open>
  White space as \<open>String.prototype.trim\<close> and the regular expression class \<open>\s\<close>
  understand it: tab, line feed, vertical tab, form feed, carriage return, space,
  no-break space, the Unicode space separators, the line and paragraph separators and
  the byte order mark.
\<close>

definition isSpace :: "nat \<Rightarrow> bool" where
  "isSpace c \<longleftrightarrow>
     (9 \<le> c \<and> c \<le> 13) \<or> c = 32 \<or> c = 160 \<or> c = 5760 \<or> (8192 \<le> c \<and> c \<le> 8202) \<or>
     c = 8232 \<or> c = 8233 \<or> c = 8239 \<or> c = 8287 \<or> c = 12288 \<or> c = 65279"

definition trimStart :: "ustring \<Rightarrow> ustring" where
  "trimStart s = dropWhile isSpace s"

definition trimEnd :: "ustring \<Rightarrow> ustring" where
  "trimEnd s = rev (dropWhile isSpace (rev s))"

definition trim :: "ustring \<Rightarrow> ustring" where
  "trim s = trimEnd (trimStart s)"

text \<open>
  The values \<open>JSON.parse\<close> produces. Numbers are kept as integers: nothing in the source
  computes with the numbers of a parsed value.
\<close>

datatype json =
    JNull
  | JBool bool
  | JNumber int
  | JString ustring
  | JArray "json list"
  | JObject "(ustring \<times> json) list"

text \<open>
  \<open>JSON.parse\<close> belongs to the platform, not to the repository: the functions below take
  it as a parameter \<open>parse\<close>, with \<open>None\<close> for the \<open>SyntaxError\<close> it throws. Where an
  example has to be evaluated, \<open>parseLiteral\<close> stands for it; it knows the two texts the
  examples use, the empty object and the empty array, on which it agrees with
  \<open>JSON.parse\<close>. No general statement is made about \<open>parseLiteral\<close>.
\<close>

definition parseLiteral :: "ustring \<Rightarrow> json option" where
  "parseLiteral s =
     (if s = ascii ''{}'' then Some (JObject [])
      else if s = ascii ''[]'' then Some (JArray [])
      else None)"

section \<open>geminiService.ts\<close>

subsection \<open>cleanJson\<close>

definition fence :: ustring where
  "fence = ascii ''```''"

definition lowerAscii :: "nat \<Rightarrow> nat" where
  "lowerAscii c = (if 65 \<le> c \<and> c \<le> 90 then c + 32 else c)"

text \<open>\<open>s.replace(/^```json\s*/i, "")\<close>\<close>

definition stripFenceJson :: "ustring \<Rightarrow> ustring" where
  "stripFenceJson s =
     (if take 3 s = fence \<and> map lowerAscii (take 4 (drop 3 s)) = ascii ''json''
      then trimStart (drop 7 s) else s)"

text \<open>\<open>s.replace(/^```\s*/, "")\<close>\<close>

definition stripFenceStart :: "ustring \<Rightarrow> ustring" where
  "stripFenceStart s = (if take 3 s = fence then trimStart (drop 3 s) else s)"

text \<open>
  \<open>s.replace(/\s*```$/, "")\<close>: without the \<open>m\<close> flag \<open>$\<close> is the end of the text, so the
  match is the closing fence together with the white space before it.
\<close>

definition stripFenceEnd :: "ustring \<Rightarrow> ustring" where
  "stripFenceEnd s =
     (if 3 \<le> length s \<and> drop (length s - 3) s = fence
      then trimEnd (take (length s - 3) s) else s)"

definition cleanJson :: "ustring \<Rightarrow> ustring" where
  "cleanJson txt =
     (if txt = [] then ascii ''{}''
      else trim (stripFenceEnd (stripFenceStart (stripFenceJson (trim txt)))))"

subsection \<open>callAIWithRetry\<close>

text \<open>
  A thrown value, as far as the source inspects it: \<open>error.status\<close> and
  \<open>error.message\<close>, either of which may be missing.
\<close>

record failure =
  status :: "int option"
  message :: "ustring option"

text \<open>What the source writes to the console.\<close>

datatype console_msg =
    WarnRetry int "ustring option"
  | ErrorJsonParse "ustring option"
  | ErrorJsonBatchParse
  | ErrorDirectoryHandle failure
  | ErrorSavingConfig failure
  | ErrorSavingOutline failure
  | ErrorSavingChapter nat failure
  | ErrorSavingAllChapters failure
  | ErrorCaught failure

text \<open>
  The surroundings of the code: the outside world \<open>'w\<close> (the provider, the storage, the
  source of fresh identifiers) and the console. An operation handed to the retry wrapper
  acts on these.
\<close>

record 'w io =
  world :: 'w
  console :: "console_msg list"

definition consoleLog :: "console_msg \<Rightarrow> 'w io \<Rightarrow> 'w io" where
  "consoleLog m x = x\<lparr>console := console x @ [m]\<rparr>"

text \<open>
  The state of a run: the surroundings, the waits requested so far (\<open>setTimeout\<close>, in
  milliseconds) and a count of how often the retry wrapper has invoked its operation.
  The last two are bookkeeping of the model, out of reach of an operation.
\<close>

record 'w sys =
  io :: "'w io"
  delays :: "int list"
  invocations :: nat

definition delay :: "int \<Rightarrow> 'w sys \<Rightarrow> 'w sys" where
  "delay ms s = s\<lparr>delays := delays s @ [ms]\<rparr>"

definition invoked :: "'w io \<Rightarrow> 'w sys \<Rightarrow> 'w sys" where
  "invoked x s = s\<lparr>io := x, invocations := invocations s + 1\<rparr>"

definition transient :: "failure \<Rightarrow> bool" where
  "transient e \<longleftrightarrow>
     status e = Some 503 \<or> status e = Some 500 \<or>
     (case message e of None \<Rightarrow> False | Some m \<Rightarrow> includes_str m (ascii ''overloaded''))"

function callAIWithRetry ::
  "('w io \<Rightarrow> (failure + 'a) \<times> 'w io) \<Rightarrow> int \<Rightarrow> int \<Rightarrow> 'w sys \<Rightarrow> (failure + 'a) \<times> 'w sys" where
  "callAIWithRetry operation retries baseDelay s =
     (case operation (io s) of (r, x) \<Rightarrow>
        (case r of
           Inr v \<Rightarrow> (Inr v, invoked x s)
         | Inl e \<Rightarrow>
             if retries > 0 \<and> transient e
             then callAIWithRetry operation (retries - 1) (baseDelay * 2)
                    (delay baseDelay (invoked (consoleLog (WarnRetry retries (message e)) x) s))
             else (Inl e, invoked x s)))"
  by pat_completeness auto
termination
  by (relation "measure (\<lambda>(operation, retries, baseDelay, s). nat retries)") auto

text \<open>The defaults of the source: \<open>retries = 3\<close> and \<open>baseDelay = 2000\<close>.\<close>

definition callAI :: "('w io \<Rightarrow> (failure + 'a) \<times> 'w io) \<Rightarrow> 'w sys \<Rightarrow> (failure + 'a) \<times> 'w sys" where
  "callAI operation s = callAIWithRetry operation 3 2000 s"

section \<open>The data model (types.ts)\<close>

datatype AppStep = SETUP | OUTLINE | CHAPTERS | WRITING

record NovelConfig =
  title_cfg :: ustring
  genre :: ustring
  tone :: ustring
  protagonist :: ustring
  worldSetting :: ustring
  writingStyle :: ustring
  targetChapterCount :: int
  targetWordCount :: int
  additionalNotes :: ustring

text \<open>
  \<open>interface Chapter\<close>. The interface is erased at run time, and the planning step
  fills \<open>title\<close> and \<open>summary\<close> with whatever the parsed response holds there. So
  the record leaves the type \<open>'t\<close> of these two fields open: a \<open>Chapter\<close> has texts
  there, as the interface declares, and a \<open>PlannedChapter\<close> has what the planning step
  has put there, a JSON value or nothing (\<open>undefined\<close>).
\<close>

record 't Chapter_of =
  id_ch :: ustring
  title :: 't
  summary :: 't
  content :: ustring
  isGenerated :: bool

type_synonym Chapter = "ustring Chapter_of"

type_synonym PlannedChapter = "json option Chapter_of"

record Novel =
  id_nv :: ustring
  lastModified :: int
  config :: NovelConfig
  outline :: ustring
  chapters :: "Chapter list"
  currentChapterId :: "ustring option"
  step :: AppStep

text \<open>\<open>Array.prototype.findIndex\<close>, with \<open>None\<close> for the \<open>-1\<close> of no match.\<close>

fun findIndex :: "('a \<Rightarrow> bool) \<Rightarrow> 'a list \<Rightarrow> nat option" where
  "findIndex p [] = None"
| "findIndex p (x # xs) = (if p x then Some 0 else map_option Suc (findIndex p xs))"

section \<open>The provider and the generators of geminiService.ts\<close>

text \<open>
  A request to \<open>ai.models.generateContent\<close>. The prompts of the source are fixed
  templates; a request is kept as the values the source interpolates into its template,
  in the order of their first occurrence.
\<close>

datatype request =
    TrendPrompt
  | BatchPrompt
      (bp_title: ustring) (bp_first: int) (bp_last: int) (bp_outline: ustring)
      (bp_previous: "(int \<times> json option \<times> json option) list") (bp_count: int)
      (bp_genre: ustring)
  | ContentPrompt
      (cp_title: ustring) (cp_chapter: ustring) (cp_summary: ustring) (cp_context: ustring)
      (cp_outline: ustring) (cp_words: int)

text \<open>The response, as far as the source reads it: \<open>response.text\<close>, which may be missing.\<close>

record response =
  resp_text :: "ustring option"

text \<open>\<open>response.text || d\<close>: a missing and an empty text are both falsy.\<close>

definition text_or :: "response \<Rightarrow> ustring \<Rightarrow> ustring" where
  "text_or r d = (case resp_text r of None \<Rightarrow> d | Some t \<Rightarrow> if t = [] then d else t)"

type_synonym 'w provider = "request \<Rightarrow> 'w \<Rightarrow> (failure + response) \<times> 'w"

text \<open>The provider call of an operation: it changes the world and leaves the console alone.\<close>

definition generateContent :: "'w provider \<Rightarrow> request \<Rightarrow> 'w io \<Rightarrow> (failure + response) \<times> 'w io" where
  "generateContent provider req x =
     (case provider req (world x) of (r, w) \<Rightarrow> (r, x\<lparr>world := w\<rparr>))"

subsection \<open>generateTrendConfig\<close>

text \<open>"AI\<dots>" of the source: the message of the content-format error, 12 code units.\<close>

definition formatErrorMessage :: ustring where
  "formatErrorMessage =
     [65, 73, 29983, 25104, 26684, 24335, 38169, 35823, 65292, 35831, 37325, 35797]"

definition formatError :: failure where
  "formatError = \<lparr>status = None, message = Some formatErrorMessage\<rparr>"

text \<open>
  The result is the parsed value itself: the cast \<open>as NovelConfig\<close> checks nothing at run
  time.
\<close>

definition trendOperation ::
  "(ustring \<Rightarrow> json option) \<Rightarrow> 'w provider \<Rightarrow> 'w io \<Rightarrow> (failure + json) \<times> 'w io" where
  "trendOperation parse provider x =
     (case generateContent provider TrendPrompt x of
        (Inl e, x') \<Rightarrow> (Inl e, x')
      | (Inr r, x') \<Rightarrow>
          (case parse (cleanJson (text_or r (ascii ''{}''))) of
             Some v \<Rightarrow> (Inr v, x')
           | None \<Rightarrow> (Inl formatError, consoleLog (ErrorJsonParse (resp_text r)) x')))"

definition generateTrendConfig ::
  "(ustring \<Rightarrow> json option) \<Rightarrow> 'w provider \<Rightarrow> 'w sys \<Rightarrow> (failure + json) \<times> 'w sys" where
  "generateTrendConfig parse provider s = callAI (trendOperation parse provider) s"

text \<open>
  The required-field set of the Configuration shape: the \<open>required\<close> list of the
  response schema the source sends with the request.
\<close>

definition requiredFields :: "ustring list" where
  "requiredFields =
     [ascii ''title'', ascii ''genre'', ascii ''protagonist'', ascii ''worldSetting'',
      ascii ''writingStyle'']"

definition satisfiesRequired :: "json \<Rightarrow> bool" where
  "satisfiesRequired v =
     (case v of
        JObject kvs \<Rightarrow> list_all (\<lambda>k. List.member (map fst kvs) k) requiredFields
      | _ \<Rightarrow> False)"

subsection \<open>generateChapterContent\<close>

text \<open>The text the source returns when the provider returns none, 7 code units.\<close>

definition emptyContentText :: ustring where
  "emptyContentText = [29983, 25104, 20869, 23481, 20026, 31354, 12290]"

definition contentOperation ::
  "'w provider \<Rightarrow> NovelConfig \<Rightarrow> Chapter \<Rightarrow> ustring \<Rightarrow> ustring \<Rightarrow> 'w io \<Rightarrow> (failure + ustring) \<times> 'w io" where
  "contentOperation provider cfg currentChapter previousContext outl x =
     (case generateContent provider
             (ContentPrompt (title_cfg cfg) (title currentChapter) (summary currentChapter)
                previousContext (take 800 outl) (targetWordCount cfg)) x of
        (Inl e, x') \<Rightarrow> (Inl e, x')
      | (Inr r, x') \<Rightarrow> (Inr (text_or r emptyContentText), x'))"

definition generateChapterContent ::
  "'w provider \<Rightarrow> NovelConfig \<Rightarrow> Chapter \<Rightarrow> ustring \<Rightarrow> ustring \<Rightarrow> 'w sys \<Rightarrow> (failure + ustring) \<times> 'w sys" where
  "generateChapterContent provider cfg currentChapter previousContext outl s =
     callAI (contentOperation provider cfg currentChapter previousContext outl) s"

subsection \<open>generateChapterBatch\<close>

text \<open>
  \<open>item.title\<close> and \<open>item.summary\<close> of a parsed array element that is not
  \<open>null\<close>: the value of the member of that name when the element is an object that
  has one, and \<open>undefined\<close> (\<open>None\<close>) otherwise. A \<open>JObject\<close> lists the members
  in the order of the text; of several members with one name the last counts, as
  \<open>JSON.parse\<close> has it.
\<close>

definition property :: "json \<Rightarrow> ustring \<Rightarrow> json option" where
  "property item k = (case item of JObject kvs \<Rightarrow> map_of (rev kvs) k | _ \<Rightarrow> None)"

text \<open>
  \<open>data.map(item => ({id: crypto.randomUUID(), ...}))\<close>. The identifiers come from the
  world through \<open>uuid\<close>. Reading a property of \<open>null\<close> throws a \<open>TypeError\<close>: the result
  is \<open>None\<close> then, and the identifiers drawn so far are spent.
\<close>

fun mapItems :: "('w \<Rightarrow> ustring \<times> 'w) \<Rightarrow> json list \<Rightarrow> 'w \<Rightarrow> PlannedChapter list option \<times> 'w" where
  "mapItems uuid [] w = (Some [], w)"
| "mapItems uuid (item # items) w =
     (case uuid w of (i, w1) \<Rightarrow>
        if item = JNull then (None, w1)
        else (case mapItems uuid items w1 of
                (None, w2) \<Rightarrow> (None, w2)
              | (Some cs, w2) \<Rightarrow>
                  (Some (\<lparr>id_ch = i, title = property item (ascii ''title''),
                          summary = property item (ascii ''summary''), content = [],
                          isGenerated = False\<rparr> # cs), w2)))"

text \<open>
  The lines of the prompt about the chapters before the batch: the last five of them,
  numbered as the source numbers them.
\<close>

definition previousLines ::
  "nat \<Rightarrow> PlannedChapter list \<Rightarrow> (int \<times> json option \<times> json option) list" where
  "previousLines startChapterIndex previousChaptersContext =
     map (\<lambda>(i, c). (int startChapterIndex - 5 + int i + 1, title c, summary c))
       (enumerate 0 (slice_last 5 previousChaptersContext))"

definition batchOperation ::
  "(ustring \<Rightarrow> json option) \<Rightarrow> ('w \<Rightarrow> ustring \<times> 'w) \<Rightarrow> 'w provider \<Rightarrow> NovelConfig \<Rightarrow> ustring \<Rightarrow>
   nat \<Rightarrow> int \<Rightarrow> PlannedChapter list \<Rightarrow> 'w io \<Rightarrow> (failure + PlannedChapter list) \<times> 'w io" where
  "batchOperation parse uuid provider cfg outl startChapterIndex batchSize previousChaptersContext x =
     (case generateContent provider
             (BatchPrompt (title_cfg cfg) (int startChapterIndex + 1)
                (int startChapterIndex + batchSize) (take 1500 outl)
                (previousLines startChapterIndex previousChaptersContext) batchSize (genre cfg)) x of
        (Inl e, x') \<Rightarrow> (Inl e, x')
      | (Inr r, x') \<Rightarrow>
          (case parse (cleanJson (text_or r (ascii ''[]''))) of
             None \<Rightarrow> (Inr [], consoleLog ErrorJsonBatchParse x')
           | Some (JArray items) \<Rightarrow>
               (case mapItems uuid items (world x') of
                  (Some cs, w) \<Rightarrow> (Inr cs, x'\<lparr>world := w\<rparr>)
                | (None, w) \<Rightarrow> (Inr [], consoleLog ErrorJsonBatchParse (x'\<lparr>world := w\<rparr>)))
           | Some _ \<Rightarrow> (Inr [], x')))"

definition generateChapterBatch ::
  "(ustring \<Rightarrow> json option) \<Rightarrow> ('w \<Rightarrow> ustring \<times> 'w) \<Rightarrow> 'w provider \<Rightarrow> NovelConfig \<Rightarrow> ustring \<Rightarrow>
   nat \<Rightarrow> int \<Rightarrow> PlannedChapter list \<Rightarrow> 'w sys \<Rightarrow> (failure + PlannedChapter list) \<times> 'w sys" where
  "generateChapterBatch parse uuid provider cfg outl startChapterIndex batchSize previousChaptersContext s =
     callAI (batchOperation parse uuid provider cfg outl startChapterIndex batchSize
               previousChaptersContext) s"

section \<open>WriterInterface.tsx\<close>

subsection \<open>getContext\<close>

text \<open>The three literals of \<open>getContext\<close>, as code units (13, 7 and 13 of them).\<close>

definition noPriorContext :: ustring where
  "noPriorContext =
     [36825, 26159, 31532, 19968, 31456, 65292, 26242, 26080, 21069, 24773, 25552, 35201, 12290]"

definition summaryMarker :: ustring where
  "summaryMarker = [12304, 19978, 31456, 26775, 27010, 12305, 65306]"

definition tailMarker :: ustring where
  "tailMarker =
     [12304, 19978, 31456, 27491, 25991, 32467, 23614, 12305, 65306, 10, 46, 46, 46]"

definition getContext :: "Chapter \<Rightarrow> Chapter list \<Rightarrow> ustring" where
  "getContext currentChap allChapters =
     (case findIndex (\<lambda>c. id_ch c = id_ch currentChap) allChapters of
        None \<Rightarrow> noPriorContext
      | Some currentIndex \<Rightarrow>
          if 0 < currentIndex then
            (let prevChapter = allChapters ! (currentIndex - 1);
                 prevText = content prevChapter
             in if prevText = [] \<or> length prevText < 50
                then summaryMarker @ summary prevChapter
                else tailMarker @ slice_last 3000 prevText)
          else noPriorContext)"

subsection \<open>The state of the writer component\<close>

text \<open>The status lines of \<open>addLog\<close> and the dialogs of \<open>alert\<close>, by their occurrence.\<close>

datatype log_line =
    LogStopping
  | LogBatchStart nat
  | LogUserStopped
  | LogLastChapter
  | LogWriting nat nat ustring
  | LogChapterSaved
  | LogBatchComplete
  | LogBatchError "ustring option"

datatype alert_box = AlertNoChapters | AlertAllWritten | AlertInterrupted

text \<open>
  The component: its props (\<open>chapters\<close>, which the parent replaces when
  \<open>onUpdateChapters\<close> is called), its state and its refs. \<open>reported\<close> and \<open>alerts\<close>
  are the streams of progress tuples and of dialogs shown so far.
\<close>

record 'w writer =
  sys_state :: "'w sys"
  chapters_prop :: "Chapter list"
  activeChapterId :: "ustring option"
  isGenerating :: bool
  batchProgress :: "(nat \<times> nat) option"
  logs :: "log_line list"
  abortBatchRef :: bool
  reported :: "(nat \<times> nat) list"
  alerts :: "alert_box list"

definition addLog :: "log_line \<Rightarrow> 'w writer \<Rightarrow> 'w writer" where
  "addLog msg w = w\<lparr>logs := slice_last 4 (logs w) @ [msg]\<rparr>"

definition setBatchProgress :: "nat \<times> nat \<Rightarrow> 'w writer \<Rightarrow> 'w writer" where
  "setBatchProgress p w = w\<lparr>batchProgress := Some p, reported := reported w @ [p]\<rparr>"

definition alert :: "alert_box \<Rightarrow> 'w writer \<Rightarrow> 'w writer" where
  "alert a w = w\<lparr>alerts := alerts w @ [a]\<rparr>"

definition handleStopBatch :: "'w writer \<Rightarrow> 'w writer" where
  "handleStopBatch w = addLog LogStopping (w\<lparr>abortBatchRef := True\<rparr>)"

subsection \<open>handleBatchGenerate\<close>

definition chaptersToGenCount :: nat where
  "chaptersToGenCount = 10"

text \<open>The search for the start: \<open>while (startIndex < chapters.length && ... > 500) startIndex++\<close>.\<close>

function searchStart :: "Chapter list \<Rightarrow> nat \<Rightarrow> nat" where
  "searchStart chs startIndex =
     (if startIndex < length chs \<and> 500 < length (content (chs ! startIndex))
      then searchStart chs (startIndex + 1) else startIndex)"
  by pat_completeness auto
termination
  by (relation "measure (\<lambda>(chs, startIndex). length chs - startIndex)") auto

text \<open>
  \<open>currentIdx\<close>: the position of the selected unit, 0 when \<open>findIndex\<close> finds none.
\<close>

definition selectedIndex :: "Chapter list \<Rightarrow> ustring option \<Rightarrow> nat" where
  "selectedIndex chs active =
     (case findIndex (\<lambda>c. Some (id_ch c) = active) chs of None \<Rightarrow> 0 | Some currentIdx \<Rightarrow> currentIdx)"

definition batchStart :: "Chapter list \<Rightarrow> ustring option \<Rightarrow> nat" where
  "batchStart chs active = searchStart chs (selectedIndex chs active)"

text \<open>
  The stop button. While the loop is suspended in one of the three \<open>await\<close>s of a
  pass (the generation call, the save, the pause), the user can press the button, any
  number of times. Each press runs \<open>handleStopBatch\<close> then and there: the flag is set
  and the status line is added before the code after the \<open>await\<close> goes on. \<open>stops i p\<close>
  is the number of presses during the \<open>await\<close> \<open>p\<close> of pass \<open>i\<close>.
\<close>

datatype await_point = AwaitGenerate | AwaitSave | AwaitPause

definition pressed :: "nat \<Rightarrow> 'w writer \<Rightarrow> 'w writer" where
  "pressed n w = (handleStopBatch ^^ n) w"

definition pressedDuring :: "(nat \<Rightarrow> await_point \<Rightarrow> nat) \<Rightarrow> nat \<Rightarrow> bool" where
  "pressedDuring stops i \<longleftrightarrow>
     0 < stops i AwaitGenerate \<or> 0 < stops i AwaitSave \<or> 0 < stops i AwaitPause"

text \<open>
  One pass through the body of the \<open>for\<close> loop. \<open>Inl\<close> leaves the loop, by \<open>break\<close>
  (no failure) or by a thrown failure; \<open>Inr\<close> goes on to the next \<open>i\<close>. The flag is
  read at the top of the pass and nowhere else. \<open>saveChapterData\<close> is the prop of that
  name.
\<close>

definition batchPass ::
  "'w provider \<Rightarrow> (Chapter \<Rightarrow> nat \<Rightarrow> 'w io \<Rightarrow> (failure + unit) \<times> 'w io) \<Rightarrow>
   (nat \<Rightarrow> await_point \<Rightarrow> nat) \<Rightarrow>
   NovelConfig \<Rightarrow> ustring \<Rightarrow> nat \<Rightarrow> nat \<Rightarrow> Chapter list \<Rightarrow> 'w writer \<Rightarrow>
   (failure option \<times> Chapter list \<times> 'w writer) + (Chapter list \<times> 'w writer)" where
  "batchPass provider saveChapterData stops cfg outl startIndex i localChapters w =
     (if abortBatchRef w then Inl (None, localChapters, addLog LogUserStopped w)
      else
        let targetIndex = startIndex + i in
        if length localChapters \<le> targetIndex
        then Inl (None, localChapters, addLog LogLastChapter w)
        else
          let targetChapter = localChapters ! targetIndex;
              w1 = setBatchProgress (i + 1, chaptersToGenCount)
                     (addLog (LogWriting (i + 1) chaptersToGenCount (title targetChapter))
                        (w\<lparr>activeChapterId := Some (id_ch targetChapter)\<rparr>));
              context = getContext targetChapter localChapters
          in case generateChapterContent provider cfg targetChapter context outl (sys_state w1) of
               (Inl e, s1) \<Rightarrow>
                 Inl (Some e, localChapters, (pressed (stops i AwaitGenerate) w1)\<lparr>sys_state := s1\<rparr>)
             | (Inr newContent, s1) \<Rightarrow>
                 let localChapters' =
                       localChapters[targetIndex :=
                         targetChapter\<lparr>content := newContent, isGenerated := True\<rparr>];
                     w2 = (pressed (stops i AwaitGenerate) w1)
                            \<lparr>sys_state := s1, chapters_prop := localChapters'\<rparr>
                 in case saveChapterData (localChapters' ! targetIndex) targetIndex (io s1) of
                      (Inl e, x) \<Rightarrow>
                        Inl (Some e, localChapters',
                             (pressed (stops i AwaitSave) w2)\<lparr>sys_state := s1\<lparr>io := x\<rparr>\<rparr>)
                    | (Inr _, x) \<Rightarrow>
                        let w3 = addLog LogChapterSaved
                                   ((pressed (stops i AwaitSave) w2)\<lparr>sys_state := s1\<lparr>io := x\<rparr>\<rparr>)
                        in Inr (localChapters',
                                (pressed (stops i AwaitPause) w3)
                                  \<lparr>sys_state := delay 500 (sys_state w3)\<rparr>))"

function batchLoop ::
  "'w provider \<Rightarrow> (Chapter \<Rightarrow> nat \<Rightarrow> 'w io \<Rightarrow> (failure + unit) \<times> 'w io) \<Rightarrow>
   (nat \<Rightarrow> await_point \<Rightarrow> nat) \<Rightarrow>
   NovelConfig \<Rightarrow> ustring \<Rightarrow> nat \<Rightarrow> nat \<Rightarrow> Chapter list \<Rightarrow> 'w writer \<Rightarrow>
   failure option \<times> Chapter list \<times> 'w writer" where
  "batchLoop provider saveChapterData stops cfg outl startIndex i localChapters w =
     (if i < chaptersToGenCount then
        (case batchPass provider saveChapterData stops cfg outl startIndex i localChapters w of
           Inl done \<Rightarrow> done
         | Inr (localChapters', w') \<Rightarrow>
             batchLoop provider saveChapterData stops cfg outl startIndex (i + 1) localChapters' w')
      else (None, localChapters, w))"
  by pat_completeness auto
termination
  by (relation "measure (\<lambda>(provider, saveChapterData, stops, cfg, outl, startIndex, i, localChapters, w).
        chaptersToGenCount - i)") auto

text \<open>
  The handler. After the loop: the completion line unless the flag is set; a thrown
  failure is logged and announced; \<open>finally\<close> resets the state and the flag.
\<close>

definition handleBatchGenerate ::
  "'w provider \<Rightarrow> (Chapter \<Rightarrow> nat \<Rightarrow> 'w io \<Rightarrow> (failure + unit) \<times> 'w io) \<Rightarrow>
   (nat \<Rightarrow> await_point \<Rightarrow> nat) \<Rightarrow>
   NovelConfig \<Rightarrow> ustring \<Rightarrow> 'w writer \<Rightarrow> 'w writer" where
  "handleBatchGenerate provider saveChapterData stops cfg outl w =
     (if isGenerating w then w
      else if chapters_prop w = [] then alert AlertNoChapters w
      else
        let w0 = w\<lparr>abortBatchRef := False\<rparr>;
            startIndex = batchStart (chapters_prop w) (activeChapterId w)
        in if length (chapters_prop w) \<le> startIndex then alert AlertAllWritten w0
           else
             let w1 = addLog (LogBatchStart (startIndex + 1))
                        (setBatchProgress (0, chaptersToGenCount) (w0\<lparr>isGenerating := True\<rparr>))
             in case batchLoop provider saveChapterData stops cfg outl startIndex 0
                       (chapters_prop w) w1 of
                  (thrown, localChapters, w2) \<Rightarrow>
                    (let w3 = (case thrown of
                                 None \<Rightarrow> if abortBatchRef w2 then w2 else addLog LogBatchComplete w2
                               | Some e \<Rightarrow>
                                   alert AlertInterrupted
                                     (addLog (LogBatchError (message e))
                                        (w2\<lparr>sys_state := (sys_state w2)
                                               \<lparr>io := consoleLog (ErrorCaught e) (io (sys_state w2))\<rparr>\<rparr>)))
                     in w3\<lparr>isGenerating := False, batchProgress := None, abortBatchRef := False\<rparr>))"

text \<open>
  What a run leaves behind, as a relation between the sequence before and after: the
  units at the positions from \<open>a\<close> up to \<open>b\<close> (exclusive) carry the generated-flag and a
  body that is not empty, and keep identity, title and synopsis; every other unit is the
  unit it was.
\<close>

definition unitsWritten :: "nat \<Rightarrow> nat \<Rightarrow> Chapter list \<Rightarrow> Chapter list \<Rightarrow> bool" where
  "unitsWritten a b old new \<longleftrightarrow>
     length new = length old \<and>
     list_all
       (\<lambda>j. if a \<le> j \<and> j < b
            then isGenerated (new ! j) \<and> content (new ! j) \<noteq> [] \<and>
                 id_ch (new ! j) = id_ch (old ! j) \<and> title (new ! j) = title (old ! j) \<and>
                 summary (new ! j) = summary (old ! j)
            else new ! j = old ! j)
       [0 ..< length old]"

text \<open>
  The start of a run in the words of the specification, for comparison: the first
  position at or after \<open>cur\<close> whose unit has a body of fewer than \<open>limit\<close>
  characters, if there is one.
\<close>

definition firstUnitBelow :: "nat \<Rightarrow> Chapter list \<Rightarrow> nat \<Rightarrow> nat option" where
  "firstUnitBelow limit chs cur =
     find (\<lambda>j. length (content (chs ! j)) < limit) [cur ..< length chs]"

section \<open>App.tsx: the library and its persisted copy\<close>

text \<open>
  The state of the application as far as the library goes: the collection in memory, the
  selection, and the item \<open>gemini_novel_library\<close> of the local storage (\<open>None\<close> while it
  has never been written). The item is kept as the collection it serialises.
\<close>

record app =
  novels :: "Novel list"
  activeNovelId :: "ustring option"
  stored :: "Novel list option"

text \<open>\<open>INITIAL_CONFIG\<close>, its three texts outside ASCII as code units.\<close>

definition INITIAL_CONFIG :: NovelConfig where
  "INITIAL_CONFIG =
     \<lparr>title_cfg = [], genre = [29572, 24187], tone = [28909, 34880], protagonist = [],
      worldSetting = [],
      writingStyle = [26234, 21830, 22312, 32447, 65292, 21095, 24773, 32039, 20945],
      targetChapterCount = 50, targetWordCount = 3000, additionalNotes = []\<rparr>"

text \<open>The effect that loads the library on mount.\<close>

definition loadLibrary :: "app \<Rightarrow> app" where
  "loadLibrary a = (case stored a of None \<Rightarrow> a | Some saved \<Rightarrow> a\<lparr>novels := saved\<rparr>)"

text \<open>
  The effect \<open>useEffect(..., [novels])\<close> that persists the library: it runs after every
  change of \<open>novels\<close>.
\<close>

definition persistLibrary :: "app \<Rightarrow> app" where
  "persistLibrary a = (if 0 < length (novels a) then a\<lparr>stored := Some (novels a)\<rparr> else a)"

text \<open>The mutations of the collection. The fresh identifier and the clock are arguments.\<close>

definition handleCreateNovel :: "ustring \<Rightarrow> int \<Rightarrow> app \<Rightarrow> app" where
  "handleCreateNovel newId now a =
     a\<lparr>novels :=
         \<lparr>id_nv = newId, lastModified = now, config = INITIAL_CONFIG, outline = [], chapters = [],
          currentChapterId = None, step = SETUP\<rparr> # novels a,
       activeNovelId := Some newId\<rparr>"

definition handleDeleteNovel :: "ustring \<Rightarrow> app \<Rightarrow> app" where
  "handleDeleteNovel i a =
     a\<lparr>novels := filter (\<lambda>n. id_nv n \<noteq> i) (novels a),
       activeNovelId := (if activeNovelId a = Some i then None else activeNovelId a)\<rparr>"

text \<open>
  \<open>updateActiveNovel\<close>: the partial update is a function on the document; the time stamp
  is refreshed.
\<close>

definition updateActiveNovel :: "(Novel \<Rightarrow> Novel) \<Rightarrow> int \<Rightarrow> app \<Rightarrow> app" where
  "updateActiveNovel updates now a =
     (case activeNovelId a of
        None \<Rightarrow> a
      | Some i \<Rightarrow>
          a\<lparr>novels := map (\<lambda>n. if id_nv n = i then (updates n)\<lparr>lastModified := now\<rparr> else n)
                         (novels a)\<rparr>)"

text \<open>A mutation has settled when the effect that follows the change of \<open>novels\<close> has run.\<close>

definition settled :: "(app \<Rightarrow> app) \<Rightarrow> app \<Rightarrow> app" where
  "settled mutation a = persistLibrary (mutation a)"

section \<open>fileSystemService.ts\<close>

subsection \<open>Asynchronous code that may throw\<close>

text \<open>
  A computation on the surroundings ends with a value or with a thrown failure.
  \<open>bind_io\<close> is \<open>await\<close> followed by the rest of the block; \<open>try_catch\<close> is the
  \<open>try\<close> statement.
\<close>

type_synonym ('w, 'a) async = "'w io \<Rightarrow> (failure + 'a) \<times> 'w io"

definition return_io :: "'a \<Rightarrow> ('w, 'a) async" where
  "return_io v x = (Inr v, x)"

definition bind_io :: "('w, 'a) async \<Rightarrow> ('a \<Rightarrow> ('w, 'b) async) \<Rightarrow> ('w, 'b) async" where
  "bind_io m f x = (case m x of (Inl e, x') \<Rightarrow> (Inl e, x') | (Inr v, x') \<Rightarrow> f v x')"

definition try_catch :: "('w, 'a) async \<Rightarrow> (failure \<Rightarrow> ('w, 'a) async) \<Rightarrow> ('w, 'a) async" where
  "try_catch m handler x = (case m x of (Inl e, x') \<Rightarrow> handler e x' | (Inr v, x') \<Rightarrow> (Inr v, x'))"

definition console_error :: "console_msg \<Rightarrow> ('w, unit) async" where
  "console_error m x = (Inr (), consoleLog m x)"

text \<open>A call into the world.\<close>

definition call :: "('w \<Rightarrow> (failure + 'a) \<times> 'w) \<Rightarrow> ('w, 'a) async" where
  "call f x = (case f (world x) of (r, w) \<Rightarrow> (r, x\<lparr>world := w\<rparr>))"

subsection \<open>The File System Access API\<close>

text \<open>
  The methods of the directory, file and stream handles the source calls. Each may throw,
  and each may change the world. Handles are numbers. \<open>write_stream\<close> and
  \<open>close_stream\<close> are \<open>write\<close> and \<open>close\<close> of the writable stream.
\<close>

type_synonym handle = nat

record 'w fsapi =
  getDirectoryHandle :: "handle \<Rightarrow> ustring \<Rightarrow> 'w \<Rightarrow> (failure + handle) \<times> 'w"
  getFileHandle :: "handle \<Rightarrow> ustring \<Rightarrow> 'w \<Rightarrow> (failure + handle) \<times> 'w"
  createWritable :: "handle \<Rightarrow> 'w \<Rightarrow> (failure + handle) \<times> 'w"
  write_stream :: "handle \<Rightarrow> ustring \<Rightarrow> 'w \<Rightarrow> (failure + unit) \<times> 'w"
  close_stream :: "handle \<Rightarrow> 'w \<Rightarrow> (failure + unit) \<times> 'w"

subsection \<open>Names\<close>

text \<open>
  \<open>novelTitle.replace(/[^a-z0-9...-_]/gi, '_') || 'Untitled_Novel'\<close>, where the
  dots stand for the range from U+4E00 to U+9FA5: letters
  of either case, digits, the ideographs from U+4E00 to U+9FA5, hyphen and underscore
  stay.
\<close>

definition dirNameChar :: "nat \<Rightarrow> bool" where
  "dirNameChar c \<longleftrightarrow>
     (97 \<le> c \<and> c \<le> 122) \<or> (65 \<le> c \<and> c \<le> 90) \<or> (48 \<le> c \<and> c \<le> 57) \<or>
     (19968 \<le> c \<and> c \<le> 40869) \<or> c = 45 \<or> c = 95"

definition safeDirName :: "ustring \<Rightarrow> ustring" where
  "safeDirName novelTitle =
     (let safeTitle = map (\<lambda>c. if dirNameChar c then c else 95) novelTitle
      in if safeTitle = [] then ascii ''Untitled_Novel'' else safeTitle)"

text \<open>\<open>String(n)\<close> for a natural number, and \<open>padStart\<close>.\<close>

fun decimal :: "nat \<Rightarrow> ustring" where
  "decimal n = (if n < 10 then [48 + n] else decimal (n div 10) @ [48 + n mod 10])"

definition padStart :: "nat \<Rightarrow> nat \<Rightarrow> ustring \<Rightarrow> ustring" where
  "padStart n c s = replicate (n - length s) c @ s"

text \<open>
  \<open>(chapter.title || 'Untitled').replace(/[\\/:*?"<>|]/g, '_').slice(0, 50)\<close>
\<close>

definition fileNameForbidden :: "nat \<Rightarrow> bool" where
  "fileNameForbidden c \<longleftrightarrow> List.member [92, 47, 58, 42, 63, 34, 60, 62, 124] c"

definition safeFileTitle :: "ustring \<Rightarrow> ustring" where
  "safeFileTitle t =
     take 50 (map (\<lambda>c. if fileNameForbidden c then 95 else c)
                (if t = [] then ascii ''Untitled'' else t))"

definition chapterFileName :: "Chapter \<Rightarrow> nat \<Rightarrow> ustring" where
  "chapterFileName chapter index =
     padStart 4 48 (decimal (index + 1)) @ ascii ''_'' @ safeFileTitle (title chapter) @ ascii ''.txt''"

text \<open>The text of a chapter file; its two ideographic pieces as code units.\<close>

definition chapterFileText :: "Chapter \<Rightarrow> nat \<Rightarrow> ustring" where
  "chapterFileText chapter index =
     [31532] @ decimal (index + 1) @ [31456, 65306] @ title chapter @ [10, 10] @ content chapter"

subsection \<open>The save functions\<close>

text \<open>
  \<open>root\<close> is the module variable \<open>rootDirectoryHandle\<close>. \<open>JSON.stringify\<close> of the
  configuration is the parameter \<open>stringify\<close>.
\<close>

definition getNovelDirectory :: "'w fsapi \<Rightarrow> handle option \<Rightarrow> ustring \<Rightarrow> ('w, handle option) async" where
  "getNovelDirectory api root novelTitle =
     (case root of
        None \<Rightarrow> return_io None
      | Some rootDirectoryHandle \<Rightarrow>
          try_catch
            (bind_io (call (getDirectoryHandle api rootDirectoryHandle (safeDirName novelTitle)))
               (\<lambda>dir. return_io (Some dir)))
            (\<lambda>e. bind_io (console_error (ErrorDirectoryHandle e)) (\<lambda>_. return_io None)))"

definition writeFile :: "'w fsapi \<Rightarrow> handle \<Rightarrow> ustring \<Rightarrow> ustring \<Rightarrow> ('w, unit) async" where
  "writeFile api dir name txt =
     bind_io (call (getFileHandle api dir name)) (\<lambda>fileHandle.
     bind_io (call (createWritable api fileHandle)) (\<lambda>writable.
     bind_io (call (write_stream api writable txt)) (\<lambda>_.
     call (close_stream api writable))))"

definition saveNovelConfig ::
  "'w fsapi \<Rightarrow> handle option \<Rightarrow> (NovelConfig \<Rightarrow> ustring) \<Rightarrow> Novel \<Rightarrow> ('w, unit) async" where
  "saveNovelConfig api root stringify novel =
     (if root = None then return_io ()
      else try_catch
             (bind_io (getNovelDirectory api root (title_cfg (config novel))) (\<lambda>dir.
                case dir of
                  None \<Rightarrow> return_io ()
                | Some d \<Rightarrow> writeFile api d (ascii ''setting.json'') (stringify (config novel))))
             (\<lambda>e. console_error (ErrorSavingConfig e)))"

definition saveOutline :: "'w fsapi \<Rightarrow> handle option \<Rightarrow> Novel \<Rightarrow> ('w, unit) async" where
  "saveOutline api root novel =
     (if root = None then return_io ()
      else try_catch
             (bind_io (getNovelDirectory api root (title_cfg (config novel))) (\<lambda>dir.
                case dir of
                  None \<Rightarrow> return_io ()
                | Some d \<Rightarrow> writeFile api d (ascii ''outline.txt'') (outline novel)))
             (\<lambda>e. console_error (ErrorSavingOutline e)))"

definition saveChapter :: "'w fsapi \<Rightarrow> handle option \<Rightarrow> Novel \<Rightarrow> Chapter \<Rightarrow> nat \<Rightarrow> ('w, unit) async" where
  "saveChapter api root novel chapter index =
     (if root = None then return_io ()
      else try_catch
             (bind_io (getNovelDirectory api root (title_cfg (config novel))) (\<lambda>dir.
                case dir of
                  None \<Rightarrow> return_io ()
                | Some d \<Rightarrow>
                    bind_io (call (getDirectoryHandle api d (ascii ''chapters''))) (\<lambda>chaptersDir.
                    writeFile api chaptersDir (chapterFileName chapter index)
                      (chapterFileText chapter index))))
             (\<lambda>e. console_error (ErrorSavingChapter (index + 1) e)))"

text \<open>The loop of \<open>saveAllChapters\<close>, over the chapters with their positions.\<close>

fun saveEach :: "'w fsapi \<Rightarrow> handle option \<Rightarrow> Novel \<Rightarrow> (nat \<times> Chapter) list \<Rightarrow> ('w, unit) async" where
  "saveEach api root novel [] = return_io ()"
| "saveEach api root novel ((i, chapter) # rest) =
     bind_io
       (if content chapter \<noteq> [] \<and> 0 < length (trim (content chapter))
        then saveChapter api root novel chapter i else return_io ())
       (\<lambda>_. saveEach api root novel rest)"

definition saveAllChapters :: "'w fsapi \<Rightarrow> handle option \<Rightarrow> Novel \<Rightarrow> ('w, unit) async" where
  "saveAllChapters api root novel =
     (if root = None then return_io ()
      else try_catch (saveEach api root novel (enumerate 0 (chapters novel)))
             (\<lambda>e. console_error (ErrorSavingAllChapters e)))"

text \<open>
  The prop \<open>saveChapterData\<close> that App.tsx hands to the writer component, with the state
  \<open>isFileSystemReady\<close> and the active document of the render it belongs to.
\<close>

definition saveChapterDataProp ::
  "'w fsapi \<Rightarrow> handle option \<Rightarrow> bool \<Rightarrow> Novel option \<Rightarrow> Chapter \<Rightarrow> nat \<Rightarrow> ('w, unit) async" where
  "saveChapterDataProp api root isFileSystemReady activeNovel chapter index =
     (case activeNovel of
        Some novel \<Rightarrow>
          if isFileSystemReady then saveChapter api root novel chapter index else return_io ()
      | None \<Rightarrow> return_io ())"

subsection \<open>The failures a storage throws\<close>

text \<open>
  To speak of the failures that the storage threw during a call, a storage is run with
  a list beside its world: \<open>recording api\<close> behaves as \<open>api\<close> on the world, and each of
  its methods appends the failure it throws to the list.
\<close>

definition recorded ::
  "('w \<Rightarrow> (failure + 'a) \<times> 'w) \<Rightarrow> 'w \<times> failure list \<Rightarrow> (failure + 'a) \<times> 'w \<times> failure list" where
  "recorded f = (\<lambda>(w, thrown).
     case f w of
       (Inl e, w') \<Rightarrow> (Inl e, (w', thrown @ [e]))
     | (Inr v, w') \<Rightarrow> (Inr v, (w', thrown)))"

definition recording :: "'w fsapi \<Rightarrow> ('w \<times> failure list) fsapi" where
  "recording api =
     \<lparr>getDirectoryHandle = (\<lambda>h name. recorded (getDirectoryHandle api h name)),
      getFileHandle = (\<lambda>h name. recorded (getFileHandle api h name)),
      createWritable = (\<lambda>h. recorded (createWritable api h)),
      write_stream = (\<lambda>h txt. recorded (write_stream api h txt)),
      close_stream = (\<lambda>h. recorded (close_stream api h))\<rparr>"

text \<open>
  \<open>tracked R m\<close>: in every run of \<open>m\<close> on a recording storage, the messages the run adds
  to the console and the failures it adds to the list correspond one to one, in order
  and by \<open>R\<close>, apart from the failure the run itself ends with. \<open>mirrors m m'\<close>: \<open>m\<close> on
  a storage and \<open>m'\<close> on the recording storage end alike, with the same world and the
  same console.
\<close>

definition tracked :: "(console_msg \<Rightarrow> failure \<Rightarrow> bool) \<Rightarrow> ('w \<times> failure list, 'a) async \<Rightarrow> bool" where
  "tracked R m \<longleftrightarrow>
     (\<forall>y. case m y of (r, y') \<Rightarrow>
        \<exists>logged thrown. console y' = console y @ logged \<and> snd (world y') = snd (world y) @ thrown \<and>
          (case r of
             Inr v \<Rightarrow> list_all2 R logged thrown
           | Inl e \<Rightarrow> \<exists>before. thrown = before @ [e] \<and> list_all2 R logged before))"

definition mirrors :: "('w, 'a) async \<Rightarrow> ('w \<times> failure list, 'a) async \<Rightarrow> bool" where
  "mirrors m m' \<longleftrightarrow>
     (\<forall>x y. world x = fst (world y) \<and> console x = console y \<longrightarrow>
        (case m x of (r, x') \<Rightarrow> case m' y of (r', y') \<Rightarrow>
           r = r' \<and> world x' = fst (world y') \<and> console x' = console y'))"

section \<open>OutlineView.tsx: the planning loop\<close>

definition BATCH_SIZE :: int where
  "BATCH_SIZE = 20"

text \<open>
  The component: its state, the arguments of the calls of \<open>onChaptersGenerated\<close> so far
  (\<open>committed\<close>), the progress tuples reported so far and the number of dialogs shown.
\<close>

record 'w outline_view =
  sys_ov :: "'w sys"
  isGenerating_ov :: bool
  progress :: "(int \<times> int) option"
  progressed :: "(int \<times> int) list"
  committed :: "PlannedChapter list list"
  dialogs :: nat

definition setProgress :: "int \<times> int \<Rightarrow> 'w outline_view \<Rightarrow> 'w outline_view" where
  "setProgress p v = v\<lparr>progress := Some p, progressed := progressed v @ [p]\<rparr>"

definition onChaptersGenerated :: "PlannedChapter list \<Rightarrow> 'w outline_view \<Rightarrow> 'w outline_view" where
  "onChaptersGenerated cs v = v\<lparr>committed := committed v @ [cs]\<rparr>"

text \<open>
  The \<open>while\<close> loop of \<open>handleGenerateChapters\<close>. Nothing in the source bounds the
  number of its passes, so the loop is a partial function: \<open>None\<close> is a loop that never
  ends. A result carries the failure thrown, if any, the chapters accumulated and the
  state.
\<close>

partial_function (option) planLoop ::
  "(ustring \<Rightarrow> json option) \<Rightarrow> ('w \<Rightarrow> ustring \<times> 'w) \<Rightarrow> 'w provider \<Rightarrow> NovelConfig \<Rightarrow> ustring \<Rightarrow>
   PlannedChapter list \<Rightarrow> 'w outline_view \<Rightarrow>
   (failure option \<times> PlannedChapter list \<times> 'w outline_view) option" where
  "planLoop parse uuid provider cfg localOutline allChapters v =
     (if int (length allChapters) < targetChapterCount cfg then
        (case generateChapterBatch parse uuid provider cfg localOutline (length allChapters)
                (min BATCH_SIZE (targetChapterCount cfg - int (length allChapters))) allChapters
                (sys_ov v) of
           (Inl e, s) \<Rightarrow> Some (Some e, allChapters, v\<lparr>sys_ov := s\<rparr>)
         | (Inr newBatch, s) \<Rightarrow>
             planLoop parse uuid provider cfg localOutline (allChapters @ newBatch)
               ((setProgress (int (length (allChapters @ newBatch)), targetChapterCount cfg)
                   (v\<lparr>sys_ov := s\<rparr>))
                \<lparr>sys_ov := delay 500 s\<rparr>))
      else Some (None, allChapters, v))"

definition handleGenerateChapters ::
  "(ustring \<Rightarrow> json option) \<Rightarrow> ('w \<Rightarrow> ustring \<times> 'w) \<Rightarrow> 'w provider \<Rightarrow> NovelConfig \<Rightarrow> ustring \<Rightarrow>
   'w outline_view \<Rightarrow> 'w outline_view option" where
  "handleGenerateChapters parse uuid provider cfg localOutline v =
     (case planLoop parse uuid provider cfg localOutline []
             (setProgress (0, targetChapterCount cfg) (v\<lparr>isGenerating_ov := True\<rparr>)) of
        None \<Rightarrow> None
      | Some (thrown, allChapters, v1) \<Rightarrow>
          Some ((case thrown of
                   None \<Rightarrow> onChaptersGenerated allChapters v1
                 | Some e \<Rightarrow>
                     (let v2 = v1\<lparr>sys_ov := (sys_ov v1)\<lparr>io := consoleLog (ErrorCaught e) (io (sys_ov v1))\<rparr>,
                                  dialogs := dialogs v1 + 1\<rparr>
                      in if 0 < length allChapters then onChaptersGenerated allChapters v2 else v2))
                \<lparr>isGenerating_ov := False, progress := None\<rparr>))"

section \<open>Concrete inputs for the examples\<close>

definition busy :: failure where
  "busy = \<lparr>status = Some 503, message = None\<rparr>"

definition overloadedFailure :: failure where
  "overloadedFailure =
     \<lparr>status = None, message = Some (ascii ''The model is overloaded. Please try again later.'')\<rparr>"

definition badRequest :: failure where
  "badRequest = \<lparr>status = Some 400, message = Some (ascii ''API key not valid'')\<rparr>"

text \<open>
  An operation that counts its invocations in the world: busy, then overloaded, then a
  result, and a failure that is not transient from then on.
\<close>

definition flaky :: "nat io \<Rightarrow> (failure + nat) \<times> nat io" where
  "flaky x =
     (if world x = 0 then (Inl busy, x\<lparr>world := 1\<rparr>)
      else if world x = 1 then (Inl overloadedFailure, x\<lparr>world := 2\<rparr>)
      else if world x = 2 then (Inr 42, x\<lparr>world := 3\<rparr>)
      else (Inl badRequest, x\<lparr>world := Suc (world x)\<rparr>))"

text \<open>A provider that answers every request with the same response.\<close>

definition respond :: "response \<Rightarrow> 'w provider" where
  "respond r req w = (Inr r, w)"

definition initialSys :: "unit sys" where
  "initialSys = \<lparr>io = \<lparr>world = (), console = []\<rparr>, delays = [], invocations = 0\<rparr>"

definition exampleConfig :: NovelConfig where
  "exampleConfig =
     \<lparr>title_cfg = ascii ''T'', genre = ascii ''G'', tone = ascii ''N'', protagonist = ascii ''P'',
      worldSetting = ascii ''W'', writingStyle = ascii ''S'', targetChapterCount = 25,
      targetWordCount = 3000, additionalNotes = []\<rparr>"

definition plannedChapter :: "string \<Rightarrow> Chapter" where
  "plannedChapter k =
     \<lparr>id_ch = ascii k, title = ascii ''chapter '' @ ascii k, summary = ascii ''synopsis '' @ ascii k,
      content = [], isGenerated = False\<rparr>"

text \<open>A unit whose body has been written: \<open>n\<close> letters a.\<close>

definition writtenChapter :: "string \<Rightarrow> nat \<Rightarrow> Chapter" where
  "writtenChapter k n = (plannedChapter k)\<lparr>content := replicate n 97, isGenerated := True\<rparr>"

text \<open>A save prop that has nothing to do (no directory is connected).\<close>

definition noSave :: "Chapter \<Rightarrow> nat \<Rightarrow> unit io \<Rightarrow> (failure + unit) \<times> unit io" where
  "noSave c k x = (Inr (), x)"

definition answer :: response where
  "answer = \<lparr>resp_text = Some (ascii ''text'')\<rparr>"

text \<open>A writer component in its initial state, for a given sequence and selection.\<close>

definition writerOf :: "Chapter list \<Rightarrow> ustring option \<Rightarrow> unit writer" where
  "writerOf chs active =
     \<lparr>sys_state = initialSys, chapters_prop = chs, activeChapterId = active, isGenerating = False,
      batchProgress = None, logs = [], abortBatchRef = False, reported = [], alerts = []\<rparr>"

text \<open>Five units, the first three written (501 characters each), the last two planned.\<close>

definition fiveChapters :: "Chapter list" where
  "fiveChapters =
     [writtenChapter ''1'' 501, writtenChapter ''2'' 501, writtenChapter ''3'' 501,
      plannedChapter ''4'', plannedChapter ''5'']"

text \<open>Three planned units, and the same units after a run has written the first two.\<close>

definition threeChapters :: "Chapter list" where
  "threeChapters = [plannedChapter ''1'', plannedChapter ''2'', plannedChapter ''3'']"

definition generatedChapter :: "string \<Rightarrow> Chapter" where
  "generatedChapter k = (plannedChapter k)\<lparr>content := ascii ''text'', isGenerated := True\<rparr>"

text \<open>Two units, the first with a body of exactly 500 characters.\<close>

definition boundaryChapters :: "Chapter list" where
  "boundaryChapters = [writtenChapter ''1'' 500, plannedChapter ''2'']"

text \<open>A library of one document, persisted.\<close>

definition onlyNovel :: Novel where
  "onlyNovel =
     \<lparr>id_nv = ascii ''n1'', lastModified = 0, config = exampleConfig, outline = [],
      chapters = threeChapters, currentChapterId = None, step = WRITING\<rparr>"

definition oneNovelLibrary :: app where
  "oneNovelLibrary = \<lparr>novels = [onlyNovel], activeNovelId = None, stored = Some [onlyNovel]\<rparr>"

text \<open>
  A storage whose world says whether the directory can be reached, and whose streams
  cannot be written: the disk is full.
\<close>

definition accessDenied :: failure where
  "accessDenied = \<lparr>status = None, message = Some (ascii ''The request is not allowed'')\<rparr>"

definition quotaExceeded :: failure where
  "quotaExceeded = \<lparr>status = None, message = Some (ascii ''Quota exceeded'')\<rparr>"

definition fullDisk :: "bool fsapi" where
  "fullDisk =
     \<lparr>getDirectoryHandle = (\<lambda>h name w. if w then (Inr (Suc h), w) else (Inl accessDenied, w)),
      getFileHandle = (\<lambda>h name w. (Inr (Suc h), w)),
      createWritable = (\<lambda>h w. (Inr (Suc h), w)),
      write_stream = (\<lambda>h txt w. (Inl quotaExceeded, w)),
      close_stream = (\<lambda>h w. (Inr (), w))\<rparr>"

text \<open>The document with its first and third unit written.\<close>

definition writtenNovel :: Novel where
  "writtenNovel =
     onlyNovel\<lparr>chapters := [generatedChapter ''1'', plannedChapter ''2'', generatedChapter ''3'']\<rparr>"

definition diskWriter :: "bool writer" where
  "diskWriter =
     \<lparr>sys_state = \<lparr>io = \<lparr>world = True, console = []\<rparr>, delays = [], invocations = 0\<rparr>,
      chapters_prop = threeChapters, activeChapterId = None, isGenerating = True,
      batchProgress = Some (0, 10), logs = [], abortBatchRef = False, reported = [(0, 10)],
      alerts = []\<rparr>"

text \<open>
  The planning view in its initial state, a source of identifiers that is never asked
  in the examples, and a provider whose answer to every request is the empty array.
\<close>

definition initialView :: "unit outline_view" where
  "initialView =
     \<lparr>sys_ov = initialSys, isGenerating_ov = False, progress = None, progressed = [],
      committed = [], dialogs = 0\<rparr>"

definition noUuid :: "unit \<Rightarrow> ustring \<times> unit" where
  "noUuid w = ([], w)"

definition emptyArray :: response where
  "emptyArray = \<lparr>resp_text = Some (ascii ''[]'')\<rparr>"

text \<open>
  The stop button left alone, and the stop button pressed once while the second unit of
  a run is being generated.
\<close>

definition noPress :: "nat \<Rightarrow> await_point \<Rightarrow> nat" where
  "noPress i p = 0"

definition pressInFlight :: "nat \<Rightarrow> await_point \<Rightarrow> nat" where
  "pressInFlight i p = (if i = 1 \<and> p = AwaitGenerate then 1 else 0)"

section \<open>The retry policy\<close>

declare callAIWithRetry.simps [simp del]

lemma delay_simps [simp]:
  "io (delay ms s) = io s"
  "invocations (delay ms s) = invocations s"
  "delays (delay ms s) = delays s @ [ms]"
  by (simp_all add: delay_def)

lemma invoked_simps [simp]:
  "io (invoked x s) = x"
  "invocations (invoked x s) = Suc (invocations s)"
  "delays (invoked x s) = delays s"
  by (simp_all add: invoked_def)

lemma consoleLog_simps [simp]:
  "world (consoleLog m x) = world x"
  "console (consoleLog m x) = console x @ [m]"
  by (simp_all add: consoleLog_def)

lemma callAIWithRetry_success:
  "operation (io s) = (Inr v, x) \<Longrightarrow>
   callAIWithRetry operation retries baseDelay s = (Inr v, invoked x s)"
  by (subst callAIWithRetry.simps) simp

lemma callAIWithRetry_retry:
  "operation (io s) = (Inl e, x) \<Longrightarrow> retries > 0 \<Longrightarrow> transient e \<Longrightarrow>
   callAIWithRetry operation retries baseDelay s =
     callAIWithRetry operation (retries - 1) (baseDelay * 2)
       (delay baseDelay (invoked (consoleLog (WarnRetry retries (message e)) x) s))"
  by (subst callAIWithRetry.simps) simp

lemma callAIWithRetry_propagate:
  "operation (io s) = (Inl e, x) \<Longrightarrow> \<not> (retries > 0 \<and> transient e) \<Longrightarrow>
   callAIWithRetry operation retries baseDelay s = (Inl e, invoked x s)"
  by (subst callAIWithRetry.simps) auto

text \<open>Every call of the wrapper invokes its operation at least once.\<close>

lemma callAIWithRetry_invocations:
  "invocations s < invocations (snd (callAIWithRetry operation retries baseDelay s))"
proof (induction operation retries baseDelay s rule: callAIWithRetry.induct)
  case (1 operation retries baseDelay s)
  obtain r x where op: "operation (io s) = (r, x)"
    by (cases "operation (io s)")
  show ?case
  proof (cases r)
    case (Inr v)
    with op show ?thesis by (simp add: callAIWithRetry_success)
  next
    case (Inl e)
    show ?thesis
    proof (cases "retries > 0 \<and> transient e")
      case True
      from "1.IH" [OF op [symmetric] Inl True] show ?thesis
        using op Inl True by (simp add: callAIWithRetry_retry)
    next
      case False
      with op Inl show ?thesis by (simp add: callAIWithRetry_propagate)
    qed
  qed
qed

text \<open>
  The waits of one call of the wrapper: one before each invocation but the first, the
  \<open>k\<close>-th of them (counted from 0) of length \<open>baseDelay * 2 ^ k\<close>.
\<close>

lemma callAIWithRetry_delays:
  "delays (snd (callAIWithRetry operation retries baseDelay s)) =
     delays s @ map (\<lambda>k. baseDelay * 2 ^ k)
       [0 ..< invocations (snd (callAIWithRetry operation retries baseDelay s)) - invocations s - 1]"
proof (induction operation retries baseDelay s rule: callAIWithRetry.induct)
  case (1 operation retries baseDelay s)
  obtain r x where op: "operation (io s) = (r, x)"
    by (cases "operation (io s)")
  show ?case
  proof (cases r)
    case (Inr v)
    with op show ?thesis by (simp add: callAIWithRetry_success)
  next
    case (Inl e)
    show ?thesis
    proof (cases "retries > 0 \<and> transient e")
      case True
      let ?s1 = "delay baseDelay (invoked (consoleLog (WarnRetry retries (message e)) x) s)"
      let ?res = "callAIWithRetry operation (retries - 1) (baseDelay * 2) ?s1"
      have eq: "callAIWithRetry operation retries baseDelay s = ?res"
        using op Inl True by (simp add: callAIWithRetry_retry)
      have gt: "invocations ?s1 < invocations (snd ?res)"
        by (rule callAIWithRetry_invocations)
      define n where "n = invocations (snd ?res) - invocations ?s1 - 1"
      have n: "invocations (snd ?res) - invocations s - 1 = Suc n"
        using gt by (simp add: n_def)
      have IH: "delays (snd ?res) = delays ?s1 @ map (\<lambda>k. baseDelay * 2 * 2 ^ k) [0 ..< n]"
        using "1.IH" [OF op [symmetric] Inl True] by (simp add: n_def)
      have "map (\<lambda>k. baseDelay * 2 ^ k) [0 ..< Suc n] =
            baseDelay # map (\<lambda>k. baseDelay * 2 * 2 ^ k) [0 ..< n]"
        by (simp add: upt_rec [of 0] map_Suc_upt [symmetric] del: upt_Suc)
      with IH show ?thesis unfolding eq n by simp
    next
      case False
      with op Inl show ?thesis by (simp add: callAIWithRetry_propagate)
    qed
  qed
qed

lemma transient_busy: "transient busy"
  by (simp add: transient_def busy_def)

lemma transient_overloaded: "transient overloadedFailure"
  by (simp add: transient_def overloadedFailure_def ascii_def)

lemma not_transient_badRequest: "\<not> transient badRequest"
  by (simp add: transient_def badRequest_def ascii_def)

text \<open>
  Claim C1. (1) A failure with a transient signature (status 503 or 500, or a message
  that includes "overloaded") while the budget is positive makes the wrapper wait
  \<open>baseDelay\<close> and call itself with the budget decremented and the delay doubled.
  (2) So the waits of one call are \<open>baseDelay * 2 ^ attemptsUsed\<close> for
  \<open>attemptsUsed = 0, 1, ...\<close>, one before each invocation but the first. (3) With the
  defaults (budget 3, base 2000), an operation that fails twice with a transient
  signature and then succeeds returns the success value after exactly 3 invocations and
  the waits 2000 and 4000. (4) An operation whose first failure is not transient is
  invoked exactly once, nothing is waited for, and the failure comes back unchanged.
\<close>

theorem callAIWithRetry_policy:
  "(operation (io s) = (Inl e, x) \<and> transient e \<and> 0 < retries \<longrightarrow>
      callAIWithRetry operation retries baseDelay s =
        callAIWithRetry operation (retries - 1) (baseDelay * 2)
          (delay baseDelay (invoked (consoleLog (WarnRetry retries (message e)) x) s)))
   \<and> delays (snd (callAIWithRetry operation retries baseDelay s)) =
        delays s @ map (\<lambda>attemptsUsed. baseDelay * 2 ^ attemptsUsed)
          [0 ..< invocations (snd (callAIWithRetry operation retries baseDelay s)) - invocations s - 1]
   \<and> (operation x0 = (Inl e1, x1) \<and> transient e1 \<and>
      operation (consoleLog (WarnRetry 3 (message e1)) x1) = (Inl e2, x2) \<and> transient e2 \<and>
      operation (consoleLog (WarnRetry 2 (message e2)) x2) = (Inr v, x3) \<longrightarrow>
      callAI operation \<lparr>io = x0, delays = [], invocations = 0\<rparr> =
        (Inr v, \<lparr>io = x3, delays = [2000, 4000], invocations = 3\<rparr>))
   \<and> (operation xn = (Inl en, xn') \<and> \<not> transient en \<longrightarrow>
      callAIWithRetry operation retries baseDelay \<lparr>io = xn, delays = [], invocations = 0\<rparr> =
        (Inl en, \<lparr>io = xn', delays = [], invocations = 1\<rparr>))"
proof (intro conjI impI)
  assume "operation (io s) = (Inl e, x) \<and> transient e \<and> 0 < retries"
  then show "callAIWithRetry operation retries baseDelay s =
        callAIWithRetry operation (retries - 1) (baseDelay * 2)
          (delay baseDelay (invoked (consoleLog (WarnRetry retries (message e)) x) s))"
    by (simp add: callAIWithRetry_retry)
next
  show "delays (snd (callAIWithRetry operation retries baseDelay s)) =
        delays s @ map (\<lambda>attemptsUsed. baseDelay * 2 ^ attemptsUsed)
          [0 ..< invocations (snd (callAIWithRetry operation retries baseDelay s)) - invocations s - 1]"
    by (rule callAIWithRetry_delays)
next
  assume "operation x0 = (Inl e1, x1) \<and> transient e1 \<and>
      operation (consoleLog (WarnRetry 3 (message e1)) x1) = (Inl e2, x2) \<and> transient e2 \<and>
      operation (consoleLog (WarnRetry 2 (message e2)) x2) = (Inr v, x3)"
  then show "callAI operation \<lparr>io = x0, delays = [], invocations = 0\<rparr> =
        (Inr v, \<lparr>io = x3, delays = [2000, 4000], invocations = 3\<rparr>)"
    by (simp add: callAI_def callAIWithRetry_retry callAIWithRetry_success delay_def invoked_def)
next
  assume "operation xn = (Inl en, xn') \<and> \<not> transient en"
  then show "callAIWithRetry operation retries baseDelay \<lparr>io = xn, delays = [], invocations = 0\<rparr> =
        (Inl en, \<lparr>io = xn', delays = [], invocations = 1\<rparr>)"
    by (simp add: callAIWithRetry_propagate invoked_def)
qed

theorem callAIWithRetry_policy_witness:
  "callAI flaky \<lparr>io = \<lparr>world = 0, console = []\<rparr>, delays = [], invocations = 0\<rparr> =
     (Inr 42, \<lparr>io = \<lparr>world = 3, console = [WarnRetry 3 None, WarnRetry 2 (message overloadedFailure)]\<rparr>,
               delays = [2000, 4000], invocations = 3\<rparr>)
   \<and> callAIWithRetry flaky 3 2000 \<lparr>io = \<lparr>world = 3, console = []\<rparr>, delays = [], invocations = 0\<rparr> =
     (Inl badRequest, \<lparr>io = \<lparr>world = 4, console = []\<rparr>, delays = [], invocations = 1\<rparr>)
   \<and> callAIWithRetry flaky 3 2000 \<lparr>io = \<lparr>world = 0, console = []\<rparr>, delays = [], invocations = 0\<rparr> =
     callAIWithRetry flaky 2 4000
       \<lparr>io = \<lparr>world = 1, console = [WarnRetry 3 None]\<rparr>, delays = [2000], invocations = 1\<rparr>
   \<and> transient busy \<and> transient overloadedFailure \<and> \<not> transient badRequest"
proof -
  note inst = callAIWithRetry_policy [where operation = flaky
      and s = "\<lparr>io = \<lparr>world = 0, console = []\<rparr>, delays = [], invocations = 0\<rparr>"
      and e = busy and x = "\<lparr>world = 1, console = []\<rparr>" and retries = 3 and baseDelay = 2000
      and ?x0.0 = "\<lparr>world = 0, console = []\<rparr>" and ?e1.0 = busy
      and ?x1.0 = "\<lparr>world = 1, console = []\<rparr>" and ?e2.0 = overloadedFailure
      and ?x2.0 = "\<lparr>world = 2, console = [WarnRetry 3 None]\<rparr>" and v = 42
      and ?x3.0 = "\<lparr>world = 3, console = [WarnRetry 3 None, WarnRetry 2 (message overloadedFailure)]\<rparr>"
      and xn = "\<lparr>world = 3, console = []\<rparr>" and en = badRequest
      and xn' = "\<lparr>world = 4, console = []\<rparr>"]
  have a: "callAI flaky \<lparr>io = \<lparr>world = 0, console = []\<rparr>, delays = [], invocations = 0\<rparr> =
     (Inr 42, \<lparr>io = \<lparr>world = 3, console = [WarnRetry 3 None, WarnRetry 2 (message overloadedFailure)]\<rparr>,
               delays = [2000, 4000], invocations = 3\<rparr>)"
    using inst [THEN conjunct2, THEN conjunct2, THEN conjunct1] transient_busy transient_overloaded
    by (simp add: flaky_def consoleLog_def busy_def)
  have b: "callAIWithRetry flaky 3 2000 \<lparr>io = \<lparr>world = 3, console = []\<rparr>, delays = [], invocations = 0\<rparr> =
     (Inl badRequest, \<lparr>io = \<lparr>world = 4, console = []\<rparr>, delays = [], invocations = 1\<rparr>)"
    using inst [THEN conjunct2, THEN conjunct2, THEN conjunct2] not_transient_badRequest
    by (simp add: flaky_def)
  have c: "callAIWithRetry flaky 3 2000 \<lparr>io = \<lparr>world = 0, console = []\<rparr>, delays = [], invocations = 0\<rparr> =
     callAIWithRetry flaky 2 4000
       \<lparr>io = \<lparr>world = 1, console = [WarnRetry 3 None]\<rparr>, delays = [2000], invocations = 1\<rparr>"
    using inst [THEN conjunct1] transient_busy
    by (simp add: flaky_def consoleLog_def delay_def invoked_def busy_def)
  show ?thesis
    using a b c transient_busy transient_overloaded not_transient_badRequest by simp
qed

section \<open>The generators\<close>

lemma callAIWithRetry_Inr_operation:
  "callAIWithRetry operation retries baseDelay s = (Inr v, s') \<Longrightarrow>
   \<exists>x x'. operation x = (Inr v, x')"
proof (induction operation retries baseDelay s rule: callAIWithRetry.induct)
  case (1 operation retries baseDelay s)
  obtain r x where op: "operation (io s) = (r, x)"
    by (cases "operation (io s)")
  show ?case
  proof (cases r)
    case (Inr u)
    with op "1.prems" have "u = v" by (simp add: callAIWithRetry_success)
    with op Inr show ?thesis by blast
  next
    case (Inl e)
    show ?thesis
    proof (cases "retries > 0 \<and> transient e")
      case True
      with op Inl "1.prems" "1.IH" [OF op [symmetric] Inl True] show ?thesis
        by (simp add: callAIWithRetry_retry)
    next
      case False
      with op Inl "1.prems" show ?thesis by (simp add: callAIWithRetry_propagate)
    qed
  qed
qed

lemma text_or_nonempty: "d \<noteq> [] \<Longrightarrow> text_or r d \<noteq> []"
  by (simp add: text_or_def split: option.splits)

lemma emptyContentText_nonempty: "emptyContentText \<noteq> []"
  by (simp add: emptyContentText_def)

lemma contentOperation_nonempty:
  "contentOperation provider cfg c ctx outl x = (Inr v, x') \<Longrightarrow> v \<noteq> []"
  by (auto simp: contentOperation_def text_or_nonempty emptyContentText_nonempty
      split: prod.splits sum.splits)

lemma generateChapterContent_nonempty:
  "generateChapterContent provider cfg c ctx outl s = (Inr v, s') \<Longrightarrow> v \<noteq> []"
  unfolding generateChapterContent_def callAI_def
  by (blast dest: callAIWithRetry_Inr_operation contentOperation_nonempty)

lemma formatError_not_transient: "\<not> transient formatError"
  by (simp add: transient_def formatError_def formatErrorMessage_def ascii_def)

text \<open>
  Claim C3, as amended. When the provider answers, recommend-configuration returns the
  value its cleaned text parses to, whatever that value is (a missing or empty text is
  read as the empty object \<open>{}\<close>; the required fields are not checked), or it raises
  the content-format error when the text does not parse. Either way the operation has
  been invoked once: the content-format error is not retried.
\<close>
theorem generateTrendConfig_unvalidated:
  "provider TrendPrompt (world (io s)) = (Inr r, w) \<longrightarrow>
   generateTrendConfig parse provider s =
     (case parse (cleanJson (text_or r (ascii ''{}''))) of
        Some v \<Rightarrow> (Inr v, invoked ((io s)\<lparr>world := w\<rparr>) s)
      | None \<Rightarrow>
          (Inl formatError,
           invoked (consoleLog (ErrorJsonParse (resp_text r)) ((io s)\<lparr>world := w\<rparr>)) s))"
proof
  assume p: "provider TrendPrompt (world (io s)) = (Inr r, w)"
  show "generateTrendConfig parse provider s =
     (case parse (cleanJson (text_or r (ascii ''{}''))) of
        Some v \<Rightarrow> (Inr v, invoked ((io s)\<lparr>world := w\<rparr>) s)
      | None \<Rightarrow>
          (Inl formatError,
           invoked (consoleLog (ErrorJsonParse (resp_text r)) ((io s)\<lparr>world := w\<rparr>)) s))"
  proof (cases "parse (cleanJson (text_or r (ascii ''{}'')))")
    case None
    with p have "trendOperation parse provider (io s) =
        (Inl formatError, consoleLog (ErrorJsonParse (resp_text r)) ((io s)\<lparr>world := w\<rparr>))"
      by (simp add: trendOperation_def generateContent_def)
    then show ?thesis
      using None formatError_not_transient
      by (simp add: generateTrendConfig_def callAI_def callAIWithRetry_propagate)
  next
    case (Some v)
    with p have "trendOperation parse provider (io s) = (Inr v, (io s)\<lparr>world := w\<rparr>)"
      by (simp add: trendOperation_def generateContent_def)
    then show ?thesis
      using Some by (simp add: generateTrendConfig_def callAI_def callAIWithRetry_success)
  qed
qed

lemmas cleanJson_eval = cleanJson_def ascii_def trim_def trimStart_def trimEnd_def isSpace_def
  stripFenceJson_def stripFenceStart_def stripFenceEnd_def fence_def lowerAscii_def

theorem generateTrendConfig_unvalidated_witness:
  "respond \<lparr>resp_text = None\<rparr> TrendPrompt (world (io initialSys)) = (Inr \<lparr>resp_text = None\<rparr>, ())
   \<and> generateTrendConfig parseLiteral (respond \<lparr>resp_text = None\<rparr>) initialSys =
       (Inr (JObject []), \<lparr>io = \<lparr>world = (), console = []\<rparr>, delays = [], invocations = 1\<rparr>)"
  using generateTrendConfig_unvalidated [where provider = "respond \<lparr>resp_text = None\<rparr>"
      and s = initialSys and r = "\<lparr>resp_text = None\<rparr>" and w = "()" and parse = parseLiteral]
  by (simp add: respond_def initialSys_def text_or_def parseLiteral_def invoked_def cleanJson_eval)

text \<open>
  Claim C3 as stated fails: for a response without text the result is the empty object,
  which has none of the required fields, and nothing is raised or logged.
\<close>

theorem generateTrendConfig_counterexample:
  "generateTrendConfig parseLiteral (respond \<lparr>resp_text = None\<rparr>) initialSys =
       (Inr (JObject []), \<lparr>io = \<lparr>world = (), console = []\<rparr>, delays = [], invocations = 1\<rparr>)
   \<and> \<not> satisfiesRequired (JObject [])
   \<and> \<not> (case fst (generateTrendConfig parseLiteral (respond \<lparr>resp_text = None\<rparr>) initialSys) of
          Inr v \<Rightarrow> satisfiesRequired v
        | Inl e \<Rightarrow> e = formatError)"
proof -
  have op: "trendOperation parseLiteral (respond \<lparr>resp_text = None\<rparr>) (io initialSys) =
      (Inr (JObject []), io initialSys)"
    by (simp add: trendOperation_def generateContent_def respond_def initialSys_def text_or_def
        parseLiteral_def cleanJson_eval)
  have run: "generateTrendConfig parseLiteral (respond \<lparr>resp_text = None\<rparr>) initialSys =
       (Inr (JObject []), \<lparr>io = \<lparr>world = (), console = []\<rparr>, delays = [], invocations = 1\<rparr>)"
    using op by (simp add: generateTrendConfig_def callAI_def callAIWithRetry_success
        invoked_def initialSys_def)
  have req: "\<not> satisfiesRequired (JObject [])"
    by (simp add: satisfiesRequired_def requiredFields_def)
  show ?thesis
    using run req by simp
qed




section \<open>The context window builder\<close>

lemma findIndex_first:
  "i < length xs \<Longrightarrow> p (xs ! i) \<Longrightarrow> (\<And>j. j < i \<Longrightarrow> \<not> p (xs ! j)) \<Longrightarrow> findIndex p xs = Some i"
proof (induction xs arbitrary: i)
  case Nil
  then show ?case by simp
next
  case (Cons x xs)
  show ?case
  proof (cases i)
    case 0
    with Cons.prems show ?thesis by simp
  next
    case (Suc k)
    have "\<not> p x" using Cons.prems(3) [of 0] Suc by simp
    moreover have "findIndex p xs = Some k"
    proof (rule Cons.IH)
      show "k < length xs" using Cons.prems(1) Suc by simp
      show "p (xs ! k)" using Cons.prems(2) Suc by simp
      fix j assume "j < k"
      then show "\<not> p (xs ! j)" using Cons.prems(3) [of "Suc j"] Suc by simp
    qed
    ultimately show ?thesis using Suc by simp
  qed
qed

lemma findIndex_Some:
  "findIndex p xs = Some i \<Longrightarrow> i < length xs \<and> p (xs ! i) \<and> (\<forall>j<i. \<not> p (xs ! j))"
proof (induction xs arbitrary: i)
  case Nil
  then show ?case by simp
next
  case (Cons x xs)
  show ?case
  proof (cases "p x")
    case True
    with Cons.prems show ?thesis by simp
  next
    case False
    with Cons.prems obtain k where k: "findIndex p xs = Some k" "i = Suc k"
      by auto
    from Cons.IH [OF k(1)] False k(2) show ?thesis
      by (auto simp: less_Suc_eq_0_disj)
  qed
qed

lemma findIndex_None: "findIndex p xs = None \<longleftrightarrow> (\<forall>x\<in>set xs. \<not> p x)"
  by (induction xs) auto

lemma length_slice_last: "length (slice_last n xs) = min n (length xs)"
  by (simp add: slice_last_def)

lemma slice_last_suffix: "suffix (slice_last n xs) xs"
  by (simp add: slice_last_def suffix_drop)

text \<open>
  Claim C4, as amended. Let the target unit stand at position \<open>i\<close> of the sequence (the
  first unit with its identity). At position 0 the context is the fixed "no prior
  context" marker. At a later position, when the body of the predecessor has at least
  50 characters, the context is the marker of a body tail followed by the last 3000
  characters of that body (all of it when it is shorter); when the body is empty or
  shorter than 50 characters, the context is the marker of a synopsis followed by the
  synopsis of the predecessor. The builder is a function of the sequence alone.
\<close>
theorem getContext_cases:
  "i < length allChapters \<and> id_ch (allChapters ! i) = id_ch currentChap \<and>
   (\<forall>j<i. id_ch (allChapters ! j) \<noteq> id_ch currentChap) \<longrightarrow>
     (i = 0 \<longrightarrow> getContext currentChap allChapters = noPriorContext) \<and>
     (0 < i \<and> 50 \<le> length (content (allChapters ! (i - 1))) \<longrightarrow>
        getContext currentChap allChapters =
          tailMarker @ slice_last 3000 (content (allChapters ! (i - 1))) \<and>
        suffix (slice_last 3000 (content (allChapters ! (i - 1)))) (content (allChapters ! (i - 1))) \<and>
        length (slice_last 3000 (content (allChapters ! (i - 1)))) =
          min 3000 (length (content (allChapters ! (i - 1))))) \<and>
     (0 < i \<and> length (content (allChapters ! (i - 1))) < 50 \<longrightarrow>
        getContext currentChap allChapters = summaryMarker @ summary (allChapters ! (i - 1)))"
proof
  assume a: "i < length allChapters \<and> id_ch (allChapters ! i) = id_ch currentChap \<and>
   (\<forall>j<i. id_ch (allChapters ! j) \<noteq> id_ch currentChap)"
  then have idx: "findIndex (\<lambda>c. id_ch c = id_ch currentChap) allChapters = Some i"
    by (intro findIndex_first) auto
  show "(i = 0 \<longrightarrow> getContext currentChap allChapters = noPriorContext) \<and>
     (0 < i \<and> 50 \<le> length (content (allChapters ! (i - 1))) \<longrightarrow>
        getContext currentChap allChapters =
          tailMarker @ slice_last 3000 (content (allChapters ! (i - 1))) \<and>
        suffix (slice_last 3000 (content (allChapters ! (i - 1)))) (content (allChapters ! (i - 1))) \<and>
        length (slice_last 3000 (content (allChapters ! (i - 1)))) =
          min 3000 (length (content (allChapters ! (i - 1))))) \<and>
     (0 < i \<and> length (content (allChapters ! (i - 1))) < 50 \<longrightarrow>
        getContext currentChap allChapters = summaryMarker @ summary (allChapters ! (i - 1)))"
    using idx by (auto simp: getContext_def Let_def length_slice_last slice_last_suffix)
qed


theorem getContext_cases_witness:
  "getContext (writtenChapter ''1'' 50) [writtenChapter ''1'' 50, plannedChapter ''2'', plannedChapter ''3'']
     = noPriorContext
   \<and> getContext (plannedChapter ''2'') [writtenChapter ''1'' 50, plannedChapter ''2'', plannedChapter ''3'']
     = tailMarker @ replicate 50 97
   \<and> getContext (plannedChapter ''3'') [writtenChapter ''1'' 50, plannedChapter ''2'', plannedChapter ''3'']
     = summaryMarker @ summary (plannedChapter ''2'')"
proof -
  let ?cs = "[writtenChapter ''1'' 50, plannedChapter ''2'', plannedChapter ''3'']"
  have ids: "id_ch (writtenChapter ''1'' 50) = ascii ''1''" "id_ch (plannedChapter ''2'') = ascii ''2''"
    "id_ch (plannedChapter ''3'') = ascii ''3''"
    by (simp_all add: writtenChapter_def plannedChapter_def)
  have bodies: "content (writtenChapter ''1'' 50) = replicate 50 97" "content (plannedChapter ''2'') = []"
    by (simp_all add: writtenChapter_def plannedChapter_def)
  have a: "getContext (writtenChapter ''1'' 50) ?cs = noPriorContext"
    using getContext_cases [where i = 0 and allChapters = ?cs and currentChap = "writtenChapter ''1'' 50"]
    by simp
  have b: "getContext (plannedChapter ''2'') ?cs = tailMarker @ replicate 50 97"
    using getContext_cases [where i = 1 and allChapters = ?cs and currentChap = "plannedChapter ''2''"]
    by (simp add: ids bodies ascii_def slice_last_def)
  have c: "getContext (plannedChapter ''3'') ?cs = summaryMarker @ summary (plannedChapter ''2'')"
    using getContext_cases [where i = 2 and allChapters = ?cs and currentChap = "plannedChapter ''3''"]
    by (simp add: ids bodies ascii_def numeral_2_eq_2 All_less_Suc)
  show ?thesis using a b c by simp
qed

text \<open>
  Claim C4 as stated fails: with a predecessor body of 50 characters the context is not
  the last 3000 characters of that body, but the body-tail marker followed by them.
\<close>
theorem getContext_counterexample:
  "getContext (plannedChapter ''2'') [writtenChapter ''1'' 50, plannedChapter ''2'']
     = tailMarker @ replicate 50 97
   \<and> slice_last 3000 (content (writtenChapter ''1'' 50)) = replicate 50 97
   \<and> getContext (plannedChapter ''2'') [writtenChapter ''1'' 50, plannedChapter ''2'']
     \<noteq> slice_last 3000 (content (writtenChapter ''1'' 50))"
  by (simp add: getContext_def writtenChapter_def plannedChapter_def ascii_def slice_last_def
      tailMarker_def)

section \<open>The continuation run\<close>

declare batchLoop.simps [simp del]
declare searchStart.simps [simp del]

lemma addLog_simps [simp]:
  "sys_state (addLog m w) = sys_state w"
  "chapters_prop (addLog m w) = chapters_prop w"
  "activeChapterId (addLog m w) = activeChapterId w"
  "isGenerating (addLog m w) = isGenerating w"
  "batchProgress (addLog m w) = batchProgress w"
  "abortBatchRef (addLog m w) = abortBatchRef w"
  "reported (addLog m w) = reported w"
  "alerts (addLog m w) = alerts w"
  "logs (addLog m w) = slice_last 4 (logs w) @ [m]"
  by (simp_all add: addLog_def)

lemma setBatchProgress_simps [simp]:
  "sys_state (setBatchProgress p w) = sys_state w"
  "chapters_prop (setBatchProgress p w) = chapters_prop w"
  "activeChapterId (setBatchProgress p w) = activeChapterId w"
  "isGenerating (setBatchProgress p w) = isGenerating w"
  "batchProgress (setBatchProgress p w) = Some p"
  "abortBatchRef (setBatchProgress p w) = abortBatchRef w"
  "reported (setBatchProgress p w) = reported w @ [p]"
  "alerts (setBatchProgress p w) = alerts w"
  "logs (setBatchProgress p w) = logs w"
  by (simp_all add: setBatchProgress_def)

lemma handleStopBatch_simps [simp]:
  "sys_state (handleStopBatch w) = sys_state w"
  "chapters_prop (handleStopBatch w) = chapters_prop w"
  "abortBatchRef (handleStopBatch w) = True"
  "reported (handleStopBatch w) = reported w"
  "alerts (handleStopBatch w) = alerts w"
  by (simp_all add: handleStopBatch_def)

lemma pressed_simps [simp]:
  "sys_state (pressed n w) = sys_state w"
  "chapters_prop (pressed n w) = chapters_prop w"
  "reported (pressed n w) = reported w"
  "alerts (pressed n w) = alerts w"
  "abortBatchRef (pressed n w) \<longleftrightarrow> 0 < n \<or> abortBatchRef w"
  unfolding pressed_def by (induction n) auto

lemma alert_simps [simp]:
  "sys_state (alert a w) = sys_state w"
  "chapters_prop (alert a w) = chapters_prop w"
  "abortBatchRef (alert a w) = abortBatchRef w"
  "reported (alert a w) = reported w"
  "alerts (alert a w) = alerts w @ [a]"
  "logs (alert a w) = logs w"
  by (simp_all add: alert_def)

lemma batchPass_stopped:
  "abortBatchRef w \<Longrightarrow>
   batchPass provider sav stops cfg outl P i loc w = Inl (None, loc, addLog LogUserStopped w)"
  by (simp add: batchPass_def)

lemma batchPass_last:
  "\<not> abortBatchRef w \<Longrightarrow> length loc \<le> P + i \<Longrightarrow>
   batchPass provider sav stops cfg outl P i loc w = Inl (None, loc, addLog LogLastChapter w)"
  by (simp add: batchPass_def)

text \<open>A pass that starts a unit either throws or completes the unit.\<close>

lemma batchPass_unit:
  assumes "\<not> abortBatchRef w" and "P + i < length loc"
    and sav: "\<forall>c k x. \<exists>x'. sav c k x = (Inr (), x')"
  shows "(\<exists>e loc' w'. batchPass provider sav stops cfg outl P i loc w = Inl (Some e, loc', w')) \<or>
         (\<exists>v w'. batchPass provider sav stops cfg outl P i loc w =
             Inr (loc[P + i := (loc ! (P + i))\<lparr>content := v, isGenerated := True\<rparr>], w') \<and>
           v \<noteq> [] \<and>
           chapters_prop w' = loc[P + i := (loc ! (P + i))\<lparr>content := v, isGenerated := True\<rparr>] \<and>
           reported w' = reported w @ [(Suc i, chaptersToGenCount)] \<and>
           alerts w' = alerts w \<and>
           (abortBatchRef w' \<longleftrightarrow> pressedDuring stops i))"
proof -
  let ?t = "loc ! (P + i)"
  let ?w1 = "setBatchProgress (i + 1, chaptersToGenCount)
                     (addLog (LogWriting (i + 1) chaptersToGenCount (title ?t))
                        (w\<lparr>activeChapterId := Some (id_ch ?t)\<rparr>))"
  obtain r s1 where g: "generateChapterContent provider cfg ?t (getContext ?t loc) outl (sys_state ?w1) = (r, s1)"
    by (cases "generateChapterContent provider cfg ?t (getContext ?t loc) outl (sys_state ?w1)")
  show ?thesis
  proof (cases r)
    case (Inl e)
    with g assms(1,2) show ?thesis
      by (simp add: batchPass_def Let_def)
  next
    case (Inr v)
    let ?loc' = "loc[P + i := ?t\<lparr>content := v, isGenerated := True\<rparr>]"
    from g Inr have ne: "v \<noteq> []"
      by (auto dest: generateChapterContent_nonempty)
    obtain x where s: "sav (?loc' ! (P + i)) (P + i) (io s1) = (Inr (), x)"
      using sav by blast
    from g Inr s assms(1,2) ne show ?thesis
      by (intro disjI2 exI [of _ v]) (auto simp: batchPass_def Let_def pressedDuring_def)
  qed
qed


lemma unitsWritten_none: "unitsWritten a a old old"
  by (auto simp: unitsWritten_def list_all_iff)

lemma unitsWritten_same: "unitsWritten a a old new \<Longrightarrow> new = old"
  by (rule nth_equalityI) (simp_all add: unitsWritten_def list_all_iff)

lemma unitsWritten_first:
  assumes "a < length loc" and "v \<noteq> []"
    and "unitsWritten (Suc a) b (loc[a := (loc ! a)\<lparr>content := v, isGenerated := True\<rparr>]) new"
    and "a < b"
  shows "unitsWritten a b loc new"
  using assms
  by (auto simp: unitsWritten_def list_all_iff nth_list_update split: if_splits)

lemma unitsWritten_one:
  "a < length loc \<Longrightarrow> v \<noteq> [] \<Longrightarrow>
   unitsWritten a (Suc a) loc (loc[a := (loc ! a)\<lparr>content := v, isGenerated := True\<rparr>])"
  by (rule unitsWritten_first) (auto intro: unitsWritten_none)

lemma batchLoop_finished:
  "chaptersToGenCount \<le> i \<Longrightarrow> batchLoop provider sav stops cfg outl P i loc w = (None, loc, w)"
  by (subst batchLoop.simps) simp

lemma batchLoop_pass:
  "i < chaptersToGenCount \<Longrightarrow>
   batchLoop provider sav stops cfg outl P i loc w =
     (case batchPass provider sav stops cfg outl P i loc w of
        Inl done \<Rightarrow> done
      | Inr (loc', w') \<Rightarrow> batchLoop provider sav stops cfg outl P (i + 1) loc' w')"
  by (subst batchLoop.simps) simp

text \<open>A loop that is entered with the flag set does nothing more.\<close>

lemma batchLoop_flag_set:
  assumes "abortBatchRef w" and "batchLoop provider sav stops cfg outl P i loc w = (th, loc', w')"
  shows "th = None \<and> loc' = loc \<and> chapters_prop w' = chapters_prop w \<and> reported w' = reported w \<and>
         alerts w' = alerts w \<and> abortBatchRef w'"
proof (cases "i < chaptersToGenCount")
  case True
  with assms show ?thesis
    by (auto simp: batchLoop_pass batchPass_stopped)
next
  case False
  with assms show ?thesis
    by (auto simp: batchLoop_finished)
qed

lemma batchLoop_units:
  assumes sav: "\<forall>c k x. \<exists>x'. sav c k x = (Inr (), x')"
  shows "\<not> abortBatchRef w \<Longrightarrow> i + m \<le> chaptersToGenCount \<Longrightarrow> P + i + m \<le> length loc \<Longrightarrow>
    (\<And>j. i \<le> j \<Longrightarrow> Suc j < i + m \<Longrightarrow> \<not> pressedDuring stops j) \<Longrightarrow>
    i + m = chaptersToGenCount \<or> P + i + m = length loc \<or> (0 < m \<and> pressedDuring stops (i + m - 1)) \<Longrightarrow>
    batchLoop provider sav stops cfg outl P i loc w = (None, loc', w') \<Longrightarrow>
    unitsWritten (P + i) (P + i + m) loc loc' \<and>
    reported w' = reported w @ map (\<lambda>k. (Suc k, chaptersToGenCount)) [i ..< i + m] \<and>
    alerts w' = alerts w \<and>
    (abortBatchRef w' \<longleftrightarrow> 0 < m \<and> pressedDuring stops (i + m - 1)) \<and>
    chapters_prop w' = (if m = 0 then chapters_prop w else loc')"
proof (induction m arbitrary: i loc w)
  case 0
  show ?case
  proof (cases "i < chaptersToGenCount")
    case True
    with "0.prems" have "length loc \<le> P + i" by simp
    with "0.prems" True show ?thesis
      by (auto simp: batchLoop_pass batchPass_last unitsWritten_none)
  next
    case False
    with "0.prems" show ?thesis
      by (auto simp: batchLoop_finished unitsWritten_none)
  qed
next
  case (Suc m)
  from Suc.prems have i: "i < chaptersToGenCount" and pos: "P + i < length loc"
    by simp_all
  let ?pass = "batchPass provider sav stops cfg outl P i loc w"
  from batchPass_unit [OF Suc.prems(1) pos sav, where provider = provider and stops = stops and cfg = cfg and outl = outl]
  consider (thrown) e loc1 w1 where "?pass = Inl (Some e, loc1, w1)"
    | (written) v w1 where
        "?pass = Inr (loc[P + i := (loc ! (P + i))\<lparr>content := v, isGenerated := True\<rparr>], w1)"
        "v \<noteq> []"
        "chapters_prop w1 = loc[P + i := (loc ! (P + i))\<lparr>content := v, isGenerated := True\<rparr>]"
        "reported w1 = reported w @ [(Suc i, chaptersToGenCount)]"
        "alerts w1 = alerts w"
        "abortBatchRef w1 \<longleftrightarrow> pressedDuring stops i"
    by blast
  then show ?case
  proof cases
    case thrown
    with Suc.prems(6) i show ?thesis
      by (simp add: batchLoop_pass)
  next
    case written
    let ?loc1 = "loc[P + i := (loc ! (P + i))\<lparr>content := v, isGenerated := True\<rparr>]"
    from Suc.prems(6) i written(1)
    have rest: "batchLoop provider sav stops cfg outl P (Suc i) ?loc1 w1 = (None, loc', w')"
      by (simp add: batchLoop_pass)
    show ?thesis
    proof (cases "pressedDuring stops i")
      case True
      have m0: "m = 0"
      proof (rule ccontr)
        assume "m \<noteq> 0"
        then have "\<not> pressedDuring stops i" using Suc.prems(4) [of i] by simp
        with True show False by simp
      qed
      from True written(6) have "abortBatchRef w1" by simp
      from batchLoop_flag_set [OF this rest]
      have fin: "loc' = ?loc1" "chapters_prop w' = chapters_prop w1" "reported w' = reported w1"
        "alerts w' = alerts w1" "abortBatchRef w'"
        by simp_all
      have "unitsWritten (P + i) (P + i + Suc 0) loc loc'"
        unfolding fin(1) using pos written(2) by (simp add: unitsWritten_one)
      then show ?thesis
        using fin written(3,4,5) m0 True by simp
    next
      case False
      with written(6) have flag: "\<not> abortBatchRef w1" by simp
      have IH: "unitsWritten (P + Suc i) (P + Suc i + m) ?loc1 loc' \<and>
          reported w' = reported w1 @ map (\<lambda>k. (Suc k, chaptersToGenCount)) [Suc i ..< Suc i + m] \<and>
          alerts w' = alerts w1 \<and>
          (abortBatchRef w' \<longleftrightarrow> 0 < m \<and> pressedDuring stops (Suc i + m - 1)) \<and>
          chapters_prop w' = (if m = 0 then chapters_prop w1 else loc')"
      proof (rule Suc.IH [OF flag _ _ _ _ rest])
        show "Suc i + m \<le> chaptersToGenCount" using Suc.prems(2) by simp
        show "P + Suc i + m \<le> length ?loc1" using Suc.prems(3) by simp
        show "\<not> pressedDuring stops j" if "Suc i \<le> j" "Suc j < Suc i + m" for j
          using Suc.prems(4) [of j] that by simp
        show "Suc i + m = chaptersToGenCount \<or> P + Suc i + m = length ?loc1 \<or>
              (0 < m \<and> pressedDuring stops (Suc i + m - 1))"
          using Suc.prems(5) False by (cases m) auto
      qed
      have units: "unitsWritten (P + i) (P + i + Suc m) loc loc'"
      proof (rule unitsWritten_first [where v = v])
        show "P + i < length loc" by (rule pos)
        show "v \<noteq> []" by (rule written(2))
        show "unitsWritten (Suc (P + i)) (P + i + Suc m) ?loc1 loc'"
          using IH by simp
        show "P + i < P + i + Suc m" by simp
      qed
      have m0: "m = 0 \<Longrightarrow> loc' = ?loc1"
        using IH by (auto dest: unitsWritten_same)
      have rep: "map (\<lambda>k. (Suc k, chaptersToGenCount)) [i ..< i + Suc m] =
            (Suc i, chaptersToGenCount) # map (\<lambda>k. (Suc k, chaptersToGenCount)) [Suc i ..< Suc i + m]"
        by (subst upt_conv_Cons) simp_all
      have reps: "reported w' =
          reported w @ map (\<lambda>k. (Suc k, chaptersToGenCount)) [i ..< i + Suc m]"
        unfolding rep using IH written(4) by simp
      have flags: "abortBatchRef w' \<longleftrightarrow> 0 < Suc m \<and> pressedDuring stops (i + Suc m - 1)"
        using IH False by (cases m) simp_all
      have props: "chapters_prop w' = loc'"
        using IH m0 written(3) by (cases "m = 0") simp_all
      show ?thesis
        using units reps flags props IH written(5) by simp
    qed
  qed
qed

lemma batchPass_alerts:
  "batchPass provider sav stops cfg outl P i loc w = Inl (th, loc', w') \<Longrightarrow> alerts w' = alerts w"
  "batchPass provider sav stops cfg outl P i loc w = Inr (loc', w') \<Longrightarrow> alerts w' = alerts w"
  by (auto simp: batchPass_def Let_def split: if_splits prod.splits sum.splits)

lemma batchLoop_alerts:
  "batchLoop provider sav stops cfg outl P i loc w = (th, loc', w') \<Longrightarrow> alerts w' = alerts w"
proof (induction provider sav stops cfg outl P i loc w rule: batchLoop.induct)
  case (1 provider sav stops cfg outl P i loc w)
  show ?case
  proof (cases "i < chaptersToGenCount")
    case False
    with "1.prems" show ?thesis by (simp add: batchLoop_finished)
  next
    case True
    show ?thesis
    proof (cases "batchPass provider sav stops cfg outl P i loc w")
      case (Inl d)
      with True "1.prems" show ?thesis
        by (auto simp: batchLoop_pass dest: batchPass_alerts(1))
    next
      case (Inr n)
      obtain loc1 w1 where n: "n = (loc1, w1)" by (cases n)
      from "1.IH" [OF True Inr n [symmetric]] "1.prems" True Inr n
      have "alerts w' = alerts w1" by (simp add: batchLoop_pass)
      with batchPass_alerts(2) [of provider sav stops cfg outl P i loc w loc1 w1] Inr n
      show ?thesis by simp
    qed
  qed
qed

text \<open>
  The handler, for a run that showed no dialog (so nothing was thrown) and completed
  \<open>m\<close> units: by reaching the run length, the end of the sequence, or a press of the
  stop button during the pass of the \<open>m\<close>-th unit.
\<close>

lemma handleBatchGenerate_run:
  assumes sav: "\<forall>c k x. \<exists>x'. sav c k x = (Inr (), x')"
    and idle: "\<not> isGenerating w"
    and start: "batchStart (chapters_prop w) (activeChapterId w) = P"
    and inside: "P < length (chapters_prop w)"
    and m: "m \<le> chaptersToGenCount" "P + m \<le> length (chapters_prop w)"
    and quiet: "\<forall>j. Suc j < m \<longrightarrow> \<not> pressedDuring stops j"
    and ending: "m = chaptersToGenCount \<or> P + m = length (chapters_prop w) \<or> (0 < m \<and> pressedDuring stops (m - 1))"
    and nofail: "alerts (handleBatchGenerate provider sav stops cfg outl w) = alerts w"
  shows "unitsWritten P (P + m) (chapters_prop w)
           (chapters_prop (handleBatchGenerate provider sav stops cfg outl w)) \<and>
         reported (handleBatchGenerate provider sav stops cfg outl w) =
           reported w @ (0, chaptersToGenCount) # map (\<lambda>k. (Suc k, chaptersToGenCount)) [0 ..< m] \<and>
         \<not> isGenerating (handleBatchGenerate provider sav stops cfg outl w) \<and>
         batchProgress (handleBatchGenerate provider sav stops cfg outl w) = None \<and>
         \<not> abortBatchRef (handleBatchGenerate provider sav stops cfg outl w) \<and>
         (\<not> (0 < m \<and> pressedDuring stops (m - 1)) \<longrightarrow>
            last (logs (handleBatchGenerate provider sav stops cfg outl w)) = LogBatchComplete)"
proof -
  let ?chs = "chapters_prop w"
  let ?w1 = "addLog (LogBatchStart (P + 1))
               (setBatchProgress (0, chaptersToGenCount) (w\<lparr>abortBatchRef := False, isGenerating := True\<rparr>))"
  obtain th loc' w2 where loop: "batchLoop provider sav stops cfg outl P 0 ?chs ?w1 = (th, loc', w2)"
    by (cases "batchLoop provider sav stops cfg outl P 0 ?chs ?w1")
  from inside have ne: "?chs \<noteq> []" by auto
  have al: "alerts w2 = alerts w"
    using batchLoop_alerts [OF loop] by simp
  show ?thesis
  proof (cases th)
    case (Some e)
    have "alerts (handleBatchGenerate provider sav stops cfg outl w) = alerts w @ [AlertInterrupted]"
      using idle ne start inside loop Some al
      by (simp add: handleBatchGenerate_def Let_def)
    with nofail show ?thesis by simp
  next
    case None
    have pos: "0 < m"
      using ending inside by (auto simp: chaptersToGenCount_def)
    have facts: "unitsWritten (P + 0) (P + 0 + m) ?chs loc' \<and>
        reported w2 = reported ?w1 @ map (\<lambda>k. (Suc k, chaptersToGenCount)) [0 ..< 0 + m] \<and>
        alerts w2 = alerts ?w1 \<and>
        (abortBatchRef w2 \<longleftrightarrow> 0 < m \<and> pressedDuring stops (0 + m - 1)) \<and>
        chapters_prop w2 = (if m = 0 then chapters_prop ?w1 else loc')"
    proof (rule batchLoop_units [OF sav])
      show "\<not> abortBatchRef ?w1" by simp
      show "0 + m \<le> chaptersToGenCount" using m by simp
      show "P + 0 + m \<le> length ?chs" using m by simp
      show "\<not> pressedDuring stops j" if "0 \<le> j" "Suc j < 0 + m" for j using quiet that by simp
      show "0 + m = chaptersToGenCount \<or> P + 0 + m = length ?chs \<or> (0 < m \<and> pressedDuring stops (0 + m - 1))"
        using ending by simp
      show "batchLoop provider sav stops cfg outl P 0 ?chs ?w1 = (None, loc', w2)"
        using loop None by simp
    qed
    have res: "handleBatchGenerate provider sav stops cfg outl w =
        (if abortBatchRef w2 then w2 else addLog LogBatchComplete w2)
          \<lparr>isGenerating := False, batchProgress := None, abortBatchRef := False\<rparr>"
      using idle ne start inside loop None
      by (simp add: handleBatchGenerate_def Let_def)
    show ?thesis
      unfolding res using facts pos by simp
  qed
qed

lemma unitsWritten_nth:
  "unitsWritten a b old new \<Longrightarrow> j < length old \<Longrightarrow>
   (if a \<le> j \<and> j < b
    then isGenerated (new ! j) \<and> content (new ! j) \<noteq> [] \<and> id_ch (new ! j) = id_ch (old ! j) \<and>
         title (new ! j) = title (old ! j) \<and> summary (new ! j) = summary (old ! j)
    else new ! j = old ! j)"
  by (simp add: unitsWritten_def list_all_iff)

lemma unitsWritten_length: "unitsWritten a b old new \<Longrightarrow> length new = length old"
  by (simp add: unitsWritten_def)

text \<open>
  Claim C5. A continuation run has the run length \<open>chaptersToGenCount\<close> and starts at
  position \<open>P\<close>. Suppose the save prop never throws, the stop button is not pressed,
  and the run ends without a dialog, which is to say that every generation call it made
  succeeded. Then the sequence the run publishes has the length of the old one; every
  unit at a position from \<open>P\<close> to \<open>P + chaptersToGenCount - 1\<close> that exists carries
  the generated-flag and a body that is not empty (and keeps its identity); and every
  unit outside that range is the unit it was.
\<close>
theorem handleBatchGenerate_frame:
  "(\<forall>c k x. \<exists>x'. saveChapterData c k x = (Inr (), x')) \<and>
   \<not> isGenerating w \<and>
   batchStart (chapters_prop w) (activeChapterId w) = P \<and> P < length (chapters_prop w) \<and>
   (\<forall>i<chaptersToGenCount. \<not> pressedDuring stops i) \<and>
   alerts (handleBatchGenerate provider saveChapterData stops cfg outl w) = alerts w \<longrightarrow>
   length (chapters_prop (handleBatchGenerate provider saveChapterData stops cfg outl w)) =
     length (chapters_prop w) \<and>
   (\<forall>j<length (chapters_prop w).
      (P \<le> j \<and> j < P + chaptersToGenCount \<longrightarrow>
         isGenerated (chapters_prop (handleBatchGenerate provider saveChapterData stops cfg outl w) ! j) \<and>
         content (chapters_prop (handleBatchGenerate provider saveChapterData stops cfg outl w) ! j) \<noteq> [] \<and>
         id_ch (chapters_prop (handleBatchGenerate provider saveChapterData stops cfg outl w) ! j) =
           id_ch (chapters_prop w ! j)) \<and>
      (j < P \<or> P + chaptersToGenCount \<le> j \<longrightarrow>
         chapters_prop (handleBatchGenerate provider saveChapterData stops cfg outl w) ! j =
           chapters_prop w ! j))"
proof (intro impI)
  let ?w' = "handleBatchGenerate provider saveChapterData stops cfg outl w"
  let ?n = "length (chapters_prop w)"
  assume a: "(\<forall>c k x. \<exists>x'. saveChapterData c k x = (Inr (), x')) \<and>
   \<not> isGenerating w \<and>
   batchStart (chapters_prop w) (activeChapterId w) = P \<and> P < ?n \<and>
   (\<forall>i<chaptersToGenCount. \<not> pressedDuring stops i) \<and>
   alerts ?w' = alerts w"
  then have sav: "\<forall>c k x. \<exists>x'. saveChapterData c k x = (Inr (), x')"
    and idle: "\<not> isGenerating w"
    and start: "batchStart (chapters_prop w) (activeChapterId w) = P"
    and inside: "P < ?n"
    and quiet: "\<forall>i<chaptersToGenCount. \<not> pressedDuring stops i"
    and nofail: "alerts ?w' = alerts w"
    by blast+
  define m where "m = min chaptersToGenCount (?n - P)"
  have run: "unitsWritten P (P + m) (chapters_prop w) (chapters_prop ?w')"
  proof (rule handleBatchGenerate_run [THEN conjunct1, OF sav idle start inside _ _ _ _ nofail])
    show "m \<le> chaptersToGenCount" by (simp add: m_def)
    show "P + m \<le> ?n" using inside by (simp add: m_def)
    show "\<forall>j. Suc j < m \<longrightarrow> \<not> pressedDuring stops j" using quiet by (simp add: m_def)
    show "m = chaptersToGenCount \<or> P + m = ?n \<or> (0 < m \<and> pressedDuring stops (m - 1))"
      using inside by (auto simp: m_def min_def)
  qed
  have eq: "P \<le> j \<and> j < P + chaptersToGenCount \<longleftrightarrow> P \<le> j \<and> j < P + m" if "j < ?n" for j
    using that by (auto simp: m_def)
  show "length (chapters_prop ?w') = ?n \<and>
   (\<forall>j<?n.
      (P \<le> j \<and> j < P + chaptersToGenCount \<longrightarrow>
         isGenerated (chapters_prop ?w' ! j) \<and> content (chapters_prop ?w' ! j) \<noteq> [] \<and>
         id_ch (chapters_prop ?w' ! j) = id_ch (chapters_prop w ! j)) \<and>
      (j < P \<or> P + chaptersToGenCount \<le> j \<longrightarrow> chapters_prop ?w' ! j = chapters_prop w ! j))"
  proof (intro conjI allI impI)
    show "length (chapters_prop ?w') = ?n"
      using run by (rule unitsWritten_length)
  next
    fix j assume j: "j < ?n" and r: "P \<le> j \<and> j < P + chaptersToGenCount"
    from unitsWritten_nth [OF run j] eq [OF j] r
    show "isGenerated (chapters_prop ?w' ! j)" "content (chapters_prop ?w' ! j) \<noteq> []"
      "id_ch (chapters_prop ?w' ! j) = id_ch (chapters_prop w ! j)"
      by simp_all
  next
    fix j assume j: "j < ?n" and r: "j < P \<or> P + chaptersToGenCount \<le> j"
    then have "\<not> (P \<le> j \<and> j < P + m)"
      by (auto simp: m_def)
    with unitsWritten_nth [OF run j]
    show "chapters_prop ?w' ! j = chapters_prop w ! j"
      by simp
  qed
qed


lemma content_respond:
  "generateChapterContent (respond answer) cfg c ctx outl s =
     (Inr (ascii ''text''), invoked (io s) s)"
  by (simp add: generateChapterContent_def callAI_def contentOperation_def generateContent_def
      respond_def answer_def text_or_def ascii_def callAIWithRetry_success)

lemma noPress_quiet: "\<not> pressedDuring noPress i"
  by (simp add: pressedDuring_def noPress_def)

lemma pressInFlight_second:
  "pressedDuring pressInFlight 1" "\<not> pressedDuring pressInFlight 0"
  by (simp_all add: pressedDuring_def pressInFlight_def)

lemma noSave_ok: "\<forall>c k x. \<exists>x'. noSave c k x = (Inr (), x')"
  by (simp add: noSave_def)

lemmas run_eval = chaptersToGenCount_def batchLoop.simps batchPass_def content_respond noSave_def
  Let_def generatedChapter_def pressed_def noPress_def pressInFlight_def

lemma batchStart_three: "batchStart threeChapters (Some (ascii ''1'')) = 0"
  by (simp add: batchStart_def selectedIndex_def threeChapters_def plannedChapter_def ascii_def
      searchStart.simps)

lemma run_three:
  "alerts (handleBatchGenerate (respond answer) noSave noPress exampleConfig []
     (writerOf threeChapters (Some (ascii ''1'')))) = [] \<and>
   chapters_prop (handleBatchGenerate (respond answer) noSave noPress exampleConfig []
     (writerOf threeChapters (Some (ascii ''1'')))) =
     [generatedChapter ''1'', generatedChapter ''2'', generatedChapter ''3'']"
  unfolding handleBatchGenerate_def
  by (simp add: writerOf_def batchStart_three) (simp add: threeChapters_def run_eval)

theorem handleBatchGenerate_frame_witness:
  "batchStart threeChapters (Some (ascii ''1'')) = 0 \<and>
   alerts (handleBatchGenerate (respond answer) noSave noPress exampleConfig []
     (writerOf threeChapters (Some (ascii ''1'')))) = [] \<and>
   chapters_prop (handleBatchGenerate (respond answer) noSave noPress exampleConfig []
     (writerOf threeChapters (Some (ascii ''1'')))) =
     [generatedChapter ''1'', generatedChapter ''2'', generatedChapter ''3''] \<and>
   isGenerated (chapters_prop (handleBatchGenerate (respond answer) noSave noPress exampleConfig []
     (writerOf threeChapters (Some (ascii ''1'')))) ! 2) \<and>
   content (chapters_prop (handleBatchGenerate (respond answer) noSave noPress exampleConfig []
     (writerOf threeChapters (Some (ascii ''1'')))) ! 2) \<noteq> []"
proof -
  let ?w = "writerOf threeChapters (Some (ascii ''1''))"
  let ?w' = "handleBatchGenerate (respond answer) noSave noPress exampleConfig [] ?w"
  have pre: "(\<forall>c k x. \<exists>x'. noSave c k x = (Inr (), x')) \<and>
     \<not> isGenerating ?w \<and>
     batchStart (chapters_prop ?w) (activeChapterId ?w) = 0 \<and> 0 < length (chapters_prop ?w) \<and>
     (\<forall>i<chaptersToGenCount. \<not> pressedDuring noPress i) \<and>
     alerts ?w' = alerts ?w"
    using noSave_ok batchStart_three run_three noPress_quiet
    by (simp add: writerOf_def threeChapters_def)
  from handleBatchGenerate_frame [where saveChapterData = noSave and w = ?w and P = 0
      and stops = noPress and provider = "respond answer" and cfg = exampleConfig and outl = "[]",
      THEN mp, OF pre]
  have "\<forall>j<length (chapters_prop ?w).
      (0 \<le> j \<and> j < 0 + chaptersToGenCount \<longrightarrow>
         isGenerated (chapters_prop ?w' ! j) \<and> content (chapters_prop ?w' ! j) \<noteq> [] \<and>
         id_ch (chapters_prop ?w' ! j) = id_ch (chapters_prop ?w ! j)) \<and>
      (j < 0 \<or> 0 + chaptersToGenCount \<le> j \<longrightarrow> chapters_prop ?w' ! j = chapters_prop ?w ! j)"
    by (rule conjunct2)
  then have "isGenerated (chapters_prop ?w' ! 2) \<and> content (chapters_prop ?w' ! 2) \<noteq> []"
    by (simp add: writerOf_def threeChapters_def chaptersToGenCount_def)
  with batchStart_three run_three show ?thesis
    by simp
qed

lemma last_reported:
  "0 < K \<Longrightarrow> last (xs @ p # map (\<lambda>k. (Suc k, n)) [0 ..< K]) = (K, n)"
  by (cases K) simp_all

text \<open>The run in which the button is first pressed during the pass of its \<open>K\<close>-th unit.\<close>

lemma handleBatchGenerate_cancel_run:
  "(\<forall>c k x. \<exists>x'. saveChapterData c k x = (Inr (), x')) \<and>
   \<not> isGenerating w \<and>
   batchStart (chapters_prop w) (activeChapterId w) = P \<and>
   0 < K \<and> K \<le> chaptersToGenCount \<and> P + K \<le> length (chapters_prop w) \<and>
   pressedDuring stops (K - 1) \<and> (\<forall>i. Suc i < K \<longrightarrow> \<not> pressedDuring stops i) \<and>
   alerts (handleBatchGenerate provider saveChapterData stops cfg outl w) = alerts w \<longrightarrow>
   length (chapters_prop (handleBatchGenerate provider saveChapterData stops cfg outl w)) =
     length (chapters_prop w) \<and>
   (\<forall>j<length (chapters_prop w).
      (P \<le> j \<and> j < P + K \<longrightarrow>
         isGenerated (chapters_prop (handleBatchGenerate provider saveChapterData stops cfg outl w) ! j) \<and>
         content (chapters_prop (handleBatchGenerate provider saveChapterData stops cfg outl w) ! j) \<noteq> [] \<and>
         id_ch (chapters_prop (handleBatchGenerate provider saveChapterData stops cfg outl w) ! j) =
           id_ch (chapters_prop w ! j)) \<and>
      (j < P \<or> P + K \<le> j \<longrightarrow>
         chapters_prop (handleBatchGenerate provider saveChapterData stops cfg outl w) ! j =
           chapters_prop w ! j)) \<and>
   reported (handleBatchGenerate provider saveChapterData stops cfg outl w) =
     reported w @ (0, chaptersToGenCount) # map (\<lambda>k. (Suc k, chaptersToGenCount)) [0 ..< K] \<and>
   last (reported (handleBatchGenerate provider saveChapterData stops cfg outl w)) =
     (K, chaptersToGenCount) \<and>
   \<not> isGenerating (handleBatchGenerate provider saveChapterData stops cfg outl w) \<and>
   \<not> abortBatchRef (handleBatchGenerate provider saveChapterData stops cfg outl w)"
proof (intro impI)
  let ?w' = "handleBatchGenerate provider saveChapterData stops cfg outl w"
  let ?n = "length (chapters_prop w)"
  assume "(\<forall>c k x. \<exists>x'. saveChapterData c k x = (Inr (), x')) \<and>
   \<not> isGenerating w \<and>
   batchStart (chapters_prop w) (activeChapterId w) = P \<and>
   0 < K \<and> K \<le> chaptersToGenCount \<and> P + K \<le> ?n \<and>
   pressedDuring stops (K - 1) \<and> (\<forall>i. Suc i < K \<longrightarrow> \<not> pressedDuring stops i) \<and>
   alerts ?w' = alerts w"
  then have sav: "\<forall>c k x. \<exists>x'. saveChapterData c k x = (Inr (), x')"
    and idle: "\<not> isGenerating w"
    and start: "batchStart (chapters_prop w) (activeChapterId w) = P"
    and K: "0 < K" "K \<le> chaptersToGenCount" "P + K \<le> ?n"
    and pressedK: "pressedDuring stops (K - 1)"
    and quiet: "\<forall>i. Suc i < K \<longrightarrow> \<not> pressedDuring stops i"
    and nofail: "alerts ?w' = alerts w"
    by blast+
  have inside: "P < ?n" using K by simp
  have ending: "K = chaptersToGenCount \<or> P + K = ?n \<or> (0 < K \<and> pressedDuring stops (K - 1))"
    using K pressedK by simp
  note run = handleBatchGenerate_run [OF sav idle start inside K(2,3) quiet ending nofail]
  from run have units: "unitsWritten P (P + K) (chapters_prop w) (chapters_prop ?w')"
    and rep: "reported ?w' =
      reported w @ (0, chaptersToGenCount) # map (\<lambda>k. (Suc k, chaptersToGenCount)) [0 ..< K]"
    and rest: "\<not> isGenerating ?w'" "\<not> abortBatchRef ?w'"
    by blast+
  have frame: "\<forall>j<?n.
      (P \<le> j \<and> j < P + K \<longrightarrow>
         isGenerated (chapters_prop ?w' ! j) \<and> content (chapters_prop ?w' ! j) \<noteq> [] \<and>
         id_ch (chapters_prop ?w' ! j) = id_ch (chapters_prop w ! j)) \<and>
      (j < P \<or> P + K \<le> j \<longrightarrow> chapters_prop ?w' ! j = chapters_prop w ! j)"
  proof (intro allI impI)
    fix j assume "j < ?n"
    from unitsWritten_nth [OF units this]
    show "(P \<le> j \<and> j < P + K \<longrightarrow>
         isGenerated (chapters_prop ?w' ! j) \<and> content (chapters_prop ?w' ! j) \<noteq> [] \<and>
         id_ch (chapters_prop ?w' ! j) = id_ch (chapters_prop w ! j)) \<and>
      (j < P \<or> P + K \<le> j \<longrightarrow> chapters_prop ?w' ! j = chapters_prop w ! j)"
      by (auto split: if_splits)
  qed
  have lastrep: "last (reported ?w') = (K, chaptersToGenCount)"
    unfolding rep using K(1) by (rule last_reported)
  show "length (chapters_prop ?w') = ?n \<and>
   (\<forall>j<?n.
      (P \<le> j \<and> j < P + K \<longrightarrow>
         isGenerated (chapters_prop ?w' ! j) \<and> content (chapters_prop ?w' ! j) \<noteq> [] \<and>
         id_ch (chapters_prop ?w' ! j) = id_ch (chapters_prop w ! j)) \<and>
      (j < P \<or> P + K \<le> j \<longrightarrow> chapters_prop ?w' ! j = chapters_prop w ! j)) \<and>
   reported ?w' =
     reported w @ (0, chaptersToGenCount) # map (\<lambda>k. (Suc k, chaptersToGenCount)) [0 ..< K] \<and>
   last (reported ?w') = (K, chaptersToGenCount) \<and>
   \<not> isGenerating ?w' \<and> \<not> abortBatchRef ?w'"
    using unitsWritten_length [OF units] frame rep lastrep rest by blast
qed


text \<open>
  Claim C6. The stop button sets the flag at the moment it is pressed, also while a
  unit is in flight; the loop reads the flag only at the top of a pass. (1) A pass that
  has started a unit whose generation call succeeds (the save prop never throws) writes
  and publishes the unit and goes on to the top of the next pass, whether or not the
  button was pressed during the pass, and leaves the flag set exactly if it was pressed. (2) A pass that finds the flag
  set starts nothing and ends the loop without a failure. (3) So, when the button is
  first pressed during the pass of the \<open>K\<close>-th unit of the run, at any of its three
  suspension points (all \<open>K\<close> units exist, the save prop never throws, and the run ends
  without a dialog), exactly the \<open>K\<close> units from position \<open>P\<close> on are written, with the
  generated-flag and a body that is not empty, and every other unit is the unit it was;
  the progress stream of the run is \<open>(0, total), (1, total), ..., (K, total)\<close>, so the
  count it last reported is \<open>K\<close>; and the component is idle again with the flag cleared.
\<close>

theorem handleBatchGenerate_cancel:
  "((\<forall>c k x. \<exists>x'. saveChapterData c k x = (Inr (), x')) \<and>
    \<not> abortBatchRef wp \<and> Pp + ip < length locp \<and>
    generateChapterContent provider cfg (locp ! (Pp + ip)) (getContext (locp ! (Pp + ip)) locp) outl
      (sys_state wp) = (Inr v, s1) \<longrightarrow>
      (\<exists>w'. batchPass provider saveChapterData stops cfg outl Pp ip locp wp =
           Inr (locp[Pp + ip := (locp ! (Pp + ip))\<lparr>content := v, isGenerated := True\<rparr>], w') \<and>
         chapters_prop w' = locp[Pp + ip := (locp ! (Pp + ip))\<lparr>content := v, isGenerated := True\<rparr>] \<and>
         (abortBatchRef w' \<longleftrightarrow> pressedDuring stops ip))) \<and>
   (abortBatchRef wq \<and> iq < chaptersToGenCount \<longrightarrow>
      batchLoop provider saveChapterData stops cfg outl Pq iq locq wq =
        (None, locq, addLog LogUserStopped wq)) \<and>
   ((\<forall>c k x. \<exists>x'. saveChapterData c k x = (Inr (), x')) \<and>
   \<not> isGenerating w \<and>
   batchStart (chapters_prop w) (activeChapterId w) = P \<and>
   0 < K \<and> K \<le> chaptersToGenCount \<and> P + K \<le> length (chapters_prop w) \<and>
   pressedDuring stops (K - 1) \<and> (\<forall>i. Suc i < K \<longrightarrow> \<not> pressedDuring stops i) \<and>
   alerts (handleBatchGenerate provider saveChapterData stops cfg outl w) = alerts w \<longrightarrow>
   length (chapters_prop (handleBatchGenerate provider saveChapterData stops cfg outl w)) =
     length (chapters_prop w) \<and>
   (\<forall>j<length (chapters_prop w).
      (P \<le> j \<and> j < P + K \<longrightarrow>
         isGenerated (chapters_prop (handleBatchGenerate provider saveChapterData stops cfg outl w) ! j) \<and>
         content (chapters_prop (handleBatchGenerate provider saveChapterData stops cfg outl w) ! j) \<noteq> [] \<and>
         id_ch (chapters_prop (handleBatchGenerate provider saveChapterData stops cfg outl w) ! j) =
           id_ch (chapters_prop w ! j)) \<and>
      (j < P \<or> P + K \<le> j \<longrightarrow>
         chapters_prop (handleBatchGenerate provider saveChapterData stops cfg outl w) ! j =
           chapters_prop w ! j)) \<and>
   reported (handleBatchGenerate provider saveChapterData stops cfg outl w) =
     reported w @ (0, chaptersToGenCount) # map (\<lambda>k. (Suc k, chaptersToGenCount)) [0 ..< K] \<and>
   last (reported (handleBatchGenerate provider saveChapterData stops cfg outl w)) =
     (K, chaptersToGenCount) \<and>
   \<not> isGenerating (handleBatchGenerate provider saveChapterData stops cfg outl w) \<and>
   \<not> abortBatchRef (handleBatchGenerate provider saveChapterData stops cfg outl w))"
proof (intro conjI)
  show "(\<forall>c k x. \<exists>x'. saveChapterData c k x = (Inr (), x')) \<and>
    \<not> abortBatchRef wp \<and> Pp + ip < length locp \<and>
    generateChapterContent provider cfg (locp ! (Pp + ip)) (getContext (locp ! (Pp + ip)) locp) outl
      (sys_state wp) = (Inr v, s1) \<longrightarrow>
      (\<exists>w'. batchPass provider saveChapterData stops cfg outl Pp ip locp wp =
           Inr (locp[Pp + ip := (locp ! (Pp + ip))\<lparr>content := v, isGenerated := True\<rparr>], w') \<and>
         chapters_prop w' = locp[Pp + ip := (locp ! (Pp + ip))\<lparr>content := v, isGenerated := True\<rparr>] \<and>
         (abortBatchRef w' \<longleftrightarrow> pressedDuring stops ip))"
  proof (intro impI)
    assume a: "(\<forall>c k x. \<exists>x'. saveChapterData c k x = (Inr (), x')) \<and>
      \<not> abortBatchRef wp \<and> Pp + ip < length locp \<and>
      generateChapterContent provider cfg (locp ! (Pp + ip)) (getContext (locp ! (Pp + ip)) locp) outl
        (sys_state wp) = (Inr v, s1)"
    let ?loc' = "locp[Pp + ip := (locp ! (Pp + ip))\<lparr>content := v, isGenerated := True\<rparr>]"
    obtain x' where s: "saveChapterData (?loc' ! (Pp + ip)) (Pp + ip) (io s1) = (Inr (), x')"
      using a by blast
    from a s show "\<exists>w'. batchPass provider saveChapterData stops cfg outl Pp ip locp wp = Inr (?loc', w') \<and>
         chapters_prop w' = ?loc' \<and> (abortBatchRef w' \<longleftrightarrow> pressedDuring stops ip)"
      by (auto simp: batchPass_def Let_def pressedDuring_def)
  qed
next
  show "abortBatchRef wq \<and> iq < chaptersToGenCount \<longrightarrow>
      batchLoop provider saveChapterData stops cfg outl Pq iq locq wq =
        (None, locq, addLog LogUserStopped wq)"
    by (simp add: batchLoop_pass batchPass_stopped)
next
  show "(\<forall>c k x. \<exists>x'. saveChapterData c k x = (Inr (), x')) \<and>
   \<not> isGenerating w \<and>
   batchStart (chapters_prop w) (activeChapterId w) = P \<and>
   0 < K \<and> K \<le> chaptersToGenCount \<and> P + K \<le> length (chapters_prop w) \<and>
   pressedDuring stops (K - 1) \<and> (\<forall>i. Suc i < K \<longrightarrow> \<not> pressedDuring stops i) \<and>
   alerts (handleBatchGenerate provider saveChapterData stops cfg outl w) = alerts w \<longrightarrow>
   length (chapters_prop (handleBatchGenerate provider saveChapterData stops cfg outl w)) =
     length (chapters_prop w) \<and>
   (\<forall>j<length (chapters_prop w).
      (P \<le> j \<and> j < P + K \<longrightarrow>
         isGenerated (chapters_prop (handleBatchGenerate provider saveChapterData stops cfg outl w) ! j) \<and>
         content (chapters_prop (handleBatchGenerate provider saveChapterData stops cfg outl w) ! j) \<noteq> [] \<and>
         id_ch (chapters_prop (handleBatchGenerate provider saveChapterData stops cfg outl w) ! j) =
           id_ch (chapters_prop w ! j)) \<and>
      (j < P \<or> P + K \<le> j \<longrightarrow>
         chapters_prop (handleBatchGenerate provider saveChapterData stops cfg outl w) ! j =
           chapters_prop w ! j)) \<and>
   reported (handleBatchGenerate provider saveChapterData stops cfg outl w) =
     reported w @ (0, chaptersToGenCount) # map (\<lambda>k. (Suc k, chaptersToGenCount)) [0 ..< K] \<and>
   last (reported (handleBatchGenerate provider saveChapterData stops cfg outl w)) =
     (K, chaptersToGenCount) \<and>
   \<not> isGenerating (handleBatchGenerate provider saveChapterData stops cfg outl w) \<and>
   \<not> abortBatchRef (handleBatchGenerate provider saveChapterData stops cfg outl w)"
    by (rule handleBatchGenerate_cancel_run)
qed

lemma run_three_cancel:
  "alerts (handleBatchGenerate (respond answer) noSave pressInFlight exampleConfig []
     (writerOf threeChapters (Some (ascii ''1'')))) = [] \<and>
   chapters_prop (handleBatchGenerate (respond answer) noSave pressInFlight exampleConfig []
     (writerOf threeChapters (Some (ascii ''1'')))) =
     [generatedChapter ''1'', generatedChapter ''2'', plannedChapter ''3''] \<and>
   logs (handleBatchGenerate (respond answer) noSave pressInFlight exampleConfig []
     (writerOf threeChapters (Some (ascii ''1'')))) =
     [LogChapterSaved, LogWriting 2 10 (title (plannedChapter ''2'')), LogStopping, LogChapterSaved,
      LogUserStopped]"
  unfolding handleBatchGenerate_def
  by (simp add: writerOf_def batchStart_three)
    (simp add: threeChapters_def run_eval addLog_def handleStopBatch_def slice_last_def)

theorem handleBatchGenerate_cancel_witness:
  "batchStart threeChapters (Some (ascii ''1'')) = 0 \<and>
   alerts (handleBatchGenerate (respond answer) noSave pressInFlight exampleConfig []
     (writerOf threeChapters (Some (ascii ''1'')))) = [] \<and>
   chapters_prop (handleBatchGenerate (respond answer) noSave pressInFlight exampleConfig []
     (writerOf threeChapters (Some (ascii ''1'')))) =
     [generatedChapter ''1'', generatedChapter ''2'', plannedChapter ''3''] \<and>
   logs (handleBatchGenerate (respond answer) noSave pressInFlight exampleConfig []
     (writerOf threeChapters (Some (ascii ''1'')))) =
     [LogChapterSaved, LogWriting 2 10 (title (plannedChapter ''2'')), LogStopping, LogChapterSaved,
      LogUserStopped] \<and>
   reported (handleBatchGenerate (respond answer) noSave pressInFlight exampleConfig []
     (writerOf threeChapters (Some (ascii ''1'')))) = [(0, 10), (1, 10), (2, 10)] \<and>
   last (reported (handleBatchGenerate (respond answer) noSave pressInFlight exampleConfig []
     (writerOf threeChapters (Some (ascii ''1''))))) = (2, 10) \<and>
   (\<exists>w'. batchPass (respond answer) noSave pressInFlight exampleConfig [] 0 1 threeChapters
           (writerOf threeChapters None) =
         Inr ([plannedChapter ''1'', generatedChapter ''2'', plannedChapter ''3''], w') \<and>
       abortBatchRef w') \<and>
   batchLoop (respond answer) noSave pressInFlight exampleConfig [] 0 2 threeChapters
     ((writerOf threeChapters None)\<lparr>abortBatchRef := True\<rparr>) =
     (None, threeChapters, addLog LogUserStopped ((writerOf threeChapters None)\<lparr>abortBatchRef := True\<rparr>))"
proof -
  let ?w = "writerOf threeChapters (Some (ascii ''1''))"
  let ?w' = "handleBatchGenerate (respond answer) noSave pressInFlight exampleConfig [] ?w"
  let ?wp = "writerOf threeChapters None"
  let ?wq = "(writerOf threeChapters None)\<lparr>abortBatchRef := True\<rparr>"
  note inst = handleBatchGenerate_cancel [where saveChapterData = noSave and w = ?w and P = 0 and K = 2
      and stops = pressInFlight and provider = "respond answer" and cfg = exampleConfig and outl = "[]"
      and wp = ?wp and Pp = 0 and ip = 1 and locp = threeChapters and v = "ascii ''text''"
      and ?s1.0 = "invoked (io initialSys) initialSys"
      and wq = ?wq and iq = 2 and Pq = 0 and locq = threeChapters]
  have pre: "(\<forall>c k x. \<exists>x'. noSave c k x = (Inr (), x')) \<and>
     \<not> isGenerating ?w \<and>
     batchStart (chapters_prop ?w) (activeChapterId ?w) = 0 \<and>
     0 < (2::nat) \<and> 2 \<le> chaptersToGenCount \<and> 0 + 2 \<le> length (chapters_prop ?w) \<and>
     pressedDuring pressInFlight (2 - 1) \<and> (\<forall>i. Suc i < 2 \<longrightarrow> \<not> pressedDuring pressInFlight i) \<and>
     alerts ?w' = alerts ?w"
    using noSave_ok batchStart_three run_three_cancel pressInFlight_second
    by (auto simp: writerOf_def threeChapters_def chaptersToGenCount_def)
  from inst [THEN conjunct2, THEN conjunct2, THEN mp, OF pre]
  have "reported ?w' =
     reported ?w @ (0, chaptersToGenCount) # map (\<lambda>k. (Suc k, chaptersToGenCount)) [0 ..< 2] \<and>
     last (reported ?w') = (2, chaptersToGenCount)"
    by blast
  then have run: "reported ?w' = [(0, 10), (1, 10), (2, 10)] \<and> last (reported ?w') = (2, 10)"
    by (simp add: writerOf_def chaptersToGenCount_def upt_rec)
  have prep: "(\<forall>c k x. \<exists>x'. noSave c k x = (Inr (), x')) \<and>
      \<not> abortBatchRef ?wp \<and> 0 + 1 < length threeChapters \<and>
      generateChapterContent (respond answer) exampleConfig (threeChapters ! (0 + 1))
        (getContext (threeChapters ! (0 + 1)) threeChapters) [] (sys_state ?wp) =
        (Inr (ascii ''text''), invoked (io initialSys) initialSys)"
    using noSave_ok by (simp add: content_respond writerOf_def threeChapters_def)
  from inst [THEN conjunct1, THEN mp, OF prep] pressInFlight_second(1)
  have pass: "\<exists>w'. batchPass (respond answer) noSave pressInFlight exampleConfig [] 0 1 threeChapters ?wp =
         Inr ([plannedChapter ''1'', generatedChapter ''2'', plannedChapter ''3''], w') \<and>
       abortBatchRef w'"
    by (auto simp: threeChapters_def generatedChapter_def)
  have preq: "abortBatchRef ?wq \<and> 2 < chaptersToGenCount"
    by (simp add: chaptersToGenCount_def)
  note loop = inst [THEN conjunct2, THEN conjunct1, THEN mp, OF preq]
  show ?thesis
    using batchStart_three run_three_cancel run pass loop by simp
qed

lemma searchStart_find:
  "k \<le> length chs \<Longrightarrow>
   searchStart chs k =
     (case firstUnitBelow 501 chs k of Some j \<Rightarrow> j | None \<Rightarrow> length chs)"
proof (induction chs k rule: searchStart.induct)
  case (1 chs k)
  show ?case
  proof (cases "k < length chs")
    case False
    with "1.prems" have "k = length chs" by simp
    then show ?thesis
      by (simp add: searchStart.simps firstUnitBelow_def)
  next
    case True
    then have upt: "[k ..< length chs] = k # [Suc k ..< length chs]"
      by (rule upt_conv_Cons)
    show ?thesis
    proof (cases "500 < length (content (chs ! k))")
      case long: True
      have "searchStart chs k = searchStart chs (k + 1)"
        using True long by (subst searchStart.simps) simp
      also have "\<dots> = (case firstUnitBelow 501 chs (k + 1) of Some j \<Rightarrow> j | None \<Rightarrow> length chs)"
        using "1.IH" True long by simp
      also have "firstUnitBelow 501 chs (k + 1) = firstUnitBelow 501 chs k"
        using long by (simp add: firstUnitBelow_def upt)
      finally show ?thesis .
    next
      case short: False
      have "searchStart chs k = k"
        using short by (subst searchStart.simps) simp
      moreover have "firstUnitBelow 501 chs k = Some k"
        using short by (simp add: firstUnitBelow_def upt)
      ultimately show ?thesis by simp
    qed
  qed
qed

lemma selectedIndex_le: "selectedIndex chs active \<le> length chs"
  by (auto simp: selectedIndex_def split: option.splits dest: findIndex_Some)

lemma generateChapterContent_succeeds:
  assumes "\<forall>req x. \<exists>r x'. provider req x = (Inr r, x')"
  shows "\<exists>v s'. generateChapterContent provider cfg c ctx outl s = (Inr v, s')"
proof -
  obtain r x' where "provider (ContentPrompt (title_cfg cfg) (title c) (summary c) ctx
      (take 800 outl) (targetWordCount cfg)) (world (io s)) = (Inr r, x')"
    using assms by blast
  then have "contentOperation provider cfg c ctx outl (io s) =
      (Inr (text_or r emptyContentText), (io s)\<lparr>world := x'\<rparr>)"
    by (simp add: contentOperation_def generateContent_def)
  then show ?thesis
    by (simp add: generateChapterContent_def callAI_def callAIWithRetry_success)
qed

lemma batchPass_no_throw:
  assumes "\<forall>req x. \<exists>r x'. provider req x = (Inr r, x')"
    and "\<forall>c k x. \<exists>x'. sav c k x = (Inr (), x')"
  shows "batchPass provider sav stops cfg outl P i loc w \<noteq> Inl (Some e, loc', w')"
proof (cases "\<not> abortBatchRef w \<and> P + i < length loc")
  case False
  then show ?thesis
    by (cases "abortBatchRef w") (auto simp: batchPass_stopped batchPass_last not_less)
next
  case True
  let ?t = "loc ! (P + i)"
  let ?w1 = "setBatchProgress (i + 1, chaptersToGenCount)
                     (addLog (LogWriting (i + 1) chaptersToGenCount (title ?t))
                        (w\<lparr>activeChapterId := Some (id_ch ?t)\<rparr>))"
  obtain v s1 where g: "generateChapterContent provider cfg ?t (getContext ?t loc) outl (sys_state ?w1) = (Inr v, s1)"
    using generateChapterContent_succeeds [OF assms(1)] by blast
  obtain x where s: "sav ((loc[P + i := ?t\<lparr>content := v, isGenerated := True\<rparr>]) ! (P + i)) (P + i) (io s1) = (Inr (), x)"
    using assms(2) by blast
  from True g s show ?thesis
    by (simp add: batchPass_def Let_def)
qed

lemma batchLoop_no_throw:
  "\<forall>req x. \<exists>r x'. provider req x = (Inr r, x') \<Longrightarrow>
   \<forall>c k x. \<exists>x'. sav c k x = (Inr (), x') \<Longrightarrow>
   batchLoop provider sav stops cfg outl P i loc w = (th, loc', w') \<Longrightarrow> th = None"
proof (induction provider sav stops cfg outl P i loc w rule: batchLoop.induct)
  case (1 provider sav stops cfg outl P i loc w)
  show ?case
  proof (cases "i < chaptersToGenCount")
    case False
    with "1.prems" show ?thesis by (simp add: batchLoop_finished)
  next
    case True
    show ?thesis
    proof (cases "batchPass provider sav stops cfg outl P i loc w")
      case (Inl d)
      with True "1.prems" have "batchPass provider sav stops cfg outl P i loc w = Inl (th, loc', w')"
        by (simp add: batchLoop_pass)
      with batchPass_no_throw [OF "1.prems"(1,2)] show ?thesis
        by (cases th) auto
    next
      case (Inr n)
      obtain loc1 w1 where n: "n = (loc1, w1)" by (cases n)
      from "1.IH" [OF True Inr n [symmetric] "1.prems"(1,2)] "1.prems"(3) True Inr n
      show ?thesis by (simp add: batchLoop_pass)
    qed
  qed
qed

lemma handleBatchGenerate_no_dialog:
  assumes prov: "\<forall>req x. \<exists>r x'. provider req x = (Inr r, x')"
    and sav: "\<forall>c k x. \<exists>x'. sav c k x = (Inr (), x')"
    and idle: "\<not> isGenerating w"
    and inside: "batchStart (chapters_prop w) (activeChapterId w) < length (chapters_prop w)"
  shows "alerts (handleBatchGenerate provider sav stops cfg outl w) = alerts w"
proof -
  let ?P = "batchStart (chapters_prop w) (activeChapterId w)"
  let ?w1 = "addLog (LogBatchStart (?P + 1))
               (setBatchProgress (0, chaptersToGenCount) (w\<lparr>abortBatchRef := False, isGenerating := True\<rparr>))"
  obtain th loc' w2 where loop:
    "batchLoop provider sav stops cfg outl ?P 0 (chapters_prop w) ?w1 = (th, loc', w2)"
    by (cases "batchLoop provider sav stops cfg outl ?P 0 (chapters_prop w) ?w1")
  have th: "th = None"
    using batchLoop_no_throw [OF prov sav loop] .
  have al: "alerts w2 = alerts w"
    using batchLoop_alerts [OF loop] by simp
  from inside have ne: "chapters_prop w \<noteq> []" by auto
  show ?thesis
    using idle ne inside loop th al
    by (simp add: handleBatchGenerate_def Let_def)
qed

text \<open>
  Claim C7, as amended. The run length is 10. The run starts at the first unit at or
  after the selected one (position 0 when no unit of the sequence is selected) whose
  body has at most 500 characters, that is fewer than 501; when there is none, the start
  is the length of the sequence and no run takes place. When every provider call
  succeeds, the save prop never throws, the stop button is not pressed and the sequence
  ends before the run length is used up, the run shows no dialog, ends with the
  completion line, leaves the number of units from the start to the end of the sequence
  as the count it last reported, and has written exactly those units.
\<close>
theorem handleBatchGenerate_start_and_end:
  "chaptersToGenCount = 10 \<and>
   batchStart chs active =
     (case firstUnitBelow 501 chs (selectedIndex chs active) of
        Some j \<Rightarrow> j | None \<Rightarrow> length chs) \<and>
   ((\<forall>req x. \<exists>r x'. provider req x = (Inr r, x')) \<and>
    (\<forall>c k x. \<exists>x'. saveChapterData c k x = (Inr (), x')) \<and>
    \<not> isGenerating w \<and>
    batchStart (chapters_prop w) (activeChapterId w) = P \<and> P < length (chapters_prop w) \<and>
    length (chapters_prop w) < P + chaptersToGenCount \<and>
    (\<forall>i<chaptersToGenCount. \<not> pressedDuring stops i) \<longrightarrow>
      alerts (handleBatchGenerate provider saveChapterData stops cfg outl w) = alerts w \<and>
      last (logs (handleBatchGenerate provider saveChapterData stops cfg outl w)) = LogBatchComplete \<and>
      last (reported (handleBatchGenerate provider saveChapterData stops cfg outl w)) =
        (length (chapters_prop w) - P, chaptersToGenCount) \<and>
      unitsWritten P (length (chapters_prop w)) (chapters_prop w)
        (chapters_prop (handleBatchGenerate provider saveChapterData stops cfg outl w)))"
proof (intro conjI impI)
  show "chaptersToGenCount = 10"
    by (simp add: chaptersToGenCount_def)
next
  show "batchStart chs active =
     (case firstUnitBelow 501 chs (selectedIndex chs active) of
        Some j \<Rightarrow> j | None \<Rightarrow> length chs)"
    unfolding batchStart_def by (rule searchStart_find) (rule selectedIndex_le)
next
  let ?w' = "handleBatchGenerate provider saveChapterData stops cfg outl w"
  let ?n = "length (chapters_prop w)"
  assume "(\<forall>req x. \<exists>r x'. provider req x = (Inr r, x')) \<and>
    (\<forall>c k x. \<exists>x'. saveChapterData c k x = (Inr (), x')) \<and>
    \<not> isGenerating w \<and>
    batchStart (chapters_prop w) (activeChapterId w) = P \<and> P < ?n \<and>
    ?n < P + chaptersToGenCount \<and>
    (\<forall>i<chaptersToGenCount. \<not> pressedDuring stops i)"
  then have prov: "\<forall>req x. \<exists>r x'. provider req x = (Inr r, x')"
    and sav: "\<forall>c k x. \<exists>x'. saveChapterData c k x = (Inr (), x')"
    and idle: "\<not> isGenerating w"
    and start: "batchStart (chapters_prop w) (activeChapterId w) = P"
    and inside: "P < ?n"
    and short: "?n < P + chaptersToGenCount"
    and quiet: "\<forall>i<chaptersToGenCount. \<not> pressedDuring stops i"
    by blast+
  have nofail: "alerts ?w' = alerts w"
    using handleBatchGenerate_no_dialog [OF prov sav idle] start inside by simp
  define m where "m = ?n - P"
  have m: "0 < m" "m \<le> chaptersToGenCount" "P + m \<le> ?n" "P + m = ?n"
    using inside short by (simp_all add: m_def)
  have q: "\<forall>j. Suc j < m \<longrightarrow> \<not> pressedDuring stops j"
    using quiet m(2) by simp
  have e: "m = chaptersToGenCount \<or> P + m = ?n \<or> (0 < m \<and> pressedDuring stops (m - 1))"
    using m(4) by simp
  have unpressed: "\<not> (0 < m \<and> pressedDuring stops (m - 1))"
    using quiet m(1,2) by simp
  note run = handleBatchGenerate_run [OF sav idle start inside m(2,3) q e nofail]
  from run unpressed have fin: "last (logs ?w') = LogBatchComplete"
    by blast
  from run have rep: "reported ?w' =
      reported w @ (0, chaptersToGenCount) # map (\<lambda>k. (Suc k, chaptersToGenCount)) [0 ..< m]"
    by blast
  have lastrep: "last (reported ?w') = (m, chaptersToGenCount)"
    unfolding rep using m(1) by (rule last_reported)
  from run have units: "unitsWritten P (P + m) (chapters_prop w) (chapters_prop ?w')"
    by blast
  show "alerts ?w' = alerts w" by (rule nofail)
  show "last (logs ?w') = LogBatchComplete" by (rule fin)
  show "last (reported ?w') = (?n - P, chaptersToGenCount)"
    using lastrep by (simp add: m_def)
  show "unitsWritten P ?n (chapters_prop w) (chapters_prop ?w')"
    using units m(4) by simp
qed

lemma batchStart_five: "batchStart fiveChapters (Some (ascii ''1'')) = 3"
  by (simp add: batchStart_def selectedIndex_def fiveChapters_def writtenChapter_def
      plannedChapter_def ascii_def searchStart.simps)

lemma length_five: "length fiveChapters = 5"
  by (simp add: fiveChapters_def)

lemma run_five:
  "chapters_prop (handleBatchGenerate (respond answer) noSave noPress exampleConfig []
     (writerOf fiveChapters (Some (ascii ''1'')))) =
     [writtenChapter ''1'' 501, writtenChapter ''2'' 501, writtenChapter ''3'' 501,
      generatedChapter ''4'', generatedChapter ''5''] \<and>
   reported (handleBatchGenerate (respond answer) noSave noPress exampleConfig []
     (writerOf fiveChapters (Some (ascii ''1'')))) = [(0, 10), (1, 10), (2, 10)]"
  unfolding handleBatchGenerate_def
  by (simp add: writerOf_def batchStart_five length_five) (simp add: fiveChapters_def run_eval)

lemma respond_ok: "\<forall>req x. \<exists>r x'. respond answer req x = (Inr r, x')"
  by (simp add: respond_def)

theorem handleBatchGenerate_start_and_end_witness:
  "batchStart fiveChapters (Some (ascii ''1'')) = 3 \<and>
   chapters_prop (handleBatchGenerate (respond answer) noSave noPress exampleConfig []
     (writerOf fiveChapters (Some (ascii ''1'')))) =
     [writtenChapter ''1'' 501, writtenChapter ''2'' 501, writtenChapter ''3'' 501,
      generatedChapter ''4'', generatedChapter ''5''] \<and>
   reported (handleBatchGenerate (respond answer) noSave noPress exampleConfig []
     (writerOf fiveChapters (Some (ascii ''1'')))) = [(0, 10), (1, 10), (2, 10)] \<and>
   alerts (handleBatchGenerate (respond answer) noSave noPress exampleConfig []
     (writerOf fiveChapters (Some (ascii ''1'')))) = [] \<and>
   last (logs (handleBatchGenerate (respond answer) noSave noPress exampleConfig []
     (writerOf fiveChapters (Some (ascii ''1''))))) = LogBatchComplete \<and>
   last (reported (handleBatchGenerate (respond answer) noSave noPress exampleConfig []
     (writerOf fiveChapters (Some (ascii ''1''))))) = (2, 10)"
proof -
  let ?w = "writerOf fiveChapters (Some (ascii ''1''))"
  let ?w' = "handleBatchGenerate (respond answer) noSave noPress exampleConfig [] ?w"
  have pre: "(\<forall>req x. \<exists>r x'. respond answer req x = (Inr r, x')) \<and>
    (\<forall>c k x. \<exists>x'. noSave c k x = (Inr (), x')) \<and>
    \<not> isGenerating ?w \<and>
    batchStart (chapters_prop ?w) (activeChapterId ?w) = 3 \<and> 3 < length (chapters_prop ?w) \<and>
    length (chapters_prop ?w) < 3 + chaptersToGenCount \<and>
    (\<forall>i<chaptersToGenCount. \<not> pressedDuring noPress i)"
    using respond_ok noSave_ok batchStart_five length_five noPress_quiet
    by (simp add: writerOf_def chaptersToGenCount_def)
  from handleBatchGenerate_start_and_end [where saveChapterData = noSave and w = ?w and P = 3
      and stops = noPress and provider = "respond answer" and cfg = exampleConfig and outl = "[]",
      THEN conjunct2, THEN conjunct2, THEN mp, OF pre]
  have "alerts ?w' = alerts ?w \<and> last (logs ?w') = LogBatchComplete \<and>
      last (reported ?w') = (length (chapters_prop ?w) - 3, chaptersToGenCount)"
    by blast
  then have "alerts ?w' = [] \<and> last (logs ?w') = LogBatchComplete \<and> last (reported ?w') = (2, 10)"
    by (simp add: writerOf_def length_five chaptersToGenCount_def)
  with batchStart_five run_five show ?thesis
    by simp
qed

text \<open>
  Claim C7 as stated fails at the threshold: when the selected unit has a body of exactly
  500 characters, the run starts at that unit, while the first unit whose body is below
  500 characters is the next one.
\<close>
theorem batchStart_counterexample:
  "length (content (boundaryChapters ! 0)) = 500 \<and>
   batchStart boundaryChapters (Some (ascii ''1'')) = 0 \<and>
   firstUnitBelow 500 boundaryChapters (selectedIndex boundaryChapters (Some (ascii ''1''))) = Some 1 \<and>
   Some (batchStart boundaryChapters (Some (ascii ''1''))) \<noteq>
     firstUnitBelow 500 boundaryChapters (selectedIndex boundaryChapters (Some (ascii ''1'')))"
  by (simp add: batchStart_def selectedIndex_def boundaryChapters_def writtenChapter_def
      plannedChapter_def ascii_def searchStart.simps firstUnitBelow_def upt_rec)

section \<open>The library and its persisted copy\<close>

text \<open>As long as a document remains, the persisted copy follows the collection.\<close>

lemma settled_nonempty:
  "novels (mutation a) \<noteq> [] \<Longrightarrow> stored (settled mutation a) = Some (novels (settled mutation a))"
  by (simp add: settled_def persistLibrary_def)

text \<open>
  Claim C10 fails on the code when the last document is deleted. The library holds one
  document and its persisted copy is up to date; the document is deleted and the
  persisting effect runs. The collection in memory is empty, but the effect writes
  nothing for an empty collection: the persisted copy still holds the deleted document,
  and the next load brings it back.
\<close>
theorem delete_last_novel_not_persisted:
  "novels (settled (handleDeleteNovel (ascii ''n1'')) oneNovelLibrary) = [] \<and>
   stored (settled (handleDeleteNovel (ascii ''n1'')) oneNovelLibrary) = Some [onlyNovel] \<and>
   stored (settled (handleDeleteNovel (ascii ''n1'')) oneNovelLibrary) \<noteq>
     Some (novels (settled (handleDeleteNovel (ascii ''n1'')) oneNovelLibrary)) \<and>
   novels (loadLibrary (settled (handleDeleteNovel (ascii ''n1'')) oneNovelLibrary)) = [onlyNovel]"
  by (simp add: settled_def persistLibrary_def handleDeleteNovel_def oneNovelLibrary_def
      onlyNovel_def loadLibrary_def)

section \<open>Persistence failures\<close>

subsection \<open>The save functions return\<close>

lemma try_catch_logged:
  "\<exists>x'. try_catch m (\<lambda>e. console_error (f e)) x = (Inr (), x')"
proof (cases "m x")
  case (Pair r x1)
  then show ?thesis
    by (cases r) (simp_all add: try_catch_def console_error_def)
qed

lemma saveNovelConfig_returns:
  "\<exists>x'. saveNovelConfig api root stringify novel x = (Inr (), x')"
  by (simp add: saveNovelConfig_def try_catch_logged) (simp add: return_io_def)

lemma saveOutline_returns: "\<exists>x'. saveOutline api root novel x = (Inr (), x')"
  by (simp add: saveOutline_def try_catch_logged) (simp add: return_io_def)

lemma saveChapter_returns: "\<exists>x'. saveChapter api root novel chapter index x = (Inr (), x')"
  by (simp add: saveChapter_def try_catch_logged) (simp add: return_io_def)

lemma saveAllChapters_returns: "\<exists>x'. saveAllChapters api root novel x = (Inr (), x')"
  by (simp add: saveAllChapters_def try_catch_logged) (simp add: return_io_def)

lemma saveChapterDataProp_returns:
  "\<forall>c k x. \<exists>x'. saveChapterDataProp api root ready active c k x = (Inr (), x')"
  by (auto simp: saveChapterDataProp_def saveChapter_returns return_io_def split: option.splits)

lemmas async_defs = bind_io_def try_catch_def return_io_def console_error_def call_def


lemma saveEach_returns: "\<exists>x'. saveEach api root novel ics x = (Inr (), x')"
proof (induction ics arbitrary: x)
  case Nil
  show ?case by (simp add: return_io_def)
next
  case (Cons ic ics)
  obtain i ch where ic: "ic = (i, ch)" by (cases ic)
  obtain x1 where 1: "saveChapter api root novel ch i x = (Inr (), x1)"
    using saveChapter_returns by blast
  from Cons [of x1] Cons [of x] 1 show ?case
    by (simp add: ic bind_io_def return_io_def)
qed

lemma try_catch_returns:
  assumes "\<And>x. \<exists>x'. m x = (Inr v, x')"
  shows "try_catch m h = m"
proof
  fix x
  from assms obtain x' where "m x = (Inr v, x')" by blast
  then show "try_catch m h x = m x" by (simp add: try_catch_def)
qed


subsection \<open>Every failure thrown is logged\<close>

lemma trackedD:
  assumes "tracked R m" and "m y = (r, y1)"
  shows "\<exists>logged thrown. console y1 = console y @ logged \<and> snd (world y1) = snd (world y) @ thrown \<and>
          (case r of
             Inr v \<Rightarrow> list_all2 R logged thrown
           | Inl e \<Rightarrow> \<exists>before. thrown = before @ [e] \<and> list_all2 R logged before)"
proof -
  from assms(1) have "case m y of (r, y') \<Rightarrow>
        \<exists>logged thrown. console y' = console y @ logged \<and> snd (world y') = snd (world y) @ thrown \<and>
          (case r of
             Inr v \<Rightarrow> list_all2 R logged thrown
           | Inl e \<Rightarrow> \<exists>before. thrown = before @ [e] \<and> list_all2 R logged before)"
    unfolding tracked_def by (rule allE)
  with assms(2) show ?thesis by simp
qed

lemma mirrorsD:
  assumes "mirrors m m'" and "world x = fst (world y)" and "console x = console y"
    and "m x = (r, x')" and "m' y = (r', y')"
  shows "r = r' \<and> world x' = fst (world y') \<and> console x' = console y'"
proof -
  from assms(1) have "world x = fst (world y) \<and> console x = console y \<longrightarrow>
        (case m x of (r, x') \<Rightarrow> case m' y of (r', y') \<Rightarrow>
           r = r' \<and> world x' = fst (world y') \<and> console x' = console y')"
    unfolding mirrors_def by (elim allE)
  with assms(2-) show ?thesis by simp
qed


lemma mirrors_bind:
  fixes m :: "('w, 'a) async"
  assumes m: "mirrors m m'" and f: "\<And>v. mirrors (f v) (f' v)"
  shows "mirrors (bind_io m f) (bind_io m' f')"
  unfolding mirrors_def
proof (intro allI impI)
  fix x :: "'w io" and y :: "('w \<times> failure list) io"
  assume xy: "world x = fst (world y) \<and> console x = console y"
  obtain r x1 where mx: "m x = (r, x1)" by (cases "m x")
  obtain r' y1 where my: "m' y = (r', y1)" by (cases "m' y")
  from mirrorsD [OF m _ _ mx my] xy
  have 1: "r' = r" "world x1 = fst (world y1)" "console x1 = console y1" by simp_all
  show "case bind_io m f x of (r, x') \<Rightarrow> case bind_io m' f' y of (r', y') \<Rightarrow>
           r = r' \<and> world x' = fst (world y') \<and> console x' = console y'"
  proof (cases r)
    case (Inl e)
    with mx my 1 show ?thesis by (simp add: bind_io_def)
  next
    case (Inr v)
    obtain r2 x2 where fx: "f v x1 = (r2, x2)" by (cases "f v x1")
    obtain r2' y2 where fy: "f' v y1 = (r2', y2)" by (cases "f' v y1")
    from mirrorsD [OF f 1(2,3) fx fy] mx my 1 Inr fx fy show ?thesis
      by (simp add: bind_io_def)
  qed
qed

lemma mirrors_catch:
  fixes m :: "('w, 'a) async"
  assumes m: "mirrors m m'" and h: "\<And>e. mirrors (h e) (h' e)"
  shows "mirrors (try_catch m h) (try_catch m' h')"
  unfolding mirrors_def
proof (intro allI impI)
  fix x :: "'w io" and y :: "('w \<times> failure list) io"
  assume xy: "world x = fst (world y) \<and> console x = console y"
  obtain r x1 where mx: "m x = (r, x1)" by (cases "m x")
  obtain r' y1 where my: "m' y = (r', y1)" by (cases "m' y")
  from mirrorsD [OF m _ _ mx my] xy
  have 1: "r' = r" "world x1 = fst (world y1)" "console x1 = console y1" by simp_all
  show "case try_catch m h x of (r, x') \<Rightarrow> case try_catch m' h' y of (r', y') \<Rightarrow>
           r = r' \<and> world x' = fst (world y') \<and> console x' = console y'"
  proof (cases r)
    case (Inr v)
    with mx my 1 show ?thesis by (simp add: try_catch_def)
  next
    case (Inl e)
    obtain r2 x2 where fx: "h e x1 = (r2, x2)" by (cases "h e x1")
    obtain r2' y2 where fy: "h' e y1 = (r2', y2)" by (cases "h' e y1")
    from mirrorsD [OF h 1(2,3) fx fy] mx my 1 Inl fx fy show ?thesis
      by (simp add: try_catch_def)
  qed
qed


lemma tracked_return: "tracked R (return_io v)"
  by (simp add: tracked_def return_io_def)

lemma tracked_call: "tracked R (call (recorded f))"
  by (auto simp: tracked_def call_def recorded_def split: prod.splits sum.splits)

lemma tracked_bind:
  fixes m :: "('w \<times> failure list, 'a) async"
  assumes m: "tracked R m" and f: "\<And>v. tracked R (f v)"
  shows "tracked R (bind_io m f)"
  unfolding tracked_def
proof
  fix y :: "('w \<times> failure list) io"
  obtain r y1 where my: "m y = (r, y1)" by (cases "m y")
  from trackedD [OF m my] obtain l1 t1 where 1: "console y1 = console y @ l1"
      "snd (world y1) = snd (world y) @ t1"
      "case r of Inr v \<Rightarrow> list_all2 R l1 t1 | Inl e \<Rightarrow> \<exists>before. t1 = before @ [e] \<and> list_all2 R l1 before"
    by blast
  show "case bind_io m f y of (r, y') \<Rightarrow>
      \<exists>logged thrown. console y' = console y @ logged \<and> snd (world y') = snd (world y) @ thrown \<and>
        (case r of Inr v \<Rightarrow> list_all2 R logged thrown
         | Inl e \<Rightarrow> \<exists>before. thrown = before @ [e] \<and> list_all2 R logged before)"
  proof (cases r)
    case (Inl e)
    with my 1 show ?thesis by (simp add: bind_io_def)
  next
    case (Inr v)
    obtain r2 y2 where fy: "f v y1 = (r2, y2)" by (cases "f v y1")
    from trackedD [OF f fy] obtain l2 t2 where 2: "console y2 = console y1 @ l2"
        "snd (world y2) = snd (world y1) @ t2"
        "case r2 of Inr v \<Rightarrow> list_all2 R l2 t2 | Inl e \<Rightarrow> \<exists>before. t2 = before @ [e] \<and> list_all2 R l2 before"
      by blast
    have a: "console y2 = console y @ (l1 @ l2)" and b: "snd (world y2) = snd (world y) @ (t1 @ t2)"
      using 1 2 by simp_all
    have c: "case r2 of Inr v \<Rightarrow> list_all2 R (l1 @ l2) (t1 @ t2)
        | Inl e \<Rightarrow> \<exists>before. t1 @ t2 = before @ [e] \<and> list_all2 R (l1 @ l2) before"
    proof (cases r2)
      case Inl2: (Inl e)
      with 2 obtain b where "t2 = b @ [e]" "list_all2 R l2 b" by auto
      with 1 Inr have "t1 @ t2 = (t1 @ b) @ [e] \<and> list_all2 R (l1 @ l2) (t1 @ b)"
        by (simp add: list_all2_appendI)
      then have "\<exists>before. t1 @ t2 = before @ [e] \<and> list_all2 R (l1 @ l2) before"
        by (rule exI)
      with Inl2 show ?thesis by simp
    next
      case Inr2: (Inr u)
      with 1 2 Inr show ?thesis by (simp add: list_all2_appendI)
    qed
    have "bind_io m f y = (r2, y2)"
      using my Inr fy by (simp add: bind_io_def)
    with a b c show ?thesis by (simp only: prod.case) blast
  qed
qed

lemma tracked_catch:
  fixes m :: "('w \<times> failure list, 'a) async"
  assumes m: "tracked R m" and h: "\<And>e y. h e y = (Inr v, consoleLog (msg e) y)"
    and R: "\<And>e. R (msg e) e"
  shows "tracked R (try_catch m h)"
  unfolding tracked_def
proof
  fix y :: "('w \<times> failure list) io"
  obtain r y1 where my: "m y = (r, y1)" by (cases "m y")
  from trackedD [OF m my] obtain l1 t1 where 1: "console y1 = console y @ l1"
      "snd (world y1) = snd (world y) @ t1"
      "case r of Inr v \<Rightarrow> list_all2 R l1 t1 | Inl e \<Rightarrow> \<exists>before. t1 = before @ [e] \<and> list_all2 R l1 before"
    by blast
  show "case try_catch m h y of (r, y') \<Rightarrow>
      \<exists>logged thrown. console y' = console y @ logged \<and> snd (world y') = snd (world y) @ thrown \<and>
        (case r of Inr v \<Rightarrow> list_all2 R logged thrown
         | Inl e \<Rightarrow> \<exists>before. thrown = before @ [e] \<and> list_all2 R logged before)"
  proof (cases r)
    case (Inl e)
    with 1 obtain b where b: "t1 = b @ [e]" "list_all2 R l1 b" by auto
    have c: "list_all2 R (l1 @ [msg e]) (b @ [e])"
      using b R by (simp add: list_all2_appendI)
    have d: "console (consoleLog (msg e) y1) = console y @ (l1 @ [msg e])"
      "snd (world (consoleLog (msg e) y1)) = snd (world y) @ (b @ [e])"
      using 1 b by (simp_all add: consoleLog_def)
    have "try_catch m h y = (Inr v, consoleLog (msg e) y1)"
      using my Inl h by (simp add: try_catch_def)
    with c d show ?thesis by (simp only: prod.case sum.case) blast
  next
    case (Inr u)
    with my have "try_catch m h y = (Inr u, y1)" by (simp add: try_catch_def)
    with 1 Inr show ?thesis by (simp only: prod.case sum.case) blast
  qed
qed


lemma tracked_mono:
  fixes m :: "('w \<times> failure list, 'a) async"
  assumes m: "tracked R m" and le: "\<And>a e. R a e \<Longrightarrow> R' a e"
  shows "tracked R' m"
  unfolding tracked_def
proof
  fix y :: "('w \<times> failure list) io"
  obtain r y1 where my: "m y = (r, y1)" by (cases "m y")
  from trackedD [OF m my] obtain l1 t1 where 1: "console y1 = console y @ l1"
      "snd (world y1) = snd (world y) @ t1"
      "case r of Inr v \<Rightarrow> list_all2 R l1 t1 | Inl e \<Rightarrow> \<exists>before. t1 = before @ [e] \<and> list_all2 R l1 before"
    by blast
  have "case r of Inr v \<Rightarrow> list_all2 R' l1 t1 | Inl e \<Rightarrow> \<exists>before. t1 = before @ [e] \<and> list_all2 R' l1 before"
  proof (cases r)
    case (Inl e)
    with 1 obtain b where "t1 = b @ [e]" "list_all2 R l1 b" by auto
    then have "t1 = b @ [e] \<and> list_all2 R' l1 b"
      using le by (auto elim: list_all2_mono)
    then have "\<exists>before. t1 = before @ [e] \<and> list_all2 R' l1 before" by (rule exI)
    with Inl show ?thesis by simp
  next
    case (Inr u)
    with 1 le show ?thesis by (auto elim: list_all2_mono)
  qed
  with 1 my show "case m y of (r, y') \<Rightarrow>
      \<exists>logged thrown. console y' = console y @ logged \<and> snd (world y') = snd (world y) @ thrown \<and>
        (case r of Inr v \<Rightarrow> list_all2 R' logged thrown
         | Inl e \<Rightarrow> \<exists>before. thrown = before @ [e] \<and> list_all2 R' logged before)"
    by (simp only: prod.case) blast
qed

lemma observed:
  fixes m :: "('w, unit) async"
  assumes t: "tracked R m'" and s: "mirrors m m'" and ret: "\<And>y. \<exists>y'. m' y = (Inr (), y')"
  shows "\<exists>x' thrown logged. m x = (Inr (), x') \<and>
     m' \<lparr>world = (world x, []), console = console x\<rparr> =
       (Inr (), \<lparr>world = (world x', thrown), console = console x'\<rparr>) \<and>
     console x' = console x @ logged \<and> list_all2 R logged thrown"
proof -
  let ?y = "\<lparr>world = (world x, []), console = console x\<rparr>"
  from ret obtain y' where my: "m' ?y = (Inr (), y')" by blast
  obtain r x' where mx: "m x = (r, x')" by (cases "m x")
  from mirrorsD [OF s _ _ mx my]
  have 1: "r = Inr ()" "world x' = fst (world y')" "console x' = console y'" by simp_all
  from trackedD [OF t my] obtain logged thrown where 2: "console y' = console x @ logged"
      "snd (world y') = thrown" "list_all2 R logged thrown"
    by auto
  have y': "y' = \<lparr>world = (world x', thrown), console = console x'\<rparr>"
    using 1 2 by (cases y') auto
  have "m x = (Inr (), x') \<and>
     m' \<lparr>world = (world x, []), console = console x\<rparr> =
       (Inr (), \<lparr>world = (world x', thrown), console = console x'\<rparr>) \<and>
     console x' = console x @ logged \<and> list_all2 R logged thrown"
    using mx 1 2 my [unfolded y'] by simp
  then show ?thesis by blast
qed

lemma tracked_getNovelDirectory:
  assumes "\<And>e. R (ErrorDirectoryHandle e) e"
  shows "tracked R (getNovelDirectory (recording api) root novelTitle)"
proof (cases root)
  case None
  then show ?thesis by (simp add: getNovelDirectory_def tracked_return)
next
  case (Some rootDirectoryHandle)
  have "tracked R (try_catch
            (bind_io (call (recorded (getDirectoryHandle api rootDirectoryHandle (safeDirName novelTitle))))
               (\<lambda>dir. return_io (Some dir)))
            (\<lambda>e. bind_io (console_error (ErrorDirectoryHandle e)) (\<lambda>_. return_io None)))"
    by (rule tracked_catch [where msg = ErrorDirectoryHandle and v = None])
      (simp_all add: tracked_bind tracked_call tracked_return assms bind_io_def console_error_def
        return_io_def)
  with Some show ?thesis by (simp add: getNovelDirectory_def recording_def)
qed

lemma tracked_writeFile: "tracked R (writeFile (recording api) dir name txt)"
  by (simp add: writeFile_def recording_def tracked_bind tracked_call)

lemma tracked_saveNovelConfig:
  "tracked (\<lambda>m e. m = ErrorDirectoryHandle e \<or> m = ErrorSavingConfig e)
     (saveNovelConfig (recording api) root stringify novel)"
proof (cases root)
  case None
  then show ?thesis by (simp add: saveNovelConfig_def tracked_return)
next
  case (Some r)
  have "tracked (\<lambda>m e. m = ErrorDirectoryHandle e \<or> m = ErrorSavingConfig e)
     (try_catch
             (bind_io (getNovelDirectory (recording api) root (title_cfg (config novel))) (\<lambda>dir.
                case dir of
                  None \<Rightarrow> return_io ()
                | Some d \<Rightarrow> writeFile (recording api) d (ascii ''setting.json'') (stringify (config novel))))
             (\<lambda>e. console_error (ErrorSavingConfig e)))"
    by (rule tracked_catch [where msg = ErrorSavingConfig and v = "()"])
      (auto intro!: tracked_bind tracked_getNovelDirectory tracked_writeFile tracked_return
        simp: console_error_def split: option.splits)
  with Some show ?thesis by (simp add: saveNovelConfig_def)
qed


lemma recording_simps:
  "getDirectoryHandle (recording api) h name = recorded (getDirectoryHandle api h name)"
  "getFileHandle (recording api) h name = recorded (getFileHandle api h name)"
  "createWritable (recording api) h = recorded (createWritable api h)"
  "write_stream (recording api) h txt = recorded (write_stream api h txt)"
  "close_stream (recording api) h = recorded (close_stream api h)"
  by (simp_all add: recording_def)

lemma tracked_saveOutline:
  "tracked (\<lambda>m e. m = ErrorDirectoryHandle e \<or> m = ErrorSavingOutline e)
     (saveOutline (recording api) root novel)"
proof (cases root)
  case None
  then show ?thesis by (simp add: saveOutline_def tracked_return)
next
  case (Some r)
  have "tracked (\<lambda>m e. m = ErrorDirectoryHandle e \<or> m = ErrorSavingOutline e)
     (try_catch
             (bind_io (getNovelDirectory (recording api) root (title_cfg (config novel))) (\<lambda>dir.
                case dir of
                  None \<Rightarrow> return_io ()
                | Some d \<Rightarrow> writeFile (recording api) d (ascii ''outline.txt'') (outline novel)))
             (\<lambda>e. console_error (ErrorSavingOutline e)))"
    by (rule tracked_catch [where msg = ErrorSavingOutline and v = "()"])
      (auto intro!: tracked_bind tracked_getNovelDirectory tracked_writeFile tracked_return
        simp: console_error_def split: option.splits)
  with Some show ?thesis by (simp add: saveOutline_def)
qed

lemma tracked_saveChapter:
  "tracked (\<lambda>m e. m = ErrorDirectoryHandle e \<or> m = ErrorSavingChapter (index + 1) e)
     (saveChapter (recording api) root novel chapter index)"
proof (cases root)
  case None
  then show ?thesis by (simp add: saveChapter_def tracked_return)
next
  case (Some r)
  have "tracked (\<lambda>m e. m = ErrorDirectoryHandle e \<or> m = ErrorSavingChapter (index + 1) e)
     (try_catch
             (bind_io (getNovelDirectory (recording api) root (title_cfg (config novel))) (\<lambda>dir.
                case dir of
                  None \<Rightarrow> return_io ()
                | Some d \<Rightarrow>
                    bind_io (call (recorded (getDirectoryHandle api d (ascii ''chapters'')))) (\<lambda>chaptersDir.
                    writeFile (recording api) chaptersDir (chapterFileName chapter index)
                      (chapterFileText chapter index))))
             (\<lambda>e. console_error (ErrorSavingChapter (index + 1) e)))"
    by (rule tracked_catch [where msg = "ErrorSavingChapter (index + 1)" and v = "()"])
      (auto intro!: tracked_bind tracked_getNovelDirectory tracked_writeFile tracked_return tracked_call
        simp: console_error_def split: option.splits)
  with Some show ?thesis by (simp add: saveChapter_def recording_simps)
qed

lemma tracked_saveEach:
  "tracked (\<lambda>m e. m = ErrorDirectoryHandle e \<or> (\<exists>i \<in> fst ` set ics. m = ErrorSavingChapter (i + 1) e))
     (saveEach (recording api) root novel ics)"
proof (induction ics)
  case Nil
  show ?case by (simp add: tracked_return)
next
  case (Cons ic ics)
  obtain i ch where ic: "ic = (i, ch)" by (cases ic)
  let ?R = "\<lambda>m e. m = ErrorDirectoryHandle e \<or> (\<exists>i \<in> fst ` set (ic # ics). m = ErrorSavingChapter (i + 1) e)"
  have a: "tracked ?R (saveChapter (recording api) root novel ch i)"
    by (rule tracked_mono [OF tracked_saveChapter]) (auto simp: ic)
  have b: "tracked ?R (saveEach (recording api) root novel ics)"
    by (rule tracked_mono [OF Cons.IH]) auto
  show ?case
    unfolding ic saveEach.simps
    using a b by (auto intro!: tracked_bind tracked_return simp: ic)
qed

lemma tracked_saveAllChapters:
  "tracked (\<lambda>m e. m = ErrorDirectoryHandle e \<or>
        (\<exists>i < length (chapters novel). m = ErrorSavingChapter (i + 1) e))
     (saveAllChapters (recording api) root novel)"
proof (cases root)
  case None
  then show ?thesis by (simp add: saveAllChapters_def tracked_return)
next
  case (Some r)
  let ?R = "\<lambda>m e. m = ErrorDirectoryHandle e \<or>
        (\<exists>i < length (chapters novel). m = ErrorSavingChapter (i + 1) e)"
  have "tracked ?R (saveEach (recording api) root novel (enumerate 0 (chapters novel)))"
    by (rule tracked_mono [OF tracked_saveEach]) (auto simp: in_set_enumerate_eq)
  then have "tracked ?R (try_catch (saveEach (recording api) root novel (enumerate 0 (chapters novel)))
             (\<lambda>e. console_error (ErrorSavingAllChapters e)))"
    by (simp add: try_catch_returns [where v = "()"] saveEach_returns)
  with Some show ?thesis by (simp add: saveAllChapters_def)
qed


lemma mirrors_return: "mirrors (return_io v) (return_io v)"
  by (simp add: mirrors_def return_io_def)

lemma mirrors_call: "mirrors (call f) (call (recorded f))"
  by (auto simp: mirrors_def call_def recorded_def split: prod.splits sum.splits)

lemma mirrors_console_error: "mirrors (console_error a) (console_error a)"
  by (simp add: mirrors_def console_error_def consoleLog_def)

lemmas mirrors_intros = mirrors_bind mirrors_catch mirrors_return mirrors_console_error mirrors_call

lemma mirrors_getNovelDirectory:
  "mirrors (getNovelDirectory api root novelTitle) (getNovelDirectory (recording api) root novelTitle)"
  by (cases root) (auto simp: getNovelDirectory_def recording_simps intro!: mirrors_intros)

lemma mirrors_writeFile:
  "mirrors (writeFile api dir name txt) (writeFile (recording api) dir name txt)"
  by (auto simp: writeFile_def recording_simps intro!: mirrors_intros)

lemma mirrors_saveNovelConfig:
  "mirrors (saveNovelConfig api root stringify novel) (saveNovelConfig (recording api) root stringify novel)"
  by (auto simp: saveNovelConfig_def intro!: mirrors_intros mirrors_getNovelDirectory mirrors_writeFile
      split: option.splits)

lemma mirrors_saveOutline:
  "mirrors (saveOutline api root novel) (saveOutline (recording api) root novel)"
  by (auto simp: saveOutline_def intro!: mirrors_intros mirrors_getNovelDirectory mirrors_writeFile
      split: option.splits)

lemma mirrors_saveChapter:
  "mirrors (saveChapter api root novel chapter index) (saveChapter (recording api) root novel chapter index)"
  by (auto simp: saveChapter_def recording_simps
      intro!: mirrors_intros mirrors_getNovelDirectory mirrors_writeFile split: option.splits)

lemma mirrors_saveEach:
  "mirrors (saveEach api root novel ics) (saveEach (recording api) root novel ics)"
proof (induction ics)
  case Nil
  show ?case by (simp add: mirrors_return)
next
  case (Cons ic ics)
  obtain i ch where ic: "ic = (i, ch)" by (cases ic)
  from Cons show ?case
    by (auto simp: ic intro!: mirrors_intros mirrors_saveChapter)
qed

lemma mirrors_saveAllChapters:
  "mirrors (saveAllChapters api root novel) (saveAllChapters (recording api) root novel)"
  by (auto simp: saveAllChapters_def intro!: mirrors_intros mirrors_saveEach)

lemma saveNovelConfig_logged:
  "\<exists>x' thrown logged. saveNovelConfig api root stringify novel x = (Inr (), x') \<and>
     saveNovelConfig (recording api) root stringify novel \<lparr>world = (world x, []), console = console x\<rparr> =
       (Inr (), \<lparr>world = (world x', thrown), console = console x'\<rparr>) \<and>
     console x' = console x @ logged \<and>
     list_all2 (\<lambda>m e. m = ErrorDirectoryHandle e \<or> m = ErrorSavingConfig e) logged thrown"
  by (rule observed [OF tracked_saveNovelConfig mirrors_saveNovelConfig saveNovelConfig_returns])

lemma saveOutline_logged:
  "\<exists>x' thrown logged. saveOutline api root novel x = (Inr (), x') \<and>
     saveOutline (recording api) root novel \<lparr>world = (world x, []), console = console x\<rparr> =
       (Inr (), \<lparr>world = (world x', thrown), console = console x'\<rparr>) \<and>
     console x' = console x @ logged \<and>
     list_all2 (\<lambda>m e. m = ErrorDirectoryHandle e \<or> m = ErrorSavingOutline e) logged thrown"
  by (rule observed [OF tracked_saveOutline mirrors_saveOutline saveOutline_returns])

lemma saveChapter_logged:
  "\<exists>x' thrown logged. saveChapter api root novel chapter index x = (Inr (), x') \<and>
     saveChapter (recording api) root novel chapter index \<lparr>world = (world x, []), console = console x\<rparr> =
       (Inr (), \<lparr>world = (world x', thrown), console = console x'\<rparr>) \<and>
     console x' = console x @ logged \<and>
     list_all2 (\<lambda>m e. m = ErrorDirectoryHandle e \<or> m = ErrorSavingChapter (index + 1) e) logged thrown"
  by (rule observed [OF tracked_saveChapter mirrors_saveChapter saveChapter_returns])

lemma saveAllChapters_logged:
  "\<exists>x' thrown logged. saveAllChapters api root novel x = (Inr (), x') \<and>
     saveAllChapters (recording api) root novel \<lparr>world = (world x, []), console = console x\<rparr> =
       (Inr (), \<lparr>world = (world x', thrown), console = console x'\<rparr>) \<and>
     console x' = console x @ logged \<and>
     list_all2 (\<lambda>m e. m = ErrorDirectoryHandle e \<or>
        (\<exists>i < length (chapters novel). m = ErrorSavingChapter (i + 1) e)) logged thrown"
  by (rule observed [OF tracked_saveAllChapters mirrors_saveAllChapters saveAllChapters_returns])

lemma saveChapterDataProp_logged:
  "\<exists>x' thrown logged. saveChapterDataProp api root ready active chapter index x = (Inr (), x') \<and>
     saveChapterDataProp (recording api) root ready active chapter index
         \<lparr>world = (world x, []), console = console x\<rparr> =
       (Inr (), \<lparr>world = (world x', thrown), console = console x'\<rparr>) \<and>
     console x' = console x @ logged \<and>
     list_all2 (\<lambda>m e. m = ErrorDirectoryHandle e \<or> m = ErrorSavingChapter (index + 1) e) logged thrown"
proof (cases "ready \<and> active \<noteq> None")
  case True
  then obtain novel where "active = Some novel" by auto
  with True saveChapter_logged [where api = api and root = root and novel = novel
      and ?chapter = "chapter" and index = index and x = x] show ?thesis
    by (simp add: saveChapterDataProp_def)
next
  case False
  have "saveChapterDataProp api root ready active chapter index x = (Inr (), x) \<and>
     saveChapterDataProp (recording api) root ready active chapter index
         \<lparr>world = (world x, []), console = console x\<rparr> =
       (Inr (), \<lparr>world = (world x, []), console = console x\<rparr>) \<and>
     console x = console x @ [] \<and>
     list_all2 (\<lambda>m e. m = ErrorDirectoryHandle e \<or> m = ErrorSavingChapter (index + 1) e) [] []"
    using False by (auto simp: saveChapterDataProp_def return_io_def split: option.splits)
  then show ?thesis by blast
qed

subsection \<open>Failures stay inside the collaborator\<close>

text \<open>
  Claim C9. Each of the four save functions, and the save prop the application hands to
  the writer, returns normally whatever the storage does, and logs every failure the
  storage throws: run on the recording storage, the function ends as on the storage
  itself, with the same world and the same console, and the messages it has added to
  the console correspond one to one, in order, to the failures the storage has thrown,
  each message carrying its failure. The message is that of \<open>getNovelDirectory\<close> when
  the directory of the document could not be opened, and that of the function
  otherwise; \<open>saveAllChapters\<close> logs under the number of the chapter that was being
  saved. For instance, when the directory of the document cannot be opened,
  \<open>saveChapter\<close> returns with that failure logged by \<open>getNovelDirectory\<close>, and when
  the stream cannot be written, it returns with the failure logged under the number of
  the chapter. So a pass of a continuation run whose generation call succeeded goes on
  to the next pass with the unit written in the published sequence, whatever the
  storage did.
\<close>
theorem save_failures_isolated:
  "(\<exists>x' thrown logged. saveNovelConfig api root stringify novel x = (Inr (), x') \<and>
     saveNovelConfig (recording api) root stringify novel \<lparr>world = (world x, []), console = console x\<rparr> =
       (Inr (), \<lparr>world = (world x', thrown), console = console x'\<rparr>) \<and>
     console x' = console x @ logged \<and>
     list_all2 (\<lambda>m e. m = ErrorDirectoryHandle e \<or> m = ErrorSavingConfig e) logged thrown) \<and>
   (\<exists>x' thrown logged. saveOutline api root novel x = (Inr (), x') \<and>
     saveOutline (recording api) root novel \<lparr>world = (world x, []), console = console x\<rparr> =
       (Inr (), \<lparr>world = (world x', thrown), console = console x'\<rparr>) \<and>
     console x' = console x @ logged \<and>
     list_all2 (\<lambda>m e. m = ErrorDirectoryHandle e \<or> m = ErrorSavingOutline e) logged thrown) \<and>
   (\<exists>x' thrown logged. saveChapter api root novel chapter index x = (Inr (), x') \<and>
     saveChapter (recording api) root novel chapter index \<lparr>world = (world x, []), console = console x\<rparr> =
       (Inr (), \<lparr>world = (world x', thrown), console = console x'\<rparr>) \<and>
     console x' = console x @ logged \<and>
     list_all2 (\<lambda>m e. m = ErrorDirectoryHandle e \<or> m = ErrorSavingChapter (index + 1) e) logged thrown) \<and>
   (\<exists>x' thrown logged. saveAllChapters api root novel x = (Inr (), x') \<and>
     saveAllChapters (recording api) root novel \<lparr>world = (world x, []), console = console x\<rparr> =
       (Inr (), \<lparr>world = (world x', thrown), console = console x'\<rparr>) \<and>
     console x' = console x @ logged \<and>
     list_all2 (\<lambda>m e. m = ErrorDirectoryHandle e \<or>
        (\<exists>i < length (chapters novel). m = ErrorSavingChapter (i + 1) e)) logged thrown) \<and>
   (\<exists>x' thrown logged. saveChapterDataProp api root ready active chapter index x = (Inr (), x') \<and>
     saveChapterDataProp (recording api) root ready active chapter index
         \<lparr>world = (world x, []), console = console x\<rparr> =
       (Inr (), \<lparr>world = (world x', thrown), console = console x'\<rparr>) \<and>
     console x' = console x @ logged \<and>
     list_all2 (\<lambda>m e. m = ErrorDirectoryHandle e \<or> m = ErrorSavingChapter (index + 1) e) logged thrown) \<and>
   (getDirectoryHandle api rootHandle (safeDirName (title_cfg (config novel))) (world y) = (Inl e0, w0) \<longrightarrow>
      saveChapter api (Some rootHandle) novel chapter index y =
        (Inr (), \<lparr>world = w0, console = console y @ [ErrorDirectoryHandle e0]\<rparr>)) \<and>
   (getDirectoryHandle api rootHandle (safeDirName (title_cfg (config novel))) (world z) = (Inr d, w1) \<and>
    getDirectoryHandle api d (ascii ''chapters'') w1 = (Inr chaptersDir, w2) \<and>
    getFileHandle api chaptersDir (chapterFileName chapter index) w2 = (Inr fileHandle, w3) \<and>
    createWritable api fileHandle w3 = (Inr writable, w4) \<and>
    write_stream api writable (chapterFileText chapter index) w4 = (Inl e, w5) \<longrightarrow>
      saveChapter api (Some rootHandle) novel chapter index z =
        (Inr (), \<lparr>world = w5, console = console z @ [ErrorSavingChapter (index + 1) e]\<rparr>)) \<and>
   (\<not> abortBatchRef w \<and> P + i < length loc \<and>
    generateChapterContent provider cfg (loc ! (P + i)) (getContext (loc ! (P + i)) loc) outl
      (sys_state w) = (Inr v, s1) \<longrightarrow>
      (\<exists>w'. batchPass provider (saveChapterDataProp api root ready active) stops cfg outl P i loc w =
           Inr (loc[P + i := (loc ! (P + i))\<lparr>content := v, isGenerated := True\<rparr>], w') \<and>
         chapters_prop w' = loc[P + i := (loc ! (P + i))\<lparr>content := v, isGenerated := True\<rparr>]))"
proof (intro conjI impI)
  show "\<exists>x' thrown logged. saveNovelConfig api root stringify novel x = (Inr (), x') \<and>
     saveNovelConfig (recording api) root stringify novel \<lparr>world = (world x, []), console = console x\<rparr> =
       (Inr (), \<lparr>world = (world x', thrown), console = console x'\<rparr>) \<and>
     console x' = console x @ logged \<and>
     list_all2 (\<lambda>m e. m = ErrorDirectoryHandle e \<or> m = ErrorSavingConfig e) logged thrown"
    by (rule saveNovelConfig_logged)
  show "\<exists>x' thrown logged. saveOutline api root novel x = (Inr (), x') \<and>
     saveOutline (recording api) root novel \<lparr>world = (world x, []), console = console x\<rparr> =
       (Inr (), \<lparr>world = (world x', thrown), console = console x'\<rparr>) \<and>
     console x' = console x @ logged \<and>
     list_all2 (\<lambda>m e. m = ErrorDirectoryHandle e \<or> m = ErrorSavingOutline e) logged thrown"
    by (rule saveOutline_logged)
  show "\<exists>x' thrown logged. saveChapter api root novel chapter index x = (Inr (), x') \<and>
     saveChapter (recording api) root novel chapter index \<lparr>world = (world x, []), console = console x\<rparr> =
       (Inr (), \<lparr>world = (world x', thrown), console = console x'\<rparr>) \<and>
     console x' = console x @ logged \<and>
     list_all2 (\<lambda>m e. m = ErrorDirectoryHandle e \<or> m = ErrorSavingChapter (index + 1) e) logged thrown"
    by (rule saveChapter_logged)
  show "\<exists>x' thrown logged. saveAllChapters api root novel x = (Inr (), x') \<and>
     saveAllChapters (recording api) root novel \<lparr>world = (world x, []), console = console x\<rparr> =
       (Inr (), \<lparr>world = (world x', thrown), console = console x'\<rparr>) \<and>
     console x' = console x @ logged \<and>
     list_all2 (\<lambda>m e. m = ErrorDirectoryHandle e \<or>
        (\<exists>i < length (chapters novel). m = ErrorSavingChapter (i + 1) e)) logged thrown"
    by (rule saveAllChapters_logged)
  show "\<exists>x' thrown logged. saveChapterDataProp api root ready active chapter index x = (Inr (), x') \<and>
     saveChapterDataProp (recording api) root ready active chapter index
         \<lparr>world = (world x, []), console = console x\<rparr> =
       (Inr (), \<lparr>world = (world x', thrown), console = console x'\<rparr>) \<and>
     console x' = console x @ logged \<and>
     list_all2 (\<lambda>m e. m = ErrorDirectoryHandle e \<or> m = ErrorSavingChapter (index + 1) e) logged thrown"
    by (rule saveChapterDataProp_logged)
next
  assume "getDirectoryHandle api rootHandle (safeDirName (title_cfg (config novel))) (world y) = (Inl e0, w0)"
  then show "saveChapter api (Some rootHandle) novel chapter index y =
        (Inr (), \<lparr>world = w0, console = console y @ [ErrorDirectoryHandle e0]\<rparr>)"
    by (simp add: saveChapter_def getNovelDirectory_def async_defs consoleLog_def)
next
  assume "getDirectoryHandle api rootHandle (safeDirName (title_cfg (config novel))) (world z) = (Inr d, w1) \<and>
    getDirectoryHandle api d (ascii ''chapters'') w1 = (Inr chaptersDir, w2) \<and>
    getFileHandle api chaptersDir (chapterFileName chapter index) w2 = (Inr fileHandle, w3) \<and>
    createWritable api fileHandle w3 = (Inr writable, w4) \<and>
    write_stream api writable (chapterFileText chapter index) w4 = (Inl e, w5)"
  then show "saveChapter api (Some rootHandle) novel chapter index z =
        (Inr (), \<lparr>world = w5, console = console z @ [ErrorSavingChapter (index + 1) e]\<rparr>)"
    by (simp add: saveChapter_def getNovelDirectory_def writeFile_def async_defs consoleLog_def)
next
  assume a: "\<not> abortBatchRef w \<and> P + i < length loc \<and>
    generateChapterContent provider cfg (loc ! (P + i)) (getContext (loc ! (P + i)) loc) outl
      (sys_state w) = (Inr v, s1)"
  let ?loc' = "loc[P + i := (loc ! (P + i))\<lparr>content := v, isGenerated := True\<rparr>]"
  obtain x' where s: "saveChapterDataProp api root ready active (?loc' ! (P + i)) (P + i) (io s1) = (Inr (), x')"
    using saveChapterDataProp_returns by blast
  from a s show "\<exists>w'. batchPass provider (saveChapterDataProp api root ready active) stops cfg outl P i loc w =
           Inr (?loc', w') \<and> chapters_prop w' = ?loc'"
    by (simp add: batchPass_def Let_def)
qed


theorem save_failures_isolated_witness:
  "saveNovelConfig fullDisk (Some 0) (\<lambda>c. ascii ''{}'') onlyNovel \<lparr>world = True, console = []\<rparr> =
     (Inr (), \<lparr>world = True, console = [ErrorSavingConfig quotaExceeded]\<rparr>) \<and>
   saveNovelConfig (recording fullDisk) (Some 0) (\<lambda>c. ascii ''{}'') onlyNovel
       \<lparr>world = (True, []), console = []\<rparr> =
     (Inr (), \<lparr>world = (True, [quotaExceeded]), console = [ErrorSavingConfig quotaExceeded]\<rparr>) \<and>
   saveOutline (recording fullDisk) (Some 0) onlyNovel \<lparr>world = (False, []), console = []\<rparr> =
     (Inr (), \<lparr>world = (False, [accessDenied]), console = [ErrorDirectoryHandle accessDenied]\<rparr>) \<and>
   saveAllChapters fullDisk (Some 0) writtenNovel \<lparr>world = True, console = []\<rparr> =
     (Inr (), \<lparr>world = True,
               console = [ErrorSavingChapter 1 quotaExceeded, ErrorSavingChapter 3 quotaExceeded]\<rparr>) \<and>
   saveAllChapters (recording fullDisk) (Some 0) writtenNovel \<lparr>world = (True, []), console = []\<rparr> =
     (Inr (), \<lparr>world = (True, [quotaExceeded, quotaExceeded]),
               console = [ErrorSavingChapter 1 quotaExceeded, ErrorSavingChapter 3 quotaExceeded]\<rparr>) \<and>
   saveChapter fullDisk (Some 0) onlyNovel (generatedChapter ''1'') 0 \<lparr>world = False, console = []\<rparr> =
     (Inr (), \<lparr>world = False, console = [ErrorDirectoryHandle accessDenied]\<rparr>) \<and>
   saveChapter fullDisk (Some 0) onlyNovel (generatedChapter ''1'') 0 \<lparr>world = True, console = []\<rparr> =
     (Inr (), \<lparr>world = True, console = [ErrorSavingChapter 1 quotaExceeded]\<rparr>) \<and>
   (\<exists>w'. batchPass (respond answer) (saveChapterDataProp fullDisk (Some 0) True (Some onlyNovel))
           noPress exampleConfig [] 0 0 threeChapters diskWriter =
         Inr ([generatedChapter ''1'', plannedChapter ''2'', plannedChapter ''3''], w') \<and>
       chapters_prop w' = [generatedChapter ''1'', plannedChapter ''2'', plannedChapter ''3''])"
proof -
  note inst = save_failures_isolated [where api = fullDisk and root = "Some 0" and novel = onlyNovel
      and ?chapter = "generatedChapter ''1''" and index = 0 and rootHandle = 0
      and y = "\<lparr>world = False, console = []\<rparr>" and ?e0.0 = accessDenied and ?w0.0 = False
      and z = "\<lparr>world = True, console = []\<rparr>" and d = 1 and ?w1.0 = True and chaptersDir = 2
      and ?w2.0 = True and fileHandle = 3 and ?w3.0 = True and writable = 4 and ?w4.0 = True
      and e = quotaExceeded and ?w5.0 = True
      and ready = True and active = "Some onlyNovel" and w = diskWriter and P = 0 and i = 0
      and loc = threeChapters and provider = "respond answer" and cfg = exampleConfig and outl = "[]"
      and v = "ascii ''text''" and ?s1.0 = "invoked (io (sys_state diskWriter)) (sys_state diskWriter)"
      and stops = noPress]
  note rest = inst [THEN conjunct2, THEN conjunct2, THEN conjunct2, THEN conjunct2, THEN conjunct2]
  have cfg: "saveNovelConfig fullDisk (Some 0) (\<lambda>c. ascii ''{}'') onlyNovel \<lparr>world = True, console = []\<rparr> =
     (Inr (), \<lparr>world = True, console = [ErrorSavingConfig quotaExceeded]\<rparr>)"
    "saveNovelConfig (recording fullDisk) (Some 0) (\<lambda>c. ascii ''{}'') onlyNovel
       \<lparr>world = (True, []), console = []\<rparr> =
     (Inr (), \<lparr>world = (True, [quotaExceeded]), console = [ErrorSavingConfig quotaExceeded]\<rparr>)"
    by (simp_all add: saveNovelConfig_def getNovelDirectory_def writeFile_def async_defs consoleLog_def
        recording_simps recorded_def fullDisk_def)
  have outl: "saveOutline (recording fullDisk) (Some 0) onlyNovel \<lparr>world = (False, []), console = []\<rparr> =
     (Inr (), \<lparr>world = (False, [accessDenied]), console = [ErrorDirectoryHandle accessDenied]\<rparr>)"
    by (simp add: saveOutline_def getNovelDirectory_def writeFile_def async_defs consoleLog_def
        recording_simps recorded_def fullDisk_def)
  have text_trim: "trim (ascii ''text'') = ascii ''text''" "ascii ''text'' \<noteq> []"
    by (simp_all add: trim_def trimStart_def trimEnd_def ascii_def isSpace_def)
  have all: "saveAllChapters fullDisk (Some 0) writtenNovel \<lparr>world = True, console = []\<rparr> =
     (Inr (), \<lparr>world = True,
               console = [ErrorSavingChapter 1 quotaExceeded, ErrorSavingChapter 3 quotaExceeded]\<rparr>)"
    "saveAllChapters (recording fullDisk) (Some 0) writtenNovel \<lparr>world = (True, []), console = []\<rparr> =
     (Inr (), \<lparr>world = (True, [quotaExceeded, quotaExceeded]),
               console = [ErrorSavingChapter 1 quotaExceeded, ErrorSavingChapter 3 quotaExceeded]\<rparr>)"
    by (simp_all add: saveAllChapters_def writtenNovel_def generatedChapter_def plannedChapter_def
        text_trim saveChapter_def getNovelDirectory_def writeFile_def async_defs consoleLog_def
        recording_simps recorded_def fullDisk_def)
  have a: "saveChapter fullDisk (Some 0) onlyNovel (generatedChapter ''1'') 0 \<lparr>world = False, console = []\<rparr> =
     (Inr (), \<lparr>world = False, console = [ErrorDirectoryHandle accessDenied]\<rparr>)"
    using rest [THEN conjunct1]
    by (simp add: fullDisk_def)
  have b: "saveChapter fullDisk (Some 0) onlyNovel (generatedChapter ''1'') 0 \<lparr>world = True, console = []\<rparr> =
     (Inr (), \<lparr>world = True, console = [ErrorSavingChapter 1 quotaExceeded]\<rparr>)"
    using rest [THEN conjunct2, THEN conjunct1]
    by (simp add: fullDisk_def)
  have c: "\<exists>w'. batchPass (respond answer) (saveChapterDataProp fullDisk (Some 0) True (Some onlyNovel))
           noPress exampleConfig [] 0 0 threeChapters diskWriter =
         Inr ([generatedChapter ''1'', plannedChapter ''2'', plannedChapter ''3''], w') \<and>
       chapters_prop w' = [generatedChapter ''1'', plannedChapter ''2'', plannedChapter ''3'']"
    using rest [THEN conjunct2, THEN conjunct2]
    by (simp add: content_respond diskWriter_def threeChapters_def generatedChapter_def)
  show ?thesis
    using cfg outl all a b c by blast
qed

section \<open>The planning loop\<close>

text \<open>
  A batch call that keeps returning no chapters keeps the loop going: the loop has no
  result.
\<close>

lemma planLoop_no_result:
  assumes ret: "planLoop parse uuid provider cfg outl allChapters v = Some res"
  shows "(\<forall>s. \<exists>s'. generateChapterBatch parse uuid provider cfg outl (length allChapters)
             (min BATCH_SIZE (targetChapterCount cfg - int (length allChapters))) allChapters s =
           (Inr [], s')) \<longrightarrow>
         \<not> int (length allChapters) < targetChapterCount cfg"
proof (rule planLoop.raw_induct
    [where P = "\<lambda>parse uuid provider cfg outl allChapters v res.
        (\<forall>s. \<exists>s'. generateChapterBatch parse uuid provider cfg outl (length allChapters)
             (min BATCH_SIZE (targetChapterCount cfg - int (length allChapters))) allChapters s =
           (Inr [], s')) \<longrightarrow>
         \<not> int (length allChapters) < targetChapterCount cfg", OF _ ret])
  fix loop :: "(ustring \<Rightarrow> json option) \<Rightarrow> ('a \<Rightarrow> ustring \<times> 'a) \<Rightarrow> 'a provider \<Rightarrow> NovelConfig \<Rightarrow> ustring \<Rightarrow>
      PlannedChapter list \<Rightarrow> 'a outline_view \<Rightarrow>
      (failure option \<times> PlannedChapter list \<times> 'a outline_view) option"
    and parse uuid provider cfg outl allChapters v res
  assume IH: "\<And>parse uuid provider cfg outl allChapters v res.
      loop parse uuid provider cfg outl allChapters v = Some res \<Longrightarrow>
      (\<forall>s. \<exists>s'. generateChapterBatch parse uuid provider cfg outl (length allChapters)
             (min BATCH_SIZE (targetChapterCount cfg - int (length allChapters))) allChapters s =
           (Inr [], s')) \<longrightarrow>
         \<not> int (length allChapters) < targetChapterCount cfg"
    and body: "(if int (length allChapters) < targetChapterCount cfg then
        (case generateChapterBatch parse uuid provider cfg outl (length allChapters)
                (min BATCH_SIZE (targetChapterCount cfg - int (length allChapters))) allChapters
                (sys_ov v) of
           (Inl e, s) \<Rightarrow> Some (Some e, allChapters, v\<lparr>sys_ov := s\<rparr>)
         | (Inr newBatch, s) \<Rightarrow>
             loop parse uuid provider cfg outl (allChapters @ newBatch)
               ((setProgress (int (length (allChapters @ newBatch)), targetChapterCount cfg)
                   (v\<lparr>sys_ov := s\<rparr>))
                \<lparr>sys_ov := delay 500 s\<rparr>))
      else Some (None, allChapters, v)) = Some res"
  show "(\<forall>s. \<exists>s'. generateChapterBatch parse uuid provider cfg outl (length allChapters)
             (min BATCH_SIZE (targetChapterCount cfg - int (length allChapters))) allChapters s =
           (Inr [], s')) \<longrightarrow>
         \<not> int (length allChapters) < targetChapterCount cfg"
  proof (intro impI notI)
    assume stuck: "\<forall>s. \<exists>s'. generateChapterBatch parse uuid provider cfg outl (length allChapters)
             (min BATCH_SIZE (targetChapterCount cfg - int (length allChapters))) allChapters s =
           (Inr [], s')"
      and less: "int (length allChapters) < targetChapterCount cfg"
    obtain s' where b: "generateChapterBatch parse uuid provider cfg outl (length allChapters)
           (min BATCH_SIZE (targetChapterCount cfg - int (length allChapters))) allChapters (sys_ov v) =
         (Inr [], s')"
      using stuck by blast
    from body b less obtain v' where "loop parse uuid provider cfg outl allChapters v' = Some res"
      by simp
    from IH [OF this] stuck less show False
      by blast
  qed
qed

lemma planLoop_diverges:
  assumes "\<forall>s. \<exists>s'. generateChapterBatch parse uuid provider cfg outl (length allChapters)
           (min BATCH_SIZE (targetChapterCount cfg - int (length allChapters))) allChapters s =
         (Inr [], s')"
    and "int (length allChapters) < targetChapterCount cfg"
  shows "planLoop parse uuid provider cfg outl allChapters v = None"
proof (cases "planLoop parse uuid provider cfg outl allChapters v")
  case None
  then show ?thesis .
next
  case (Some res)
  from planLoop_no_result [OF Some] assms show ?thesis by blast
qed

lemma emptyArray_batch:
  "generateChapterBatch parseLiteral noUuid (respond emptyArray) cfg outl start batchSize prev s =
     (Inr [], invoked (io s) s)"
proof -
  have "batchOperation parseLiteral noUuid (respond emptyArray) cfg outl start batchSize prev (io s) =
      (Inr [], io s)"
    by (simp add: batchOperation_def generateContent_def respond_def emptyArray_def text_or_def
        parseLiteral_def cleanJson_eval)
  then show ?thesis
    by (simp add: generateChapterBatch_def callAI_def callAIWithRetry_success)
qed

text \<open>
  With a batch call that always returns as many chapters as it was asked for, the loop
  ends, without a failure and with exactly the target count (or with what it started
  from, when that was the target or more).
\<close>

lemma planLoop_exact_batches:
  assumes exact: "\<forall>start k prev s. 0 < k \<longrightarrow>
      (\<exists>b s'. generateChapterBatch parse uuid provider cfg outl start k prev s = (Inr b, s') \<and>
         int (length b) = k)"
  shows "\<exists>allChapters' v'. planLoop parse uuid provider cfg outl allChapters v = Some (None, allChapters', v') \<and>
           int (length allChapters') = max (int (length allChapters)) (targetChapterCount cfg)"
proof (induction "nat (targetChapterCount cfg - int (length allChapters))"
    arbitrary: allChapters v rule: less_induct)
  case less
  show ?case
  proof (cases "int (length allChapters) < targetChapterCount cfg")
    case False
    then show ?thesis
      by (subst planLoop.simps) simp
  next
    case True
    let ?k = "min BATCH_SIZE (targetChapterCount cfg - int (length allChapters))"
    have k: "0 < ?k" using True by (simp add: BATCH_SIZE_def)
    then obtain b s' where b: "generateChapterBatch parse uuid provider cfg outl (length allChapters) ?k
        allChapters (sys_ov v) = (Inr b, s')" "int (length b) = ?k"
      using exact by blast
    let ?v' = "(setProgress (int (length (allChapters @ b)), targetChapterCount cfg) (v\<lparr>sys_ov := s'\<rparr>))
                \<lparr>sys_ov := delay 500 s'\<rparr>"
    have step: "planLoop parse uuid provider cfg outl allChapters v =
        planLoop parse uuid provider cfg outl (allChapters @ b) ?v'"
      using True b(1) by (subst planLoop.simps) simp
    have "nat (targetChapterCount cfg - int (length (allChapters @ b))) <
        nat (targetChapterCount cfg - int (length allChapters))"
      using k b(2) True by simp
    from less [OF this, of ?v'] obtain allChapters' v'' where
      r: "planLoop parse uuid provider cfg outl (allChapters @ b) ?v' = Some (None, allChapters', v'')"
        "int (length allChapters') = max (int (length (allChapters @ b))) (targetChapterCount cfg)"
      by blast
    have "int (length (allChapters @ b)) \<le> targetChapterCount cfg"
      using b(2) by simp
    with r True show ?thesis
      unfolding step by auto
  qed
qed

text \<open>
  Claim C2 fails on the code. The target count is 25 and the batch size 20, and the
  provider answers every request with the empty array. Each batch call succeeds with no
  chapters, the accumulated count stays 0 and never reaches the target: the planning
  loop has no result, that is, \<open>handleGenerateChapters\<close> never returns.
\<close>
theorem handleGenerateChapters_never_returns:
  "targetChapterCount exampleConfig = 25 \<and> BATCH_SIZE = 20 \<and>
   generateChapterBatch parseLiteral noUuid (respond emptyArray) exampleConfig [] 0 20 []
     initialSys = (Inr [], invoked (io initialSys) initialSys) \<and>
   handleGenerateChapters parseLiteral noUuid (respond emptyArray) exampleConfig [] initialView = None"
proof -
  have "planLoop parseLiteral noUuid (respond emptyArray) exampleConfig [] []
      (setProgress (0, targetChapterCount exampleConfig) (initialView\<lparr>isGenerating_ov := True\<rparr>)) = None"
    by (rule planLoop_diverges) (simp_all add: emptyArray_batch exampleConfig_def)
  then have "handleGenerateChapters parseLiteral noUuid (respond emptyArray) exampleConfig [] initialView = None"
    by (simp add: handleGenerateChapters_def)
  then show ?thesis
    by (simp add: emptyArray_batch exampleConfig_def BATCH_SIZE_def)
qed

end
